(* ===== verification/Prelude.thy ===== *)
theory Prelude
  imports Main
begin

text \<open>
  The shared vocabulary of the development: Go's byte strings, errors and results, the wrap-around
  of the 64-bit \<^verbatim>\<open>int\<close>, loops that stop at the first error, and the generic lemmas on lists
  and options that the component theories use.

  A Go \<^verbatim>\<open>string\<close> and a Go \<^verbatim>\<open>[]byte\<close> are both sequences of bytes, so both are the HOL type
  \<^typ>\<open>string\<close> (a list of \<^typ>\<open>char\<close>, which has exactly 256 values).
\<close>

section \<open>Bytes, errors, results\<close>

type_synonym bytes = string

text \<open>
  An \<^verbatim>\<open>error\<close> value: a message made by \<^verbatim>\<open>errors.New\<close> or \<^verbatim>\<open>fmt.Errorf\<close>, a message that
  wraps another error with \<^verbatim>\<open>%w\<close>, and the error a library or system call returned, which the
  code only passes on.
\<close>

datatype goerr =
    Err bytes
  | Wrap bytes goerr
  | Foreign bytes

fun err_text :: "goerr \<Rightarrow> bytes" where
  "err_text (Err m) = m"
| "err_text (Wrap m e) = m @ '': '' @ err_text e"
| "err_text (Foreign m) = m"

type_synonym 'a res = "goerr + 'a"

abbreviation Fail :: "goerr \<Rightarrow> 'a res" where
  "Fail e \<equiv> Inl e"

abbreviation Ok :: "'a \<Rightarrow> 'a res" where
  "Ok x \<equiv> Inr x"

definition is_ok :: "'a res \<Rightarrow> bool" where
  "is_ok r = (case r of Inl _ \<Rightarrow> False | Inr _ \<Rightarrow> True)"

text \<open>\<^verbatim>\<open>if err != nil { return fmt.Errorf("m: %w", err) }\<close>.\<close>

definition wrap_err :: "bytes \<Rightarrow> 'a res \<Rightarrow> 'a res" where
  "wrap_err m r = (case r of Inl e \<Rightarrow> Inl (Wrap m e) | Inr x \<Rightarrow> Inr x)"

text \<open>\<^verbatim>\<open>x, err := f(); if err != nil { return err }; g(x)\<close>.\<close>

definition and_then :: "'a res \<Rightarrow> ('a \<Rightarrow> 'b res) \<Rightarrow> 'b res" where
  "and_then r f = (case r of Inl e \<Rightarrow> Inl e | Inr x \<Rightarrow> f x)"

text \<open>A \<^verbatim>\<open>for range\<close> loop that builds a slice and returns at the first error.\<close>

fun map_res :: "('a \<Rightarrow> 'b res) \<Rightarrow> 'a list \<Rightarrow> 'b list res" where
  "map_res f [] = Inr []"
| "map_res f (x # xs) =
     (case f x of Inl e \<Rightarrow> Inl e
      | Inr y \<Rightarrow> (case map_res f xs of Inl e \<Rightarrow> Inl e | Inr ys \<Rightarrow> Inr (y # ys)))"

text \<open>An \<^verbatim>\<open>option\<close> turned into a result with the error of the \<^verbatim>\<open>nil\<close> case.\<close>

definition or_fail :: "goerr \<Rightarrow> 'a option \<Rightarrow> 'a res" where
  "or_fail e x = (case x of None \<Rightarrow> Inl e | Some y \<Rightarrow> Inr y)"

text \<open>Code that also changes a state: each step returns its result and the state after it.\<close>

type_synonym ('s, 'a) op = "'s \<Rightarrow> 'a res \<times> 's"

definition ret_op :: "'a \<Rightarrow> ('s, 'a) op" where
  "ret_op x s = (Inr x, s)"

definition lift_op :: "'a res \<Rightarrow> ('s, 'a) op" where
  "lift_op r s = (r, s)"

definition bind_op :: "('s, 'a) op \<Rightarrow> ('a \<Rightarrow> ('s, 'b) op) \<Rightarrow> ('s, 'b) op" where
  "bind_op m f s = (case m s of (r, s') \<Rightarrow> (case r of Inl e \<Rightarrow> (Inl e, s') | Inr x \<Rightarrow> f x s'))"

definition wrap_op :: "bytes \<Rightarrow> ('s, 'a) op \<Rightarrow> ('s, 'a) op" where
  "wrap_op m f s = (case f s of (r, s') \<Rightarrow> (wrap_err m r, s'))"

fun map_op :: "('a \<Rightarrow> ('s, 'b) op) \<Rightarrow> 'a list \<Rightarrow> ('s, 'b list) op" where
  "map_op f [] = ret_op []"
| "map_op f (x # xs) = bind_op (f x) (\<lambda>y. bind_op (map_op f xs) (\<lambda>ys. ret_op (y # ys)))"

text \<open>The 64-bit two's complement \<^verbatim>\<open>int\<close>: every Go operation on it wraps.\<close>

definition wrap64 :: "int \<Rightarrow> int" where
  "wrap64 x = (x + 2 ^ 63) mod 2 ^ 64 - 2 ^ 63"

definition int64 :: "int \<Rightarrow> bool" where
  "int64 x = (- (2 ^ 63) \<le> x \<and> x < 2 ^ 63)"

text \<open>Collections of facts that the component proofs unfold together.\<close>

named_theorems go_res \<open>equations of the result combinators\<close>
named_theorems go_dec \<open>decoders applied to the encodings they invert\<close>

section \<open>Lemmas\<close>

lemma is_ok_simps [simp]: "is_ok (Inl e) = False" "is_ok (Inr x) = True"
  by (simp_all add: is_ok_def)

lemma is_ok_E: "is_ok r \<Longrightarrow> (\<And>x. r = Inr x \<Longrightarrow> P) \<Longrightarrow> P"
  by (cases r) auto

lemma and_then_simps [simp, go_res]:
  "and_then (Inl e) f = Inl e" "and_then (Inr x) f = f x"
  by (simp_all add: and_then_def)

lemma and_then_Inr [go_res]: "and_then r f = Inr y \<longleftrightarrow> (\<exists>x. r = Inr x \<and> f x = Inr y)"
  by (cases r) (auto simp: and_then_def)

lemma wrap_err_simps [simp, go_res]:
  "wrap_err m (Inl e) = Inl (Wrap m e)" "wrap_err m (Inr x) = Inr x"
  by (simp_all add: wrap_err_def)

lemma wrap_err_Inr [go_res]: "wrap_err m r = Inr y \<longleftrightarrow> r = Inr y"
  by (cases r) auto

lemma or_fail_simps [simp, go_res]: "or_fail e None = Inl e" "or_fail e (Some x) = Inr x"
  by (simp_all add: or_fail_def)

lemma or_fail_Inr [go_res]: "or_fail e x = Inr y \<longleftrightarrow> x = Some y"
  by (cases x) auto

lemma op_simps [simp]:
  "ret_op x s = (Inr x, s)" "lift_op r s = (r, s)"
  by (simp_all add: ret_op_def lift_op_def)

lemma bind_op_Pair:
  "m s = (Inr x, s') \<Longrightarrow> bind_op m f s = f x s'" "m s = (Inl e, s') \<Longrightarrow> bind_op m f s = (Inl e, s')"
  by (simp_all add: bind_op_def)

lemma bind_op_Inr: "bind_op m f s = (Inr y, s'') \<longleftrightarrow> (\<exists>x s'. m s = (Inr x, s') \<and> f x s' = (Inr y, s''))"
  by (auto simp: bind_op_def split: prod.splits sum.splits)

lemma wrap_op_Inr: "wrap_op m f s = (Inr y, s') \<longleftrightarrow> f s = (Inr y, s')"
  by (auto simp: wrap_op_def wrap_err_Inr split: prod.splits)

text \<open>What every step keeps, the composition keeps.\<close>

definition keeps :: "('s \<Rightarrow> bool) \<Rightarrow> ('s, 'a) op \<Rightarrow> bool" where
  "keeps P m = (\<forall>s. P s \<longrightarrow> P (snd (m s)))"

lemma keepsI: "(\<And>s. P s \<Longrightarrow> P (snd (m s))) \<Longrightarrow> keeps P m"
  by (simp add: keeps_def)

lemma keepsD: "keeps P m \<Longrightarrow> P s \<Longrightarrow> P (snd (m s))"
  by (simp add: keeps_def)

lemma keeps_ret [intro, simp]: "keeps P (ret_op x)" "keeps P (lift_op r)" "keeps P (Pair r)"
  by (simp_all add: keeps_def)

lemma keeps_bind [intro]:
  assumes "keeps P m" and "\<And>x. keeps P (f x)"
  shows "keeps P (bind_op m f)"
proof (rule keepsI)
  fix s assume "P s"
  then have "P (snd (m s))" by (rule keepsD [OF assms(1)])
  then show "P (snd (bind_op m f s))"
    using keepsD [OF assms(2)] by (auto simp: bind_op_def split: prod.splits sum.splits)
qed

lemma keeps_wrap [intro]: "keeps P m \<Longrightarrow> keeps P (wrap_op msg m)"
  by (auto simp: keeps_def wrap_op_def split: prod.splits)

lemma keeps_map [intro]: "(\<And>x. keeps P (f x)) \<Longrightarrow> keeps P (map_op f xs)"
  by (induction xs) auto

lemma map_res_ok: "(\<And>x. x \<in> set xs \<Longrightarrow> f x = Inr (g x)) \<Longrightarrow> map_res f xs = Inr (map g xs)"
  by (induction xs) auto

lemma map_res_Inr_length: "map_res f xs = Inr ys \<Longrightarrow> length ys = length xs"
  by (induction xs arbitrary: ys) (auto split: sum.splits)

lemma map_res_Inr_nth:
  "map_res f xs = Inr ys \<Longrightarrow> i < length xs \<Longrightarrow> f (xs ! i) = Inr (ys ! i)"
proof (induction xs arbitrary: ys i)
  case Nil
  then show ?case by simp
next
  case (Cons x xs)
  then show ?case by (cases i) (auto split: sum.splits)
qed

lemma map_res_append_Inr:
  "map_res f (xs @ ys) = Inr zs \<longleftrightarrow>
     (\<exists>as bs. map_res f xs = Inr as \<and> map_res f ys = Inr bs \<and> zs = as @ bs)"
  by (induction xs arbitrary: zs) (auto split: sum.splits, metis append_Cons)

lemma map_res_take:
  "map_res f xs = Inr ys \<Longrightarrow> map_res f (take n xs) = Inr (take n ys)"
proof (induction xs arbitrary: ys n)
  case Nil
  then show ?case by simp
next
  case (Cons x xs)
  then show ?case by (cases n) (auto split: sum.splits)
qed

lemma int64_wrap64 [simp]: "int64 (wrap64 x)"
  by (simp add: int64_def wrap64_def)

lemma wrap64_id [simp]: "int64 x \<Longrightarrow> wrap64 x = x"
  unfolding int64_def wrap64_def by (subst mod_pos_pos_trivial) auto

lemma last_index_unique:
  "distinct xs \<Longrightarrow> i < length xs \<Longrightarrow> j < length xs \<Longrightarrow> xs ! i = xs ! j \<Longrightarrow> i = j"
  by (simp add: nth_eq_iff_index_eq)

lemma append_eq_same_length:
  "length a = length c \<Longrightarrow> a @ b = c @ d \<longleftrightarrow> a = c \<and> b = d"
  by (rule append_eq_append_conv) simp

end
