(* ===== verification/GoStrings.thy ===== *)
theory GoStrings
  imports Prelude
begin

text \<open>
  What the program uses of Go's \<^verbatim>\<open>strings\<close>, \<^verbatim>\<open>bytes\<close>, \<^verbatim>\<open>strconv\<close>, \<^verbatim>\<open>encoding/hex\<close> and
  \<^verbatim>\<open>encoding/base64\<close>: searching, splitting and trimming byte strings, decimal numbers at their
  64-bit range, and the two text encodings of hashes and keys. The locale \<open>codec\<close> states the law
  every encoder/decoder pair of the program relies on; it is interpreted here on hex, base64 and
  the decimal formats, and in later theories on the program's own codecs.
\<close>

section \<open>Searching, splitting, trimming\<close>

text \<open>\<^verbatim>\<open>strings.HasPrefix\<close> and \<^verbatim>\<open>HasSuffix\<close>.\<close>

definition has_prefix :: "bytes \<Rightarrow> bytes \<Rightarrow> bool" where
  "has_prefix p s = (take (length p) s = p)"

definition has_suffix :: "bytes \<Rightarrow> bytes \<Rightarrow> bool" where
  "has_suffix p s = has_prefix (rev p) (rev s)"

text \<open>
  \<open>cut sep s\<close> is the text before and after the first occurrence of \<open>sep\<close>, as \<^verbatim>\<open>strings.Cut\<close>
  and \<^verbatim>\<open>bytes.Index\<close> find it.
\<close>

fun cut :: "bytes \<Rightarrow> bytes \<Rightarrow> (bytes \<times> bytes) option" where
  "cut sep [] = (if sep = [] then Some ([], []) else None)"
| "cut sep (c # s) =
     (if has_prefix sep (c # s) then Some ([], drop (length sep) (c # s))
      else (case cut sep s of None \<Rightarrow> None | Some (a, b) \<Rightarrow> Some (c # a, b)))"

text \<open>\<^verbatim>\<open>strings.Contains\<close>.\<close>

definition str_contains :: "bytes \<Rightarrow> bytes \<Rightarrow> bool" where
  "str_contains s sep = (cut sep s \<noteq> None)"

text \<open>\<^verbatim>\<open>strings.SplitN(s, sep, n)\<close> with a non-empty separator and \<open>n > 0\<close>.\<close>

fun split_n :: "nat \<Rightarrow> bytes \<Rightarrow> bytes \<Rightarrow> bytes list" where
  "split_n 0 sep s = []"
| "split_n (Suc n) sep s =
     (if n = 0 then [s]
      else (case cut sep s of None \<Rightarrow> [s] | Some (a, b) \<Rightarrow> a # split_n n sep b))"

text \<open>\<^verbatim>\<open>strings.Split(s, c)\<close> for a separator of one byte.\<close>

fun split_char :: "char \<Rightarrow> bytes \<Rightarrow> bytes list" where
  "split_char c [] = [[]]"
| "split_char c (x # xs) =
     (if x = c then [] # split_char c xs
      else (case split_char c xs of [] \<Rightarrow> [[x]] | y # ys \<Rightarrow> (x # y) # ys))"

text \<open>
  The UTF-8 encodings of the runes \<^verbatim>\<open>unicode.IsSpace\<close> accepts. \<^verbatim>\<open>strings.TrimSpace\<close> removes
  them from both ends; \<^verbatim>\<open>strings.TrimRight(s, cutset)\<close> removes the given bytes from the right.
\<close>

definition b3 :: "nat \<Rightarrow> nat \<Rightarrow> nat \<Rightarrow> bytes" where
  "b3 x y z = [char_of x, char_of y, char_of z]"

definition go_spaces :: "bytes list" where
  "go_spaces =
     map (\<lambda>n. [char_of n]) [9, 10, 11, 12, 13, 32 :: nat] @
     [[char_of (194 :: nat), char_of (133 :: nat)], [char_of (194 :: nat), char_of (160 :: nat)],
      b3 225 154 128] @
     map (b3 226 128) [128..<139] @
     [b3 226 128 168, b3 226 128 169, b3 226 128 175, b3 226 129 159, b3 227 128 128]"

fun drop_spaces :: "nat \<Rightarrow> bytes list \<Rightarrow> bytes \<Rightarrow> bytes" where
  "drop_spaces 0 sps s = s"
| "drop_spaces (Suc n) sps s =
     (case List.find (\<lambda>p. has_prefix p s) sps of
        None \<Rightarrow> s
      | Some p \<Rightarrow> drop_spaces n sps (drop (length p) s))"

definition trim_left_space :: "bytes \<Rightarrow> bytes" where
  "trim_left_space s = drop_spaces (length s) go_spaces s"

definition trim_right_space :: "bytes \<Rightarrow> bytes" where
  "trim_right_space s = rev (drop_spaces (length s) (map rev go_spaces) (rev s))"

definition trim_space :: "bytes \<Rightarrow> bytes" where
  "trim_space s = trim_right_space (trim_left_space s)"

definition trim_right_char :: "char \<Rightarrow> bytes \<Rightarrow> bytes" where
  "trim_right_char c s = rev (dropWhile (\<lambda>x. x = c) (rev s))"

section \<open>Decimal numbers\<close>

text \<open>\<^verbatim>\<open>%d\<close>, \<^verbatim>\<open>strconv.FormatInt(n, 10)\<close>.\<close>

definition digit_char :: "nat \<Rightarrow> char" where
  "digit_char d = char_of (48 + d)"

definition is_digit :: "char \<Rightarrow> bool" where
  "is_digit c = (48 \<le> (of_char c :: nat) \<and> (of_char c :: nat) \<le> 57)"

definition digit_val :: "char \<Rightarrow> nat" where
  "digit_val c = of_char c - 48"

fun itoa_nat :: "nat \<Rightarrow> bytes" where
  "itoa_nat n = (if n < 10 then [digit_char n] else itoa_nat (n div 10) @ [digit_char (n mod 10)])"

declare itoa_nat.simps [simp del]

definition itoa :: "int \<Rightarrow> bytes" where
  "itoa i = (if i < 0 then CHR ''-'' # itoa_nat (nat (- i)) else itoa_nat (nat i))"

definition digits_val :: "bytes \<Rightarrow> nat" where
  "digits_val s = foldl (\<lambda>acc c. 10 * acc + digit_val c) 0 s"

text \<open>
  \<^verbatim>\<open>strconv.ParseUint(s, 10, 64)\<close>: digits only, at least one, at most \<open>2 ^ 64 - 1\<close>.
  \<^verbatim>\<open>strconv.ParseInt(s, 10, 64)\<close> also takes one sign. Both return an error otherwise.
\<close>

definition parse_uint :: "bytes \<Rightarrow> nat option" where
  "parse_uint s =
     (if s \<noteq> [] \<and> list_all is_digit s \<and> digits_val s < 2 ^ 64 then Some (digits_val s) else None)"

definition parse_int :: "bytes \<Rightarrow> int option" where
  "parse_int s =
     (case s of
        [] \<Rightarrow> None
      | c # t \<Rightarrow>
          (if c = CHR ''-'' then
             (if t \<noteq> [] \<and> list_all is_digit t \<and> digits_val t \<le> 2 ^ 63
              then Some (- int (digits_val t)) else None)
           else
             (let u = (if c = CHR ''+'' then t else s)
              in if u \<noteq> [] \<and> list_all is_digit u \<and> digits_val u < 2 ^ 63
                 then Some (int (digits_val u)) else None)))"

text \<open>\<^verbatim>\<open>strconv.Atoi\<close> with its error ignored: the value is 0 for a syntax error, and the nearest
  bound for a number out of range.\<close>

definition atoi_or_zero :: "bytes \<Rightarrow> int" where
  "atoi_or_zero s =
     (case parse_int s of
        Some i \<Rightarrow> i
      | None \<Rightarrow>
          (case s of
             [] \<Rightarrow> 0
           | c # t \<Rightarrow>
               (let u = (if c = CHR ''-'' \<or> c = CHR ''+'' then t else s)
                in if u \<noteq> [] \<and> list_all is_digit u
                   then (if c = CHR ''-'' then - (2 ^ 63) else 2 ^ 63 - 1) else 0)))"

text \<open>\<^verbatim>\<open>%0nd\<close>: zeros on the left up to \<open>n\<close> characters.\<close>

definition pad_zero :: "nat \<Rightarrow> bytes \<Rightarrow> bytes" where
  "pad_zero n s = replicate (n - length s) (CHR ''0'') @ s"

section \<open>Hex and base64\<close>

definition hex_digit :: "nat \<Rightarrow> char" where
  "hex_digit n = (if n < 10 then char_of (48 + n) else char_of (87 + n))"

text \<open>\<^verbatim>\<open>hex.EncodeToString\<close>, \<^verbatim>\<open>%x\<close>: two lower-case digits per byte.\<close>

fun hex_encode :: "bytes \<Rightarrow> bytes" where
  "hex_encode [] = []"
| "hex_encode (c # s) =
     hex_digit (of_char c div 16) # hex_digit (of_char c mod 16) # hex_encode s"

definition hex_val :: "char \<Rightarrow> nat option" where
  "hex_val c =
     (let n = of_char c :: nat
      in if 48 \<le> n \<and> n \<le> 57 then Some (n - 48)
         else if 97 \<le> n \<and> n \<le> 102 then Some (n - 87)
         else if 65 \<le> n \<and> n \<le> 70 then Some (n - 55)
         else None)"

text \<open>\<^verbatim>\<open>hex.DecodeString\<close>: both cases of letters, an even number of digits.\<close>

fun hex_decode :: "bytes \<Rightarrow> bytes option" where
  "hex_decode [] = Some []"
| "hex_decode [c] = None"
| "hex_decode (c # d # s) =
     (case hex_val c of None \<Rightarrow> None
      | Some h \<Rightarrow> (case hex_val d of None \<Rightarrow> None
        | Some l \<Rightarrow> map_option (\<lambda>r. char_of (16 * h + l) # r) (hex_decode s)))"

definition b64_digit :: "nat \<Rightarrow> char" where
  "b64_digit n =
     (if n < 26 then char_of (65 + n) else if n < 52 then char_of (71 + n)
      else if n < 62 then char_of (n - 4) else if n = 62 then CHR ''+'' else CHR ''/'')"

definition b64_val :: "char \<Rightarrow> nat option" where
  "b64_val c =
     (let n = of_char c :: nat
      in if 65 \<le> n \<and> n \<le> 90 then Some (n - 65)
         else if 97 \<le> n \<and> n \<le> 122 then Some (n - 71)
         else if 48 \<le> n \<and> n \<le> 57 then Some (n + 4)
         else if n = 43 then Some 62 else if n = 47 then Some 63 else None)"

text \<open>\<^verbatim>\<open>base64.StdEncoding.EncodeToString\<close>: three bytes in four digits, padded with \<^verbatim>\<open>=\<close>.\<close>

fun b64_encode :: "bytes \<Rightarrow> bytes" where
  "b64_encode [] = []"
| "b64_encode [a] =
     (let n = of_char a :: nat
      in [b64_digit (n div 4), b64_digit (n mod 4 * 16), CHR ''='', CHR ''=''])"
| "b64_encode [a, b] =
     (let m = of_char a :: nat; n = of_char b
      in [b64_digit (m div 4), b64_digit (m mod 4 * 16 + n div 16), b64_digit (n mod 16 * 4),
          CHR ''=''])"
| "b64_encode (a # b # c # s) =
     (let m = of_char a :: nat; n = of_char b; k = of_char c
      in b64_digit (m div 4) # b64_digit (m mod 4 * 16 + n div 16) #
         b64_digit (n mod 16 * 4 + k div 64) # b64_digit (k mod 64) # b64_encode s)"

text \<open>
  \<^verbatim>\<open>base64.StdEncoding.DecodeString\<close> skips \<^verbatim>\<open>\r\<close> and \<^verbatim>\<open>\n\<close>, wants padding, and (not being
  \<^verbatim>\<open>Strict\<close>) ignores the trailing bits of the last digit.
\<close>

fun b64_groups :: "bytes \<Rightarrow> bytes option" where
  "b64_groups [] = Some []"
| "b64_groups (p # q # r # s # rest) =
     (if rest = [] \<and> r = CHR ''='' \<and> s = CHR ''='' then
        (case (b64_val p, b64_val q) of
           (Some a, Some b) \<Rightarrow> Some [char_of (4 * a + b div 16)]
         | _ \<Rightarrow> None)
      else if rest = [] \<and> s = CHR ''='' then
        (case (b64_val p, b64_val q, b64_val r) of
           (Some a, Some b, Some c) \<Rightarrow>
             Some [char_of (4 * a + b div 16), char_of (16 * (b mod 16) + c div 4)]
         | _ \<Rightarrow> None)
      else
        (case (b64_val p, b64_val q, b64_val r, b64_val s) of
           (Some a, Some b, Some c, Some d) \<Rightarrow>
             map_option (\<lambda>t. char_of (4 * a + b div 16) # char_of (16 * (b mod 16) + c div 4) #
                             char_of (64 * (c mod 4) + d) # t) (b64_groups rest)
         | _ \<Rightarrow> None))"
| "b64_groups s = None"

definition b64_decode :: "bytes \<Rightarrow> bytes option" where
  "b64_decode s = b64_groups (filter (\<lambda>c. c \<noteq> char_of (10 :: nat) \<and> c \<noteq> char_of (13 :: nat)) s)"

section \<open>The codec interface\<close>

text \<open>
  What a client of an encoder/decoder pair relies on: decoding an encoded value gives the value
  back, for the values \<open>ok\<close> admits.
\<close>

locale codec =
  fixes enc :: "'a \<Rightarrow> bytes"
    and dec :: "bytes \<Rightarrow> 'a option"
    and ok :: "'a \<Rightarrow> bool"
  assumes dec_enc: "ok x \<Longrightarrow> dec (enc x) = Some x"
begin

lemma enc_inj: "ok x \<Longrightarrow> ok y \<Longrightarrow> enc x = enc y \<Longrightarrow> x = y"
  by (metis dec_enc option.inject)

lemma enc_eq_iff: "ok x \<Longrightarrow> ok y \<Longrightarrow> enc x = enc y \<longleftrightarrow> x = y"
  using enc_inj by blast

end

section \<open>Hex\<close>

lemma of_char_less [simp]: "(of_char c :: nat) < 256"
  using mod_less_divisor [of 256 "of_char c :: nat"] by simp

lemma hex_val_digit [simp]: "n < 16 \<Longrightarrow> hex_val (hex_digit n) = Some n"
  by (auto simp: hex_val_def hex_digit_def Let_def)

lemma hex_decode_encode: "hex_decode (hex_encode s) = Some s"
  by (induction s) (simp_all add: less_mult_imp_div_less)

lemma hex_encode_length [simp]: "length (hex_encode s) = 2 * length s"
  by (induction s) simp_all

lemma hex_decode_length: "hex_decode s = Some r \<Longrightarrow> length s = 2 * length r"
  by (induction s arbitrary: r rule: hex_decode.induct) (auto split: option.splits)

lemma hex_encode_append: "hex_encode (s @ t) = hex_encode s @ hex_encode t"
  by (induction s) simp_all

interpretation hex: codec hex_encode hex_decode "\<lambda>_. True"
  by unfold_locales (rule hex_decode_encode)

section \<open>Decimal numbers read back\<close>

lemma of_char_digit [simp]: "d < 10 \<Longrightarrow> (of_char (digit_char d) :: nat) = 48 + d"
  by (simp add: digit_char_def)

lemma is_digit_digit [simp]: "d < 10 \<Longrightarrow> is_digit (digit_char d)"
  by (simp add: is_digit_def)

lemma digit_val_digit [simp]: "d < 10 \<Longrightarrow> digit_val (digit_char d) = d"
  by (simp add: digit_val_def)

lemma digits_val_snoc [simp]: "digits_val (s @ [c]) = 10 * digits_val s + digit_val c"
  by (simp add: digits_val_def)

lemma itoa_nat_nonempty [simp]: "itoa_nat n \<noteq> []"
  by (subst itoa_nat.simps) simp

lemma itoa_nat_digits: "list_all is_digit (itoa_nat n)"
proof (induction n rule: itoa_nat.induct)
  case (1 n)
  then show ?case by (subst itoa_nat.simps) simp
qed

lemma itoa_nat_val [simp]: "digits_val (itoa_nat n) = n"
proof (induction n rule: itoa_nat.induct)
  case (1 n)
  show ?case
  proof (cases "n < 10")
    case True
    then show ?thesis by (subst itoa_nat.simps) (simp add: digits_val_def)
  next
    case False
    with 1 show ?thesis by (subst itoa_nat.simps) simp
  qed
qed

lemma is_digit_not_sign: "is_digit c \<Longrightarrow> c \<noteq> CHR ''-'' \<and> c \<noteq> CHR ''+''"
  by (auto simp: is_digit_def)

lemma itoa_nat_hd: "is_digit (hd (itoa_nat n))"
  using itoa_nat_digits [of n] itoa_nat_nonempty [of n] by (cases "itoa_nat n") auto

lemma parse_uint_itoa: "n < 2 ^ 64 \<Longrightarrow> parse_uint (itoa_nat n) = Some n"
  by (simp add: parse_uint_def itoa_nat_digits)

lemma parse_int_digits:
  "s \<noteq> [] \<Longrightarrow> list_all is_digit s \<Longrightarrow> digits_val s < 2 ^ 63 \<Longrightarrow> parse_int s = Some (int (digits_val s))"
  using is_digit_not_sign by (cases s) (auto simp: parse_int_def Let_def)

lemma parse_int_itoa: "int64 i \<Longrightarrow> parse_int (itoa i) = Some i"
proof (cases "i < 0")
  case True
  assume "int64 i"
  then have "nat (- i) \<le> 2 ^ 63" by (auto simp: int64_def)
  with True show ?thesis by (simp add: itoa_def parse_int_def itoa_nat_digits)
next
  case False
  assume "int64 i"
  then have "nat i < 2 ^ 63" by (auto simp: int64_def)
  with False show ?thesis
    by (simp add: itoa_def parse_int_digits itoa_nat_digits)
qed

lemma parse_int_range: "parse_int s = Some i \<Longrightarrow> int64 i"
  by (cases s) (auto simp: parse_int_def Let_def int64_def split: if_splits)

interpretation uint_text: codec itoa_nat parse_uint "\<lambda>n. n < 2 ^ 64"
  by unfold_locales (rule parse_uint_itoa)

interpretation int_text: codec itoa parse_int int64
  by unfold_locales (rule parse_int_itoa)

lemma itoa_eq_iff: "itoa i = itoa j \<longleftrightarrow> i = j"
proof
  assume eq: "itoa i = itoa j"
  have neg: "hd (itoa k) = CHR ''-'' \<longleftrightarrow> k < 0" for k
    using itoa_nat_hd [of "nat k"] is_digit_not_sign by (auto simp: itoa_def)
  have "digits_val (itoa k) = nat k" if "\<not> k < 0" for k
    using that by (simp add: itoa_def)
  moreover have "digits_val (tl (itoa k)) = nat (- k)" if "k < 0" for k
    using that by (simp add: itoa_def)
  moreover have "i < 0 \<longleftrightarrow> j < 0" using eq neg by metis
  ultimately show "i = j" using eq by (metis eq_nat_nat_iff linorder_not_less neg_0_le_iff_le neg_equal_iff_equal order_less_imp_le)
qed simp

lemma itoa_nat_len: "n < 10 ^ j \<Longrightarrow> 0 < j \<Longrightarrow> length (itoa_nat n) \<le> j"
proof (induction n arbitrary: j rule: itoa_nat.induct)
  case (1 n)
  show ?case
  proof (cases "n < 10")
    case True
    with 1 show ?thesis by (subst itoa_nat.simps) (simp add: Suc_le_eq)
  next
    case False
    then obtain i where i: "j = Suc i" using 1 by (cases j) auto
    have "0 < i" using 1(2) False i by (cases i) auto
    moreover have "n div 10 < 10 ^ i" using 1(2) i by (simp add: less_mult_imp_div_less)
    ultimately show ?thesis using 1(1) [OF False] i False by (subst itoa_nat.simps) simp
  qed
qed

lemma digits_val_zero_prefix: "digits_val (replicate n CHR ''0'' @ s) = digits_val s"
  by (induction n) (simp_all add: digits_val_def digit_val_def)

lemma digits_val_app: "digits_val (a @ b) = digits_val a * 10 ^ length b + digits_val b"
proof (induction b rule: rev_induct)
  case (snoc c b)
  have "digits_val (a @ b @ [c]) = 10 * digits_val (a @ b) + digit_val c"
    using digits_val_snoc [of "a @ b" c] by simp
  with snoc show ?case by simp
qed (simp add: digits_val_def)

section \<open>Base64\<close>

lemma b64_val_digit [simp]: "n < 64 \<Longrightarrow> b64_val (b64_digit n) = Some n"
  by (auto simp: b64_val_def b64_digit_def Let_def)

lemma b64_digit_code: "n < 64 \<Longrightarrow> (of_char (b64_digit n) :: nat) \<in> {43, 47} \<union> {48..57} \<union> {65..90} \<union> {97..122}"
  by (auto simp: b64_digit_def)

lemma b64_digit_plain:
  assumes "n < 64"
  shows "b64_digit n \<noteq> CHR ''=''" and "b64_digit n \<noteq> char_of (10 :: nat)"
    and "b64_digit n \<noteq> char_of (13 :: nat)"
  using b64_digit_code [OF assms] by auto

lemma b64_quad_bounds [simp]:
  fixes a b :: nat
  shows "a < 256 \<Longrightarrow> a div 4 < 64" and "a mod 4 * 16 < 64" and "a mod 16 * 4 < 64"
    and "a mod 64 < 64" and "b < 256 \<Longrightarrow> a mod 4 * 16 + b div 16 < 64"
    and "b < 256 \<Longrightarrow> a mod 16 * 4 + b div 64 < 64"
  by (auto simp: algebra_simps)

lemma b64_byte1: "(b :: nat) < 256 \<Longrightarrow> 4 * (a div 4) + (a mod 4 * 16 + b div 16) div 16 = a"
  for a :: nat by (simp add: div_add1_eq)

lemma b64_byte2:
  fixes a b c :: nat
  assumes "b < 256" and "c < 256"
  shows "16 * ((a mod 4 * 16 + b div 16) mod 16) + (b mod 16 * 4 + c div 64) div 4 = b"
  using assms by (simp add: mod_add_eq [symmetric] div_add1_eq)

lemma b64_byte3:
  fixes b c :: nat
  assumes "c < 256"
  shows "64 * ((b mod 16 * 4 + c div 64) mod 4) + c mod 64 = c"
  using assms by (simp add: mod_add_eq [symmetric])

lemma b64_groups_encode: "b64_groups (b64_encode s) = Some s"
proof (induction s rule: b64_encode.induct)
  case 1
  show ?case by simp
next
  case (2 a)
  have "4 * (of_char a div 4) + (of_char a mod 4 * 16) div 16 = (of_char a :: nat)" by simp
  then show ?case by (simp add: Let_def)
next
  case (3 a b)
  let ?m = "of_char a :: nat" and ?n = "of_char b :: nat"
  have "16 * ((?m mod 4 * 16 + ?n div 16) mod 16) + (?n mod 16 * 4) div 4 = ?n"
    using b64_byte2 [of ?n 0 ?m] by simp
  then show ?case by (simp add: Let_def b64_byte1 b64_digit_plain)
next
  case (4 a b c s)
  have "(of_char x :: nat) div 16 div 16 = 0" "(of_char x :: nat) div 64 div 4 = 0" for x
    by (simp_all add: div_mult2_eq [symmetric])
  moreover have "16 * (of_char b div 16 mod 16) + of_char b mod 16 = (of_char b :: nat)"
    "64 * (of_char c div 64 mod 4) + of_char c mod 64 = (of_char c :: nat)"
    using b64_byte2 [of "of_char b" 0 0] b64_byte3 [of "of_char c" 0] by simp_all
  ultimately show ?case using 4
    by (simp add: Let_def b64_byte1 b64_byte2 b64_byte3 b64_digit_plain)
qed

lemma eq_sign_plain [simp]: "CHR ''='' \<noteq> char_of (10 :: nat)" "CHR ''='' \<noteq> char_of (13 :: nat)"
  by (auto dest: arg_cong [where f = "of_char :: char \<Rightarrow> nat"])

lemma b64_encode_plain:
  "filter (\<lambda>c. c \<noteq> char_of (10 :: nat) \<and> c \<noteq> char_of (13 :: nat)) (b64_encode s) = b64_encode s"
  by (induction s rule: b64_encode.induct) (simp_all add: Let_def b64_digit_plain)

lemma b64_decode_encode: "b64_decode (b64_encode s) = Some s"
  by (simp add: b64_decode_def b64_encode_plain b64_groups_encode)

interpretation b64: codec b64_encode b64_decode "\<lambda>_. True"
  by unfold_locales (rule b64_decode_encode)

lemma b64_encode_no_newline: "char_of (10 :: nat) \<notin> set (b64_encode s)"
proof
  assume "char_of (10 :: nat) \<in> set (b64_encode s)"
  then have "char_of (10 :: nat) \<in> set (filter (\<lambda>c. c \<noteq> char_of (10 :: nat) \<and> c \<noteq> char_of (13 :: nat)) (b64_encode s))"
    by (simp add: b64_encode_plain)
  then show False by simp
qed

section \<open>Splitting\<close>

lemma has_prefix_append [simp]: "has_prefix p (p @ s)"
  by (simp add: has_prefix_def)

lemma has_prefix_iff: "has_prefix p s \<longleftrightarrow> (\<exists>t. s = p @ t)"
  by (metis append_take_drop_id has_prefix_append has_prefix_def)

lemma has_prefix_Nil [simp]: "has_prefix [] s"
  by (simp add: has_prefix_def)

lemma has_prefix_Cons [simp]: "has_prefix (p # ps) (c # s) \<longleftrightarrow> p = c \<and> has_prefix ps s"
  by (auto simp: has_prefix_def)

lemma has_prefix_Cons_Nil [simp]: "\<not> has_prefix (p # ps) []"
  by (simp add: has_prefix_def)

lemma split_char_nonempty [simp]: "split_char c s \<noteq> []"
  by (induction s) (auto split: list.splits)

lemma split_char_none: "c \<notin> set s \<Longrightarrow> split_char c s = [s]"
  by (induction s) auto

lemma split_char_append:
  "c \<notin> set s \<Longrightarrow> split_char c (s @ c # t) = s # split_char c t"
  by (induction s) auto

lemma split_char_pieces: "p \<in> set (split_char c s) \<Longrightarrow> c \<notin> set p"
proof (induction s arbitrary: p)
  case Nil
  then show ?case by simp
next
  case (Cons x s)
  then show ?case by (cases "split_char c s") (auto split: if_splits)
qed

lemma cut_Some: "cut sep s = Some (a, b) \<Longrightarrow> s = a @ sep @ b"
proof (induction s arbitrary: a b)
  case Nil
  then show ?case by (auto split: if_splits)
next
  case (Cons c s)
  show ?case
  proof (cases "has_prefix sep (c # s)")
    case True
    with Cons.prems show ?thesis by (auto simp: has_prefix_iff)
  next
    case False
    with Cons.prems Cons.IH show ?thesis by (auto split: option.splits)
  qed
qed

end
