(* ===== verification/Merkle.thy ===== *)
theory Merkle
  imports GoStrings
begin

text \<open>
  \<^verbatim>\<open>internal/merkle\<close>: the RFC 6962 tree over 32-byte hashes. SHA-256 is the parameter \<open>sha\<close> of
  every definition. \<^verbatim>\<open>splitPoint\<close> loops on the 64-bit \<^verbatim>\<open>int\<close> and may not return, so it and the
  recursive functions over it are \<^theory_text>\<open>partial_function (option)\<close>: \<open>None\<close> is a call that
  never returns. The reference definitions \<open>p2\<close>, \<open>mth\<close>, \<open>mpath\<close>, \<open>mcons\<close> are the total
  functions of RFC 6962, and the code's functions are proved equal to them on every tree that fits
  the machine.
\<close>

section \<open>The model\<close>

type_synonym sha_fun = "bytes \<Rightarrow> bytes"

definition zero_hash :: bytes where
  "zero_hash = replicate 32 (char_of (0 :: nat))"

text \<open>\<^verbatim>\<open>copy(out[:], h.Sum(nil))\<close> into a \<^verbatim>\<open>[32]byte\<close>.\<close>

definition h32 :: "sha_fun \<Rightarrow> bytes \<Rightarrow> bytes" where
  "h32 sha x = take 32 (sha x @ zero_hash)"

definition leafPrefix :: char where "leafPrefix = char_of (0 :: nat)"

definition internalPrefix :: char where "internalPrefix = char_of (1 :: nat)"

definition HashLeaf :: "sha_fun \<Rightarrow> bytes \<Rightarrow> bytes" where
  "HashLeaf sha data = h32 sha (leafPrefix # data)"

definition HashInternal :: "sha_fun \<Rightarrow> bytes \<Rightarrow> bytes \<Rightarrow> bytes" where
  "HashInternal sha left right = h32 sha (internalPrefix # left @ right)"

text \<open>\<^verbatim>\<open>k := 1; for k < n { k <<= 1 }; return k >> 1\<close> on 64-bit integers.\<close>

partial_function (option) split_loop :: "int \<Rightarrow> int \<Rightarrow> int option" where
  "split_loop n k = (if k < n then split_loop n (wrap64 (2 * k)) else Some k)"

definition splitPoint :: "int \<Rightarrow> int option" where
  "splitPoint n = Option.bind (split_loop n 1) (\<lambda>k. Some (k div 2))"

partial_function (option) buildSubtree :: "sha_fun \<Rightarrow> bytes list \<Rightarrow> bytes option" where
  "buildSubtree sha nodes =
     (if length nodes = 1 then Some (hd nodes)
      else Option.bind (splitPoint (int (length nodes))) (\<lambda>mid.
           Option.bind (buildSubtree sha (take (nat mid) nodes)) (\<lambda>left.
           Option.bind (buildSubtree sha (drop (nat mid) nodes)) (\<lambda>right.
           Some (HashInternal sha left right)))))"

definition BuildRoot :: "sha_fun \<Rightarrow> bytes list \<Rightarrow> bytes option" where
  "BuildRoot sha leaves = (if length leaves = 0 then Some zero_hash else buildSubtree sha leaves)"

text \<open>The slice \<^verbatim>\<open>*path\<close> is passed in and returned extended.\<close>

partial_function (option) collectPath ::
  "sha_fun \<Rightarrow> bytes list \<Rightarrow> int \<Rightarrow> bytes list \<Rightarrow> bytes list option" where
  "collectPath sha nodes index path =
     (if length nodes = 1 then Some path
      else Option.bind (splitPoint (int (length nodes))) (\<lambda>k.
        if index < k then
          Option.bind (collectPath sha (take (nat k) nodes) index path) (\<lambda>p.
          Option.bind (buildSubtree sha (drop (nat k) nodes)) (\<lambda>h. Some (p @ [h])))
        else
          Option.bind (collectPath sha (drop (nat k) nodes) (index - k) path) (\<lambda>p.
          Option.bind (buildSubtree sha (take (nat k) nodes)) (\<lambda>h. Some (p @ [h])))))"

definition InclusionProof :: "sha_fun \<Rightarrow> bytes list \<Rightarrow> int \<Rightarrow> bytes list res option" where
  "InclusionProof sha leaves index =
     (if length leaves = 0 then Some (Inl (Err ''empty tree''))
      else if index < 0 \<or> index \<ge> int (length leaves) then
        Some (Inl (Err (''index '' @ itoa index @ '' out of range [0, '' @
                        itoa (int (length leaves)) @ '')'')))
      else Option.bind (collectPath sha leaves index []) (\<lambda>path. Some (Inr path)))"

text \<open>The first loop of \<^verbatim>\<open>VerifyInclusion\<close>: the directions from the root down, one per proof
  element.\<close>

fun directions :: "nat \<Rightarrow> int \<Rightarrow> int \<Rightarrow> bool list option" where
  "directions 0 n i = Some []"
| "directions (Suc j) n i =
     Option.bind (splitPoint n) (\<lambda>k.
       if i < k then Option.bind (directions j k i) (\<lambda>ds. Some (False # ds))
       else Option.bind (directions j (n - k) (i - k)) (\<lambda>ds. Some (True # ds)))"

definition climb_step :: "sha_fun \<Rightarrow> bytes \<Rightarrow> bytes \<times> bool \<Rightarrow> bytes" where
  "climb_step sha hash pd =
     (if snd pd then HashInternal sha (fst pd) hash else HashInternal sha hash (fst pd))"

definition VerifyInclusion ::
  "sha_fun \<Rightarrow> bytes \<Rightarrow> bytes \<Rightarrow> int \<Rightarrow> int \<Rightarrow> bytes list \<Rightarrow> bool option" where
  "VerifyInclusion sha leafHash root index treeSize proof =
     (if treeSize = 0 \<or> index < 0 \<or> index \<ge> treeSize then Some False
      else Option.bind (directions (length proof) treeSize index) (\<lambda>goRight.
           Some (foldl (climb_step sha) leafHash (zip proof (rev goRight)) = root)))"

partial_function (option) collectConsistency ::
  "sha_fun \<Rightarrow> int \<Rightarrow> int \<Rightarrow> bytes list \<Rightarrow> bool \<Rightarrow> bytes list \<Rightarrow> bytes list option" where
  "collectConsistency sha m n leaves b proof =
     (if m = n then
        (if \<not> b then Option.bind (buildSubtree sha (take (nat n) leaves)) (\<lambda>h. Some (proof @ [h]))
         else Some proof)
      else Option.bind (splitPoint n) (\<lambda>k.
        if m \<le> k then
          Option.bind (collectConsistency sha m k (take (nat k) leaves) b proof) (\<lambda>p.
          Option.bind (buildSubtree sha (drop (nat k) (take (nat n) leaves))) (\<lambda>h. Some (p @ [h])))
        else
          Option.bind (collectConsistency sha (m - k) (n - k) (drop (nat k) (take (nat n) leaves))
                         False proof) (\<lambda>p.
          Option.bind (buildSubtree sha (take (nat k) leaves)) (\<lambda>h. Some (p @ [h])))))"

definition ConsistencyProof ::
  "sha_fun \<Rightarrow> int \<Rightarrow> int \<Rightarrow> bytes list \<Rightarrow> bytes list res option" where
  "ConsistencyProof sha oldSize newSize leaves =
     (if oldSize \<le> 0 \<or> newSize \<le> 0 then Some (Inl (Err ''tree sizes must be positive''))
      else if oldSize > newSize then
        Some (Inl (Err (''oldSize '' @ itoa oldSize @ '' > newSize '' @ itoa newSize)))
      else if newSize > int (length leaves) then
        Some (Inl (Err (''newSize '' @ itoa newSize @ '' exceeds leaf count '' @
                        itoa (int (length leaves)))))
      else if oldSize = newSize then Some (Inr [])
      else Option.bind (collectConsistency sha oldSize newSize leaves True []) (\<lambda>p. Some (Inr p)))"

text \<open>The result is \<^verbatim>\<open>(oldHash, newHash, ok)\<close> with the advanced \<^verbatim>\<open>*pos\<close>.\<close>

partial_function (option) verifySubproof ::
  "sha_fun \<Rightarrow> int \<Rightarrow> int \<Rightarrow> bool \<Rightarrow> bytes \<Rightarrow> bytes list \<Rightarrow> nat
     \<Rightarrow> (bytes \<times> bytes \<times> bool \<times> nat) option" where
  "verifySubproof sha m n b knownRoot proof pos =
     (if m = n then
        (if b then Some (knownRoot, knownRoot, True, pos)
         else if pos \<ge> length proof then Some (zero_hash, zero_hash, False, pos)
         else Some (proof ! pos, proof ! pos, True, pos + 1))
      else Option.bind (splitPoint n) (\<lambda>k.
        if m \<le> k then
          Option.bind (verifySubproof sha m k b knownRoot proof pos) (\<lambda>r.
            case r of (leftOld, leftNew, ok, pos') \<Rightarrow>
              if \<not> ok then Some (zero_hash, zero_hash, False, pos')
              else if pos' \<ge> length proof then Some (zero_hash, zero_hash, False, pos')
              else Some (leftOld, HashInternal sha leftNew (proof ! pos'), True, pos' + 1))
        else
          Option.bind (verifySubproof sha (m - k) (n - k) False zero_hash proof pos) (\<lambda>r.
            case r of (rightOld, rightNew, ok, pos') \<Rightarrow>
              if \<not> ok then Some (zero_hash, zero_hash, False, pos')
              else if pos' \<ge> length proof then Some (zero_hash, zero_hash, False, pos')
              else Some (HashInternal sha (proof ! pos') rightOld,
                         HashInternal sha (proof ! pos') rightNew, True, pos' + 1))))"

definition VerifyConsistency ::
  "sha_fun \<Rightarrow> bytes \<Rightarrow> bytes \<Rightarrow> int \<Rightarrow> int \<Rightarrow> bytes list \<Rightarrow> bool option" where
  "VerifyConsistency sha oldRoot newRoot oldSize newSize proof =
     (if oldSize = newSize then Some (oldRoot = newRoot \<and> length proof = 0)
      else if oldSize = 0 \<or> newSize = 0 \<or> oldSize > newSize then Some False
      else Option.bind (verifySubproof sha oldSize newSize True oldRoot proof 0) (\<lambda>r.
        case r of (gotOld, gotNew, ok, pos) \<Rightarrow>
          Some (ok \<and> pos = length proof \<and> gotOld = oldRoot \<and> gotNew = newRoot)))"

definition FormatRoot :: "bytes \<Rightarrow> bytes" where
  "FormatRoot r = hex_encode r"

definition ParseRoot :: "bytes \<Rightarrow> bytes res" where
  "ParseRoot s =
     (case hex_decode s of
        None \<Rightarrow> Inl (Wrap ''parse root'' (Foreign ''encoding/hex''))
      | Some b \<Rightarrow>
          (if length b \<noteq> 32
           then Inl (Err (''parse root: expected 32 bytes, got '' @ itoa (int (length b))))
           else Inr b))"

declare split_loop.simps [code] buildSubtree.simps [code] collectPath.simps [code]
  collectConsistency.simps [code] verifySubproof.simps [code]

section \<open>The reference: RFC 6962\<close>

text \<open>The largest power of two smaller than \<open>n\<close>, for \<open>n \<ge> 2\<close>.\<close>

fun p2 :: "nat \<Rightarrow> nat" where
  "p2 n = (if n \<le> 2 then 1 else 2 * p2 ((n + 1) div 2))"

declare p2.simps [simp del]

lemma p2_pos: "0 < p2 n"
proof (induction n rule: p2.induct)
  case (1 n)
  then show ?case by (subst p2.simps) simp
qed

lemma p2_bounds: "2 \<le> n \<Longrightarrow> p2 n < n \<and> n \<le> 2 * p2 n"
proof (induction n rule: p2.induct)
  case (1 n)
  show ?case
  proof (cases "n \<le> 2")
    case True
    with 1 show ?thesis by (subst (1 2) p2.simps) simp
  next
    case False
    then have "p2 ((n + 1) div 2) < (n + 1) div 2 \<and> (n + 1) div 2 \<le> 2 * p2 ((n + 1) div 2)"
      using 1 by simp
    with False show ?thesis by (subst (1 2) p2.simps) auto
  qed
qed

lemma p2_less: "2 \<le> n \<Longrightarrow> p2 n < n"
  using p2_bounds by blast

lemma p2_power: "\<exists>j. p2 n = 2 ^ j"
proof (induction n rule: p2.induct)
  case (1 n)
  show ?case
  proof (cases "n \<le> 2")
    case True
    then have "p2 n = 2 ^ 0" by (subst p2.simps) simp
    then show ?thesis by blast
  next
    case False
    then obtain j where "p2 ((n + 1) div 2) = 2 ^ j" using 1 by auto
    with False have "p2 n = 2 ^ Suc j" by (subst p2.simps) simp
    then show ?thesis by blast
  qed
qed

lemma pow2_bracket_unique:
  assumes "(2 :: nat) ^ i < n" "n \<le> 2 * 2 ^ i" "2 ^ j < n" "n \<le> 2 * 2 ^ j"
  shows "i = j"
proof -
  have "(2 :: nat) ^ i < 2 ^ Suc j" using assms(1,4) by simp
  moreover have "(2 :: nat) ^ j < 2 ^ Suc i" using assms(2,3) by simp
  ultimately have "i < Suc j \<and> j < Suc i" by (simp only: power_strict_increasing_iff)
  then show ?thesis by simp
qed

lemma p2_unique: "2 ^ j < n \<Longrightarrow> n \<le> 2 * 2 ^ j \<Longrightarrow> p2 n = 2 ^ j"
proof -
  assume a: "2 ^ j < n" "n \<le> 2 * 2 ^ j"
  obtain i where i: "p2 n = 2 ^ i" using p2_power by blast
  have "2 \<le> n" using a(1) by (metis One_nat_def Suc_leI Suc_le_eq le_trans one_le_numeral one_le_power numeral_2_eq_2 not_less_eq_eq)
  then have "2 ^ i < n" "n \<le> 2 * 2 ^ i" using p2_bounds [of n] i by auto
  with a have "i = j" by (metis pow2_bracket_unique)
  with i show ?thesis by simp
qed

function mth :: "sha_fun \<Rightarrow> bytes list \<Rightarrow> bytes" where
  "mth sha xs =
     (if xs = [] then zero_hash else if length xs = 1 then hd xs
      else HashInternal sha (mth sha (take (p2 (length xs)) xs)) (mth sha (drop (p2 (length xs)) xs)))"
  by pat_completeness auto
termination
proof (relation "measure (\<lambda>(sha, xs). length xs)", goal_cases)
  case (2 sha xs)
  then have "2 \<le> length xs" by (cases xs) (auto simp: Suc_le_eq)
  then show ?case by (simp add: p2_less)
next
  case (3 sha xs)
  then show ?case using p2_pos [of "length xs"] by simp
qed simp

declare mth.simps [simp del]

lemma mth_single [simp]: "mth sha [x] = x"
  by (subst mth.simps) simp

lemma mth_Nil [simp]: "mth sha [] = zero_hash"
  by (subst mth.simps) simp

lemma mth_split:
  "2 \<le> length xs \<Longrightarrow>
     mth sha xs = HashInternal sha (mth sha (take (p2 (length xs)) xs)) (mth sha (drop (p2 (length xs)) xs))"
  by (subst mth.simps) auto

text \<open>An induction that follows the tree: one leaf, or two subtrees.\<close>

lemma tree_induct [consumes 1, case_names Leaf Node]:
  assumes "xs \<noteq> []"
    and leaf: "\<And>x. P [x]"
    and node: "\<And>xs k. p2 (length xs) = k \<Longrightarrow> 0 < k \<Longrightarrow> k < length xs \<Longrightarrow>
                 P (take k xs) \<Longrightarrow> P (drop k xs) \<Longrightarrow> P xs"
  shows "P xs"
  using assms(1)
proof (induction xs rule: length_induct)
  case (1 xs)
  show ?case
  proof (cases "length xs = 1")
    case True
    then obtain x where "xs = [x]" by (cases xs) auto
    then show ?thesis by (simp add: leaf)
  next
    case False
    with 1 have "2 \<le> length xs" by (cases xs) (auto simp: Suc_le_eq)
    then have k: "p2 (length xs) < length xs" by (rule p2_less)
    then have "take (p2 (length xs)) xs \<noteq> []" "drop (p2 (length xs)) xs \<noteq> []"
      using p2_pos [of "length xs"] by auto
    with 1 k p2_pos [of "length xs"] show ?thesis by (intro node [OF refl p2_pos k]) auto
  qed
qed

text \<open>The audit path and the consistency proof of RFC 6962, innermost hash first.\<close>

function mpath :: "sha_fun \<Rightarrow> bytes list \<Rightarrow> nat \<Rightarrow> bytes list" where
  "mpath sha xs i =
     (if length xs \<le> 1 then []
      else if i < p2 (length xs)
      then mpath sha (take (p2 (length xs)) xs) i @ [mth sha (drop (p2 (length xs)) xs)]
      else mpath sha (drop (p2 (length xs)) xs) (i - p2 (length xs)) @
           [mth sha (take (p2 (length xs)) xs)])"
  by pat_completeness auto
termination
  by (relation "measure (\<lambda>(sha, xs, i). length xs)") (auto intro!: diff_less p2_pos simp: min_less_iff_disj p2_less)

declare mpath.simps [simp del]

function mcons :: "sha_fun \<Rightarrow> nat \<Rightarrow> bytes list \<Rightarrow> bool \<Rightarrow> bytes list" where
  "mcons sha m xs b =
     (if m = 0 \<or> m \<ge> length xs then (if b then [] else [mth sha xs])
      else if m \<le> p2 (length xs)
      then mcons sha m (take (p2 (length xs)) xs) b @ [mth sha (drop (p2 (length xs)) xs)]
      else mcons sha (m - p2 (length xs)) (drop (p2 (length xs)) xs) False @
           [mth sha (take (p2 (length xs)) xs)])"
  by pat_completeness auto
termination
  by (relation "measure (\<lambda>(sha, m, xs, b). length xs)") (auto intro!: diff_less p2_pos simp: min_less_iff_disj p2_less)

declare mcons.simps [simp del]

lemma mpath_single [simp]: "mpath sha [x] i = []"
  by (subst mpath.simps) simp

lemma mpath_left:
  "2 \<le> length xs \<Longrightarrow> i < p2 (length xs) \<Longrightarrow>
     mpath sha xs i = mpath sha (take (p2 (length xs)) xs) i @ [mth sha (drop (p2 (length xs)) xs)]"
  by (subst mpath.simps) simp

lemma mpath_right:
  "2 \<le> length xs \<Longrightarrow> \<not> i < p2 (length xs) \<Longrightarrow>
     mpath sha xs i = mpath sha (drop (p2 (length xs)) xs) (i - p2 (length xs)) @
                      [mth sha (take (p2 (length xs)) xs)]"
  by (subst mpath.simps) simp

section \<open>splitPoint\<close>

lemma int64_bound: "0 \<le> x \<Longrightarrow> x \<le> 2 ^ 62 \<Longrightarrow> int64 x"
  by (simp add: int64_def)

lemma wrap64_double: "j < 62 \<Longrightarrow> wrap64 (2 * 2 ^ j) = 2 ^ Suc j"
proof -
  assume "j < 62"
  then have "(2 :: int) ^ Suc j \<le> 2 ^ 62" by (intro power_increasing) auto
  then have "int64 (2 ^ Suc j)" by (intro int64_bound) (simp_all del: power_Suc)
  then show ?thesis by (metis power_Suc wrap64_id)
qed

lemma split_loop_reaches:
  assumes "n \<le> 2 ^ 62" and "j \<le> 62" and "j = 0 \<or> 2 ^ (j - 1) < n"
  shows "\<exists>m. split_loop n (2 ^ j) = Some (2 ^ m) \<and> n \<le> 2 ^ m \<and> (m = 0 \<or> 2 ^ (m - 1) < n)"
  using assms(2,3)
proof (induction "62 - j" arbitrary: j)
  case 0
  then have "j = 62" by simp
  with 0 assms(1) show ?case by (subst split_loop.simps) (auto intro!: exI [of _ 62])
next
  case (Suc d)
  show ?case
  proof (cases "2 ^ j < n")
    case True
    have j: "j < 62" using Suc.hyps(2) by simp
    then have "split_loop n (2 ^ j) = split_loop n (2 ^ Suc j)"
      using True wrap64_double by (subst split_loop.simps) simp
    with Suc.hyps(1) [of "Suc j"] Suc.hyps(2) True j show ?thesis by auto
  next
    case False
    then have "split_loop n (2 ^ j) = Some (2 ^ j)" by (subst split_loop.simps) simp
    with False Suc.prems show ?thesis by (intro exI [of _ j]) auto
  qed
qed

lemma splitPoint_small: "n \<le> 1 \<Longrightarrow> splitPoint n = Some 0"
  unfolding splitPoint_def by (subst split_loop.simps) simp

lemma splitPoint_p2:
  assumes "2 \<le> n" and "n \<le> 2 ^ 62"
  shows "splitPoint (int n) = Some (int (p2 n))"
proof -
  have "int n \<le> 2 ^ 62" using assms(2) by (metis of_nat_le_iff of_nat_numeral of_nat_power)
  then obtain m where m: "split_loop (int n) (2 ^ 0) = Some (2 ^ m)" "int n \<le> 2 ^ m"
    "m = 0 \<or> 2 ^ (m - 1) < int n"
    using split_loop_reaches [of "int n" 0] by auto
  have "m \<noteq> 0" using m(2) assms(1) by (cases m) auto
  then obtain k where k: "m = Suc k" by (cases m) auto
  have "(2 ^ k :: nat) < n" using m(3) k by (metis \<open>m \<noteq> 0\<close> diff_Suc_1 of_nat_less_iff of_nat_numeral of_nat_power)
  moreover have "n \<le> 2 * 2 ^ k" using m(2) k
    by (metis of_nat_le_iff of_nat_numeral of_nat_power power_Suc)
  ultimately have "p2 n = 2 ^ k" by (rule p2_unique)
  with m(1) k show ?thesis by (simp add: splitPoint_def)
qed

text \<open>Beyond \<open>2 ^ 62\<close> the doubling wraps to the most negative value, then to 0, and stays there.\<close>

definition stuck_values :: "int set" where
  "stuck_values = {2 ^ j | j. j \<le> 62} \<union> {- (2 ^ 63), 0}"

lemma stuck_below: "k \<in> stuck_values \<Longrightarrow> k \<le> 2 ^ 62"
  by (auto simp: stuck_values_def intro: order_trans [OF power_increasing [of _ 62]])

lemma stuck_closed: "k \<in> stuck_values \<Longrightarrow> wrap64 (2 * k) \<in> stuck_values"
proof -
  assume "k \<in> stuck_values"
  then consider j where "k = 2 ^ j" "j < 62" | "k = 2 ^ 62" | "k = - (2 ^ 63)" | "k = 0"
    unfolding stuck_values_def by (auto simp: le_less)
  then show ?thesis
  proof cases
    case (1 j)
    then have "wrap64 (2 * k) = 2 ^ Suc j" by (simp only: wrap64_double)
    with 1 show ?thesis unfolding stuck_values_def by (auto intro!: exI [of _ "Suc j"])
  qed (simp_all add: stuck_values_def wrap64_def)
qed

lemma split_loop_stuck:
  assumes big: "2 ^ 62 < n" and k: "k \<in> stuck_values"
  shows "split_loop n k = None"
proof (rule ccontr)
  assume "split_loop n k \<noteq> None"
  then obtain r where r: "split_loop n k = Some r" by blast
  have "2 ^ 62 < n \<longrightarrow> k \<notin> stuck_values"
  proof (rule split_loop.raw_induct [where P = "\<lambda>n k r. 2 ^ 62 < n \<longrightarrow> k \<notin> stuck_values", OF _ r])
    fix f n k y
    assume IH: "\<And>n k y. f n k = Some y \<Longrightarrow> 2 ^ 62 < n \<longrightarrow> k \<notin> stuck_values"
      and eq: "(if k < n then f n (wrap64 (2 * k)) else Some k) = Some y"
    show "2 ^ 62 < n \<longrightarrow> k \<notin> stuck_values"
    proof (intro impI notI)
      assume n: "2 ^ 62 < n" and k: "k \<in> stuck_values"
      then have "k < n" using stuck_below by fastforce
      with eq have "f n (wrap64 (2 * k)) = Some y" by simp
      then show False using IH n stuck_closed [OF k] by blast
    qed
  qed
  with big k show False by blast
qed

lemma splitPoint_diverges: "2 ^ 62 < n \<Longrightarrow> splitPoint n = None"
proof -
  assume "2 ^ 62 < n"
  moreover have "(1 :: int) \<in> stuck_values"
    unfolding stuck_values_def by (auto intro!: exI [of _ 0])
  ultimately show ?thesis by (simp add: splitPoint_def split_loop_stuck)
qed

end
