(* ===== verification/MerkleProofs.thy ===== *)
theory MerkleProofs
  imports Merkle
begin

text \<open>
  What \<^verbatim>\<open>internal/merkle\<close> promises: on every list of hashes that fits the machine the recursive
  functions return and agree with RFC 6962 (\<open>mth\<close>, \<open>mpath\<close>, \<open>mcons\<close>), generated proofs verify,
  and verified proofs are sound as long as the hash does not collide on the inputs hashed.
\<close>

section \<open>The code computes the reference\<close>

definition fits :: "'a list \<Rightarrow> bool" where
  "fits xs = (length xs \<le> 2 ^ 62)"

lemma fits_take [intro]: "fits xs \<Longrightarrow> fits (take k xs)"
  by (auto simp: fits_def)

lemma fits_drop [intro]: "fits xs \<Longrightarrow> fits (drop k xs)"
  by (auto simp: fits_def)

lemma fits_single [simp]: "fits [x]"
  by (simp add: fits_def)

lemma splitPoint_fits:
  "2 \<le> length xs \<Longrightarrow> fits xs \<Longrightarrow> splitPoint (int (length xs)) = Some (int (p2 (length xs)))"
  unfolding fits_def by (rule splitPoint_p2)

lemma buildSubtree_mth:
  assumes "xs \<noteq> []" and "fits xs"
  shows "buildSubtree sha xs = Some (mth sha xs)"
  using assms
proof (induction xs rule: tree_induct)
  case (Leaf x)
  show ?case by (subst buildSubtree.simps) simp
next
  case (Node xs k)
  then show ?case
    by (subst buildSubtree.simps) (auto simp: splitPoint_fits fits_take fits_drop mth_split)
qed

lemma BuildRoot_mth: "fits xs \<Longrightarrow> BuildRoot sha xs = Some (mth sha xs)"
  by (cases "xs = []") (simp_all add: BuildRoot_def buildSubtree_mth)

lemma nth_take_drop_split:
  "k < length xs \<Longrightarrow> i < length xs \<Longrightarrow>
     xs ! i = (if i < k then take k xs ! i else drop k xs ! (i - k))"
  by simp

lemma collectPath_mpath:
  assumes "xs \<noteq> []" and "fits xs" and "i < length xs"
  shows "collectPath sha xs (int i) acc = Some (acc @ mpath sha xs i)"
  using assms
proof (induction xs arbitrary: i acc rule: tree_induct)
  case (Leaf x)
  show ?case by (subst collectPath.simps) simp
next
  case (Node xs k)
  have sp: "splitPoint (int (length xs)) = Some (int k)"
    using splitPoint_fits [of xs] Node.hyps Node.prems by simp
  have sub: "buildSubtree sha (take k xs) = Some (mth sha (take k xs))"
    "buildSubtree sha (drop k xs) = Some (mth sha (drop k xs))"
    using Node by (auto intro!: buildSubtree_mth)
  show ?case
  proof (cases "i < k")
    case True
    then have "collectPath sha (take k xs) (int i) acc = Some (acc @ mpath sha (take k xs) i)"
      using Node by (intro Node.IH(1)) auto
    with True sp sub Node show ?thesis
      by (subst collectPath.simps) (simp add: mpath_left)
  next
    case False
    then have "i - k < length (drop k xs)" using Node by simp
    from Node.IH(2) [OF fits_drop [OF Node.prems(1)] this, of acc] False
    have "collectPath sha (drop k xs) (int i - int k) acc = Some (acc @ mpath sha (drop k xs) (i - k))"
      by simp
    with False sp sub Node.hyps show ?thesis
      by (subst collectPath.simps) (simp add: mpath_right)
  qed
qed

lemma InclusionProof_mpath:
  "fits xs \<Longrightarrow> i < length xs \<Longrightarrow> InclusionProof sha xs (int i) = Some (Inr (mpath sha xs i))"
  by (cases "xs = []") (simp_all add: InclusionProof_def collectPath_mpath)

lemma InclusionProof_error:
  "xs = [] \<or> i < 0 \<or> int (length xs) \<le> i \<Longrightarrow> \<exists>e. InclusionProof sha xs i = Some (Inl e)"
  by (auto simp: InclusionProof_def)

text \<open>The consistency proof.\<close>

lemma mcons_whole: "m = length xs \<Longrightarrow> mcons sha m xs b = (if b then [] else [mth sha xs])"
  by (subst mcons.simps) simp

lemma mcons_left:
  "0 < m \<Longrightarrow> m < length xs \<Longrightarrow> m \<le> p2 (length xs) \<Longrightarrow>
     mcons sha m xs b = mcons sha m (take (p2 (length xs)) xs) b @ [mth sha (drop (p2 (length xs)) xs)]"
  by (subst mcons.simps) simp

lemma mcons_right:
  "0 < m \<Longrightarrow> m < length xs \<Longrightarrow> \<not> m \<le> p2 (length xs) \<Longrightarrow>
     mcons sha m xs b = mcons sha (m - p2 (length xs)) (drop (p2 (length xs)) xs) False @
                        [mth sha (take (p2 (length xs)) xs)]"
  by (subst mcons.simps) simp

lemma collectConsistency_mcons:
  assumes "xs \<noteq> []" and "fits xs" and "0 < m" and "m \<le> length xs"
  shows "collectConsistency sha (int m) (int (length xs)) (xs @ ys) b acc = Some (acc @ mcons sha m xs b)"
  using assms
proof (induction xs arbitrary: m b acc ys rule: tree_induct)
  case (Leaf x)
  then have "m = 1" by simp
  then show ?case
    using buildSubtree_mth [of "[x]" sha]
    by (subst collectConsistency.simps) (simp add: mcons_whole)
next
  case (Node xs k)
  have sp: "splitPoint (int (length xs)) = Some (int k)"
    using splitPoint_fits [of xs] Node.hyps Node.prems by simp
  have sub: "buildSubtree sha (take k xs) = Some (mth sha (take k xs))"
    "buildSubtree sha (drop k xs) = Some (mth sha (drop k xs))"
    "buildSubtree sha xs = Some (mth sha xs)"
    using Node by (auto intro!: buildSubtree_mth)
  consider "m = length xs" | "m < length xs" "m \<le> k" | "m < length xs" "\<not> m \<le> k"
    using Node by linarith
  then show ?case
  proof cases
    case 1
    with sub Node show ?thesis
      by (subst collectConsistency.simps) (simp add: mcons_whole)
  next
    case 2
    then have "collectConsistency sha (int m) (int (length (take k xs))) (take k xs @ []) b acc =
                 Some (acc @ mcons sha m (take k xs) b)"
      using Node by (intro Node.IH(1)) auto
    with 2 sp sub Node show ?thesis
      by (subst collectConsistency.simps) (simp add: mcons_left)
  next
    case 3
    then have "0 < m - k" "m - k \<le> length (drop k xs)" using Node by auto
    from Node.IH(2) [OF fits_drop [OF Node.prems(1)] this, of "[]" False acc] 3 Node.hyps
    have "collectConsistency sha (int m - int k) (int (length xs) - int k) (drop k xs) False acc =
            Some (acc @ mcons sha (m - k) (drop k xs) False)"
      by simp
    with 3 sp sub Node.hyps show ?thesis
      by (subst collectConsistency.simps) (simp add: mcons_right)
  qed
qed

lemma ConsistencyProof_mcons:
  assumes "0 < m" and "m \<le> length xs" and "fits xs"
  shows "ConsistencyProof sha (int m) (int (length xs)) (xs @ ys) = Some (Inr (mcons sha m xs True))"
proof -
  have "xs \<noteq> []" using assms by auto
  with assms collectConsistency_mcons [of xs m sha ys True "[]"] show ?thesis
    by (cases "m = length xs") (simp_all add: ConsistencyProof_def mcons_whole)
qed

section \<open>Completeness: generated proofs verify\<close>

lemma climb_step_simps [simp]:
  "climb_step sha h (p, True) = HashInternal sha p h"
  "climb_step sha h (p, False) = HashInternal sha h p"
  by (simp_all add: climb_step_def)

text \<open>The directions \<^verbatim>\<open>VerifyInclusion\<close> recomputes are those of the path.\<close>

lemma directions_mpath:
  assumes "xs \<noteq> []" and "fits xs" and "i < length xs"
  shows "\<exists>ds. directions (length (mpath sha xs i)) (int (length xs)) (int i) = Some ds \<and>
          length ds = length (mpath sha xs i) \<and>
          foldl (climb_step sha) (xs ! i) (zip (mpath sha xs i) (rev ds)) = mth sha xs"
  using assms
proof (induction xs arbitrary: i rule: tree_induct)
  case (Leaf x)
  then show ?case by simp
next
  case (Node xs k)
  have sp: "splitPoint (int (length xs)) = Some (int k)"
    using splitPoint_fits [of xs] Node.hyps Node.prems by simp
  have root: "mth sha xs = HashInternal sha (mth sha (take k xs)) (mth sha (drop k xs))"
    using Node by (simp add: mth_split)
  show ?case
  proof (cases "i < k")
    case True
    obtain ds where "directions (length (mpath sha (take k xs) i)) (int (length (take k xs))) (int i) = Some ds"
      "length ds = length (mpath sha (take k xs) i)"
      "foldl (climb_step sha) (take k xs ! i) (zip (mpath sha (take k xs) i) (rev ds)) = mth sha (take k xs)"
      using Node.IH(1) [of i] Node True by auto
    with True sp root Node.hyps show ?thesis
      by (intro exI [of _ "False # ds"]) (simp add: mpath_left)
  next
    case False
    then have "i - k < length (drop k xs)" using Node by simp
    from Node.IH(2) [OF fits_drop [OF Node.prems(1)] this] False Node.hyps
    obtain ds where "directions (length (mpath sha (drop k xs) (i - k))) (int (length xs) - int k) (int i - int k) = Some ds"
      "length ds = length (mpath sha (drop k xs) (i - k))"
      "foldl (climb_step sha) (xs ! i) (zip (mpath sha (drop k xs) (i - k)) (rev ds)) =
         mth sha (drop k xs)"
      by auto
    then show ?thesis
      using False sp root Node.hyps
      by (intro exI [of _ "True # ds"]) (simp add: mpath_right)
  qed
qed

lemma VerifyInclusion_mpath:
  assumes "fits xs" and "i < length xs"
  shows "VerifyInclusion sha (xs ! i) (mth sha xs) (int i) (int (length xs)) (mpath sha xs i) = Some True"
proof -
  have "xs \<noteq> []" using assms(2) by auto
  with assms directions_mpath [of xs i sha] show ?thesis
    by (auto simp: VerifyInclusion_def)
qed

text \<open>The number of hashes in a path: the tree is balanced.\<close>

lemma mpath_length:
  assumes "xs \<noteq> []" and "i < length xs" and "length xs \<le> 2 ^ d"
  shows "length (mpath sha xs i) \<le> d"
  using assms
proof (induction xs arbitrary: i d rule: tree_induct)
  case (Leaf x)
  then show ?case by simp
next
  case (Node xs k)
  then obtain e where e: "d = Suc e" by (cases d) auto
  have "k \<le> 2 ^ e"
  proof -
    obtain j where j: "k = 2 ^ j" using p2_power Node.hyps(1) by blast
    then have "(2 :: nat) ^ j < 2 ^ d" using Node.hyps(3) Node.prems(2) by linarith
    then have "j < d" by (simp only: power_strict_increasing_iff)
    with e j show ?thesis by (simp add: power_increasing)
  qed
  moreover have "length xs - k \<le> 2 ^ e"
    using p2_bounds [of "length xs"] Node calculation by linarith
  ultimately show ?case
    using Node e by (cases "i < k") (auto simp: mpath_left mpath_right)
qed

text \<open>
  A path cut after \<open>k\<close> hashes: the first part leads from the leaf to the root of a subtree (the
  leaves \<open>a\<close> to \<open>a + m\<close>), the second from there to the root, in the directions that the
  length of the second part alone gives.
\<close>

lemma mpath_short: "xs \<noteq> [] \<Longrightarrow> i < length xs \<Longrightarrow> length (mpath sha xs i) < length xs"
  using mpath_length [of xs i "length xs - 1" sha] less_exp [of "length xs - 1"]
  by (cases xs) (auto simp: Suc_le_eq less_Suc_eq_le)

lemma mpath_cut:
  assumes "xs \<noteq> []" and "fits xs" and "i < length xs" and "k \<le> length (mpath sha xs i)"
  shows "\<exists>a m ds. a \<le> i \<and> i < a + m \<and> a + m \<le> length xs \<and> k < m \<and>
           mpath sha (take m (drop a xs)) (i - a) = take k (mpath sha xs i) \<and>
           directions (length (mpath sha xs i) - k) (int (length xs)) (int i) = Some ds \<and>
           length ds = length (mpath sha xs i) - k \<and>
           foldl (climb_step sha) (mth sha (take m (drop a xs))) (zip (drop k (mpath sha xs i)) (rev ds)) = mth sha xs"
  using assms
proof (induction xs arbitrary: i rule: tree_induct)
  case (Leaf x)
  then show ?case by - (rule exI [of _ 0], rule exI [of _ 1], rule exI [of _ "[]"], simp)
next
  case (Node xs c)
  show ?case
  proof (cases "k = length (mpath sha xs i)")
    case True
    have "xs \<noteq> []" using Node.prems(2) by auto
    with True mpath_short [OF this Node.prems(2)] Node.prems(2) show ?thesis
      by - (rule exI [of _ 0], rule exI [of _ "length xs"], rule exI [of _ "[]"], simp)
  next
    case whole: False
    have sp: "splitPoint (int (length xs)) = Some (int c)"
      using splitPoint_fits [of xs] Node.hyps Node.prems by simp
    have root: "mth sha xs = HashInternal sha (mth sha (take c xs)) (mth sha (drop c xs))"
      using Node by (simp add: mth_split)
    show ?thesis
    proof (cases "i < c")
      case True
      let ?p = "mpath sha (take c xs) i"
      have p: "mpath sha xs i = ?p @ [mth sha (drop c xs)]" using Node.hyps True by (simp add: mpath_left)
      then have k: "k \<le> length ?p" using whole Node.prems(3) by simp
      obtain a m ds where h: "a \<le> i" "i < a + m" "a + m \<le> c" "k < m"
        "mpath sha (take m (drop a (take c xs))) (i - a) = take k ?p"
        "directions (length ?p - k) (int c) (int i) = Some ds" "length ds = length ?p - k"
        "foldl (climb_step sha) (mth sha (take m (drop a (take c xs)))) (zip (drop k ?p) (rev ds)) = mth sha (take c xs)"
        using Node.IH(1) [of i] k Node.prems(1) Node.hyps True by auto
      have "take m (drop a (take c xs)) = take m (drop a xs)" using h(3) by (simp add: drop_take min_def)
      with h sp root p k True Node.hyps show ?thesis
        by - (rule exI [of _ a], rule exI [of _ m], rule exI [of _ "False # ds"], simp add: Suc_diff_le)
    next
      case False
      let ?p = "mpath sha (drop c xs) (i - c)"
      have p: "mpath sha xs i = ?p @ [mth sha (take c xs)]" using Node.hyps False by (simp add: mpath_right)
      then have k: "k \<le> length ?p" using whole Node.prems(3) by simp
      have i: "i - c < length (drop c xs)" using False Node.prems(2) by simp
      obtain a m ds where h: "a \<le> i - c" "i - c < a + m" "a + m \<le> length xs - c" "k < m"
        "mpath sha (take m (drop a (drop c xs))) (i - c - a) = take k ?p"
        "directions (length ?p - k) (int (length xs) - int c) (int i - int c) = Some ds" "length ds = length ?p - k"
        "foldl (climb_step sha) (mth sha (take m (drop a (drop c xs)))) (zip (drop k ?p) (rev ds)) = mth sha (drop c xs)"
        using Node.IH(2) [OF fits_drop [OF Node.prems(1)] i k] Node.hyps False by auto
      moreover have "a + c \<le> i" "i < a + c + m" "a + c + m \<le> length xs" "c + a = a + c"
        using h(1-3) False Node.hyps by auto
      ultimately show ?thesis using sp root p k False Node.hyps
        by - (rule exI [of _ "a + c"], rule exI [of _ m], rule exI [of _ "True # ds"], simp add: Suc_diff_le)
    qed
  qed
qed

section \<open>Soundness: what a verified proof says\<close>

text \<open>
  \<open>collision_free sha xs\<close>: no two different inputs of the list have the same digest. The
  soundness theorems assume it of the inputs that building the tree and checking the proof hash,
  which \<open>tree_inputs\<close>, \<open>climb_inputs\<close> and \<open>subproof_inputs\<close> list.
\<close>

definition collision_free :: "sha_fun \<Rightarrow> bytes list \<Rightarrow> bool" where
  "collision_free sha xs = list_all (\<lambda>x. list_all (\<lambda>y. h32 sha x = h32 sha y \<longrightarrow> x = y) xs) xs"

function node_inputs :: "sha_fun \<Rightarrow> bytes list \<Rightarrow> bytes list" where
  "node_inputs sha xs =
     (if length xs \<le> 1 then []
      else (internalPrefix # mth sha (take (p2 (length xs)) xs) @ mth sha (drop (p2 (length xs)) xs)) #
           node_inputs sha (take (p2 (length xs)) xs) @ node_inputs sha (drop (p2 (length xs)) xs))"
  by pat_completeness auto
termination
  by (relation "measure (\<lambda>(sha, xs). length xs)")
    (auto intro!: diff_less p2_pos simp: min_less_iff_disj p2_less)

declare node_inputs.simps [simp del]

definition tree_inputs :: "sha_fun \<Rightarrow> bytes list \<Rightarrow> bytes list" where
  "tree_inputs sha ds = map (\<lambda>d. leafPrefix # d) ds @ node_inputs sha (map (HashLeaf sha) ds)"

fun climb_inputs :: "sha_fun \<Rightarrow> bytes \<Rightarrow> (bytes \<times> bool) list \<Rightarrow> bytes list" where
  "climb_inputs sha h [] = []"
| "climb_inputs sha h ((p, d) # pds) =
     (if d then internalPrefix # p @ h else internalPrefix # h @ p) #
     climb_inputs sha (climb_step sha h (p, d)) pds"

lemma collision_freeD:
  "collision_free sha xs \<Longrightarrow> x \<in> set xs \<Longrightarrow> y \<in> set xs \<Longrightarrow> h32 sha x = h32 sha y \<Longrightarrow> x = y"
  by (auto simp: collision_free_def list_all_iff)

lemma collision_free_subset: "collision_free sha ys \<Longrightarrow> set xs \<subseteq> set ys \<Longrightarrow> collision_free sha xs"
  by (auto simp: collision_free_def list_all_iff)

lemma h32_length [simp]: "length (h32 sha x) = 32"
  by (simp add: h32_def zero_hash_def)

lemma HashLeaf_length [simp]: "length (HashLeaf sha x) = 32"
  by (simp add: HashLeaf_def)

lemma HashInternal_length [simp]: "length (HashInternal sha x y) = 32"
  by (simp add: HashInternal_def)

lemma climb_step_length [simp]: "length (climb_step sha h pd) = 32"
  by (simp add: climb_step_def)

lemma prefixes_differ [simp]: "leafPrefix \<noteq> internalPrefix" "internalPrefix \<noteq> leafPrefix"
  unfolding leafPrefix_def internalPrefix_def
  by (auto dest: arg_cong [where f = "of_char :: char \<Rightarrow> nat"])

lemma mth_length: "list_all (\<lambda>x. length x = 32) xs \<Longrightarrow> length (mth sha xs) = 32"
  by (cases "xs = [] \<or> length xs = 1")
    (subst mth.simps, auto simp: zero_hash_def length_Suc_conv)+

lemma node_inputs_node:
  "2 \<le> length xs \<Longrightarrow>
     set (node_inputs sha xs) =
       insert (internalPrefix # mth sha (take (p2 (length xs)) xs) @ mth sha (drop (p2 (length xs)) xs))
         (set (node_inputs sha (take (p2 (length xs)) xs)) \<union> set (node_inputs sha (drop (p2 (length xs)) xs)))"
  by (subst node_inputs.simps) auto

text \<open>Two equal internal hashes of 32-byte children have the same children.\<close>

lemma HashInternal_inj:
  assumes "collision_free sha S" and "internalPrefix # a @ b \<in> set S" and "internalPrefix # c @ d \<in> set S"
    and "HashInternal sha a b = HashInternal sha c d" and "length a = length c"
  shows "a = c \<and> b = d"
proof -
  have "internalPrefix # a @ b = internalPrefix # c @ d"
    using assms(4) by (intro collision_freeD [OF assms(1-3)]) (simp add: HashInternal_def)
  with assms(5) show ?thesis by simp
qed

lemma HashLeaf_inj:
  "collision_free sha S \<Longrightarrow> leafPrefix # a \<in> set S \<Longrightarrow> leafPrefix # b \<in> set S \<Longrightarrow>
     HashLeaf sha a = HashLeaf sha b \<Longrightarrow> a = b"
  by (auto dest: collision_freeD simp: HashLeaf_def)

lemma leaf_not_internal:
  "collision_free sha S \<Longrightarrow> leafPrefix # a \<in> set S \<Longrightarrow> internalPrefix # b @ c \<in> set S \<Longrightarrow>
     HashLeaf sha a \<noteq> HashInternal sha b c"
  using collision_freeD [of sha S "leafPrefix # a" "internalPrefix # b @ c"]
  by (auto simp: HashLeaf_def HashInternal_def)

lemma directions_length: "directions j n i = Some ds \<Longrightarrow> length ds = j"
  by (induction j arbitrary: n i ds) (auto simp: Option.bind_eq_Some_conv split: if_splits)

lemma climb_inputs_append:
  "climb_inputs sha h (xs @ ys) = climb_inputs sha h xs @ climb_inputs sha (foldl (climb_step sha) h xs) ys"
  by (induction sha h xs rule: climb_inputs.induct) auto

lemma climb_length: "length h = 32 \<Longrightarrow> length (foldl (climb_step sha) h pds) = 32"
  by (induction pds arbitrary: h) auto

lemma tree_inputs_node:
  assumes "2 \<le> length ds" and "set (tree_inputs sha ds) \<subseteq> S" and "k = p2 (length ds)"
  shows "set (tree_inputs sha (take k ds)) \<subseteq> S" and "set (tree_inputs sha (drop k ds)) \<subseteq> S"
    and "internalPrefix # mth sha (map (HashLeaf sha) (take k ds)) @ mth sha (map (HashLeaf sha) (drop k ds)) \<in> S"
  using assms node_inputs_node [of "map (HashLeaf sha) ds" sha]
  by (auto simp: tree_inputs_def take_map drop_map dest: in_set_takeD in_set_dropD)

lemma tree_inputs_leaf: "d \<in> set ds \<Longrightarrow> leafPrefix # d \<in> set (tree_inputs sha ds)"
  by (simp add: tree_inputs_def)

lemma hash_leaves_length [simp]: "list_all (\<lambda>x. length x = 32) (map (HashLeaf sha) ds)"
  by (simp add: list_all_iff)

lemma mth_one_leaf: "length ds = 1 \<Longrightarrow> i < length ds \<Longrightarrow> mth sha (map f ds) = f (ds ! i)"
  by (cases ds) auto

lemma climb_sound:
  assumes cf: "collision_free sha S"
    and "directions (length pf) (int (length ds)) (int i) = Some dirs"
    and "i < length ds" and "fits ds"
    and "set (tree_inputs sha ds) \<subseteq> set S" and "leafPrefix # d \<in> set S"
    and "set (climb_inputs sha (HashLeaf sha d) (zip pf (rev dirs))) \<subseteq> set S"
    and "list_all (\<lambda>p. length p = 32) pf"
    and "foldl (climb_step sha) (HashLeaf sha d) (zip pf (rev dirs)) = mth sha (map (HashLeaf sha) ds)"
  shows "d = ds ! i"
  using assms(2-)
proof (induction pf arbitrary: ds i dirs rule: rev_induct)
  case Nil
  have leafS: "leafPrefix # ds ! i \<in> set S" using Nil.prems tree_inputs_leaf [of "ds ! i" ds sha] by auto
  show ?case
  proof (cases "length ds = 1")
    case True
    with Nil.prems(2,8) have "HashLeaf sha d = HashLeaf sha (ds ! i)" by (simp add: mth_one_leaf)
    then show ?thesis by (rule HashLeaf_inj [OF cf Nil.prems(5) leafS])
  next
    case False
    then have two: "2 \<le> length ds" using Nil.prems(2) by linarith
    from Nil.prems(8) mth_split [of "map (HashLeaf sha) ds" sha] two
      tree_inputs_node(3) [OF two Nil.prems(4) refl] leaf_not_internal [OF cf Nil.prems(5)]
    show ?thesis by (auto simp: take_map drop_map)
  qed
next
  case (snoc p ps)
  then obtain e es where dirs: "dirs = e # es"
    by (metis directions_length length_0_conv length_append_singleton nat.distinct(1) neq_Nil_conv)
  have len: "length ps = length es" using snoc.prems(1) dirs directions_length by fastforce
  define c where "c = foldl (climb_step sha) (HashLeaf sha d) (zip ps (rev es))"
  have root: "climb_step sha c (p, e) = mth sha (map (HashLeaf sha) ds)"
    using snoc.prems(8) len dirs by (simp add: c_def)
  have cl: "length c = 32" "length p = 32"
    using snoc.prems(7) by (simp_all add: c_def climb_length)
  have inS: "set (climb_inputs sha (HashLeaf sha d) (zip ps (rev es))) \<subseteq> set S"
    "(if e then internalPrefix # p @ c else internalPrefix # c @ p) \<in> set S"
    using snoc.prems(6) len dirs by (auto simp: climb_inputs_append c_def split: if_splits)
  have ps32: "list_all (\<lambda>p. length p = 32) ps" using snoc.prems(7) by simp
  show ?case
  proof (cases "length ds = 1")
    case True
    with snoc.prems(2) root have "climb_step sha c (p, e) = HashLeaf sha (ds ! i)"
      by (simp add: mth_one_leaf)
    moreover have "leafPrefix # ds ! i \<in> set S"
      using snoc.prems tree_inputs_leaf [of "ds ! i" ds sha] by auto
    ultimately show ?thesis using inS(2) leaf_not_internal [OF cf] by (cases e) (auto dest: sym)
  next
    case False
    then have two: "2 \<le> length ds" using snoc.prems(2) by linarith
    define k where "k = p2 (length ds)"
    have k: "0 < k" "k < length ds" using two p2_pos p2_less by (simp_all add: k_def)
    have sp: "splitPoint (int (length ds)) = Some (int k)"
      using splitPoint_fits [OF two snoc.prems(3)] by (simp add: k_def)
    have node: "mth sha (map (HashLeaf sha) ds) =
        HashInternal sha (mth sha (map (HashLeaf sha) (take k ds))) (mth sha (map (HashLeaf sha) (drop k ds)))"
      using mth_split [of "map (HashLeaf sha) ds" sha] two by (simp add: take_map drop_map k_def)
    note sub = tree_inputs_node [OF two snoc.prems(4) k_def]
    have l32: "length (mth sha (map (HashLeaf sha) xs)) = 32" for xs by (simp add: mth_length)
    show ?thesis
    proof (cases "i < k")
      case True
      then have e: "\<not> e" and es: "directions (length ps) (int (length (take k ds))) (int i) = Some es"
        using snoc.prems(1) dirs sp k by (auto simp: Option.bind_eq_Some_conv)
      have eq: "HashInternal sha c p = HashInternal sha (mth sha (map (HashLeaf sha) (take k ds)))
                  (mth sha (map (HashLeaf sha) (drop k ds)))"
        using root e by (simp add: node)
      have mem: "internalPrefix # c @ p \<in> set S" using inS(2) e by simp
      have "length c = length (mth sha (map (HashLeaf sha) (take k ds)))" by (simp only: cl l32)
      from HashInternal_inj [OF cf mem sub(3) eq this]
      have "c = mth sha (map (HashLeaf sha) (take k ds))" by (rule conjunct1)
      then have "d = take k ds ! i"
        using True k snoc.prems(3,5) inS ps32
        by (intro snoc.IH [OF es _ _ sub(1)]) (auto simp: c_def)
      with True show ?thesis by simp
    next
      case False
      have idx: "int (length (drop k ds)) = int (length ds) - int k" "int (i - k) = int i - int k"
        using False k by auto
      have e: e and es: "directions (length ps) (int (length (drop k ds))) (int (i - k)) = Some es"
        unfolding idx using False snoc.prems(1) dirs sp by (simp_all add: Option.bind_eq_Some_conv)
      have eq: "HashInternal sha p c = HashInternal sha (mth sha (map (HashLeaf sha) (take k ds)))
                  (mth sha (map (HashLeaf sha) (drop k ds)))"
        using root e by (simp add: node)
      have mem: "internalPrefix # p @ c \<in> set S" using inS(2) e by simp
      have "length p = length (mth sha (map (HashLeaf sha) (take k ds)))" by (simp only: cl l32)
      from HashInternal_inj [OF cf mem sub(3) eq this]
      have "c = mth sha (map (HashLeaf sha) (drop k ds))" by (rule conjunct2)
      then have "d = drop k ds ! (i - k)"
        using False k snoc.prems(2,3,5) inS ps32
        by (intro snoc.IH [OF es _ _ sub(2)]) (auto simp: c_def)
      with False k show ?thesis by simp
    qed
  qed
qed

section \<open>Consistency proofs\<close>

text \<open>
  \<open>vsub\<close> is \<^verbatim>\<open>verifySubproof\<close> with the reference split point, total, and with the list of the
  inputs hashed for the new root.
\<close>

function vsub ::
  "sha_fun \<Rightarrow> nat \<Rightarrow> nat \<Rightarrow> bool \<Rightarrow> bytes \<Rightarrow> bytes list \<Rightarrow> nat \<Rightarrow> (bytes \<times> bytes \<times> bool \<times> nat) \<times> bytes list"
where
  "vsub sha m n b kr pf pos =
     (if m = 0 \<or> m \<ge> n then
        (if b then ((kr, kr, True, pos), [])
         else if pos \<ge> length pf then ((zero_hash, zero_hash, False, pos), [])
         else ((pf ! pos, pf ! pos, True, pos + 1), []))
      else if m \<le> p2 n then
        (case vsub sha m (p2 n) b kr pf pos of ((lo, ln, ok, pos'), ins) \<Rightarrow>
           if \<not> ok \<or> pos' \<ge> length pf then ((zero_hash, zero_hash, False, pos'), ins)
           else ((lo, HashInternal sha ln (pf ! pos'), True, pos' + 1),
                 (internalPrefix # ln @ pf ! pos') # ins))
      else
        (case vsub sha (m - p2 n) (n - p2 n) False zero_hash pf pos of ((ro, rn, ok, pos'), ins) \<Rightarrow>
           if \<not> ok \<or> pos' \<ge> length pf then ((zero_hash, zero_hash, False, pos'), ins)
           else ((HashInternal sha (pf ! pos') ro, HashInternal sha (pf ! pos') rn, True, pos' + 1),
                 (internalPrefix # pf ! pos' @ rn) # ins)))"
  by pat_completeness auto
termination
  by (relation "measure (\<lambda>(sha, m, n, b, kr, pf, pos). n)")
    (auto intro!: diff_less p2_pos p2_less)

declare vsub.simps [simp del]

definition subproof_inputs :: "sha_fun \<Rightarrow> nat \<Rightarrow> nat \<Rightarrow> bytes \<Rightarrow> bytes list \<Rightarrow> bytes list" where
  "subproof_inputs sha m n oldRoot pf = snd (vsub sha m n True oldRoot pf 0)"

lemma verifySubproof_vsub:
  "0 < m \<Longrightarrow> m \<le> n \<Longrightarrow> n \<le> 2 ^ 62 \<Longrightarrow>
     verifySubproof sha (int m) (int n) b kr pf pos = Some (fst (vsub sha m n b kr pf pos))"
proof (induction sha m n b kr pf pos rule: vsub.induct)
  case (1 sha m n b kr pf pos)
  consider "m = n" | "m < n" "m \<le> p2 n" | "m < n" "\<not> m \<le> p2 n" using 1 by linarith
  then show ?case
  proof cases
    case 1
    then show ?thesis by (subst verifySubproof.simps, subst vsub.simps) simp
  next
    case 2
    then have "splitPoint (int n) = Some (int (p2 n))"
      using "1.prems" by (intro splitPoint_p2) auto
    moreover have "p2 n \<le> 2 ^ 62" using 2 "1.prems" p2_less [of n] by simp
    ultimately show ?thesis using 2 "1.prems" "1.IH"(1)
      by (subst verifySubproof.simps, subst vsub.simps) (auto split: prod.splits)
  next
    case 3
    then have "splitPoint (int n) = Some (int (p2 n))"
      using "1.prems" by (intro splitPoint_p2) auto
    moreover have "int m - int (p2 n) = int (m - p2 n)" "int n - int (p2 n) = int (n - p2 n)"
      using 3 by simp_all
    ultimately show ?thesis using 3 "1.prems" "1.IH"(2)
      by (subst verifySubproof.simps, subst vsub.simps) (auto split: prod.splits simp del: of_nat_diff)
  qed
qed

lemma p2_between: "p2 n < m \<Longrightarrow> m \<le> n \<Longrightarrow> 2 \<le> n \<Longrightarrow> p2 m = p2 n"
proof -
  assume a: "p2 n < m" "m \<le> n" "2 \<le> n"
  obtain j where "p2 n = 2 ^ j" using p2_power by blast
  with a p2_bounds [of n] show "p2 m = p2 n" by (metis dual_order.trans p2_unique)
qed

lemma mth_take_split:
  assumes "2 \<le> length xs" and "p2 (length xs) < m" and "m \<le> length xs"
  shows "mth sha (take m xs) =
           HashInternal sha (mth sha (take (p2 (length xs)) xs)) (mth sha (take (m - p2 (length xs)) (drop (p2 (length xs)) xs)))"
proof -
  have "p2 m = p2 (length xs)" using assms by (intro p2_between) auto
  moreover have "2 \<le> m" using assms(2) p2_pos [of "length xs"] by linarith
  ultimately show ?thesis
    using mth_split [of "take m xs" sha] assms by (simp add: min_absorb2 min_absorb1 drop_take)
qed

text \<open>Completeness: the generated proof makes the verifier compute both roots.\<close>

lemma vsub_complete:
  assumes "xs \<noteq> []" and "0 < m" and "m \<le> length xs"
    and "pf = pre @ mcons sha m xs b @ post" and "b \<Longrightarrow> kr = mth sha (take m xs)"
  shows "fst (vsub sha m (length xs) b kr pf (length pre)) =
           (mth sha (take m xs), mth sha xs, True, length pre + length (mcons sha m xs b))"
  using assms
proof (induction xs arbitrary: m b kr post rule: tree_induct)
  case (Leaf x)
  then have "m = 1" by simp
  with Leaf show ?case by (subst vsub.simps) (auto simp: mcons_whole)
next
  case (Node xs k)
  then have two: "2 \<le> length xs" by linarith
  consider "m = length xs" | "m < length xs" "m \<le> k" | "m < length xs" "\<not> m \<le> k"
    using Node.prems by linarith
  then show ?case
  proof cases
    case 1
    with Node.prems show ?thesis by (subst vsub.simps) (auto simp: mcons_whole)
  next
    case 2
    have mc: "mcons sha m xs b = mcons sha m (take k xs) b @ [mth sha (drop k xs)]"
      using mcons_left [of m xs sha b] 2 Node by simp
    have "fst (vsub sha m (length (take k xs)) b kr pf (length pre)) =
            (mth sha (take m (take k xs)), mth sha (take k xs), True, length pre + length (mcons sha m (take k xs) b))"
      using 2 Node.prems Node.hyps mc by (intro Node.IH(1)) (auto simp: min_absorb1)
    then obtain ins where v: "vsub sha m k b kr pf (length pre) =
            ((mth sha (take m xs), mth sha (take k xs), True, length pre + length (mcons sha m (take k xs) b)), ins)"
      using 2 Node.hyps by (cases "vsub sha m k b kr pf (length pre)") (auto simp: min_absorb1)
    have "pf ! (length pre + length (mcons sha m (take k xs) b)) = mth sha (drop k xs)"
      "length pre + length (mcons sha m (take k xs) b) < length pf"
      using Node.prems(3) mc by (auto simp: nth_append)
    with v 2 Node.hyps Node.prems mth_split [OF two, of sha] mc show ?thesis
      by (subst vsub.simps) simp
  next
    case 3
    have mc: "mcons sha m xs b = mcons sha (m - k) (drop k xs) False @ [mth sha (take k xs)]"
      using mcons_right [of m xs sha b] 3 Node by simp
    have "fst (vsub sha (m - k) (length (drop k xs)) False zero_hash pf (length pre)) =
            (mth sha (take (m - k) (drop k xs)), mth sha (drop k xs), True,
             length pre + length (mcons sha (m - k) (drop k xs) False))"
      using 3 Node.prems Node.hyps mc by (intro Node.IH(2)) auto
    then obtain ins where v: "vsub sha (m - k) (length xs - k) False zero_hash pf (length pre) =
            ((mth sha (take (m - k) (drop k xs)), mth sha (drop k xs), True,
              length pre + length (mcons sha (m - k) (drop k xs) False)), ins)"
      by (cases "vsub sha (m - k) (length xs - k) False zero_hash pf (length pre)") auto
    have "pf ! (length pre + length (mcons sha (m - k) (drop k xs) False)) = mth sha (take k xs)"
      "length pre + length (mcons sha (m - k) (drop k xs) False) < length pf"
      using Node.prems(3) mc by (auto simp: nth_append)
    with v 3 Node.hyps Node.prems mth_split [OF two, of sha] mth_take_split [OF two, of m sha] mc
    show ?thesis by (subst vsub.simps) simp
  qed
qed

lemma VerifyConsistency_complete:
  assumes "0 < m" and "m \<le> length xs" and "fits xs"
  shows "VerifyConsistency sha (mth sha (take m xs)) (mth sha xs) (int m) (int (length xs)) (mcons sha m xs True)
           = Some True"
proof (cases "m = length xs")
  case True
  then show ?thesis by (simp add: VerifyConsistency_def mcons_whole)
next
  case False
  have "xs \<noteq> []" using assms by auto
  moreover have "length xs \<le> 2 ^ 62" using assms(3) by (simp add: fits_def)
  ultimately show ?thesis
    using False assms verifySubproof_vsub [of m "length xs" sha True]
      vsub_complete [of xs m "mcons sha m xs True" "[]" sha True "[]" "mth sha (take m xs)"]
    by (simp add: VerifyConsistency_def)
qed

text \<open>The hashes the verifier computes are 32 bytes long when its inputs are.\<close>

lemma vsub_length:
  assumes "length kr = 32" and "list_all (\<lambda>p. length p = 32) pf"
  shows "vsub sha m n b kr pf pos = ((ol, nw, ok, pos'), ins) \<Longrightarrow> length ol = 32 \<and> length nw = 32"
  using assms
proof (induction sha m n b kr pf pos arbitrary: ol nw ok pos' ins rule: vsub.induct)
  case (1 sha m n b kr pf pos)
  have nth: "j < length pf \<Longrightarrow> length (pf ! j) = 32" for j
    using "1.prems"(3) by (simp add: list_all_length)
  consider "m = 0 \<or> m \<ge> n" | "\<not> (m = 0 \<or> m \<ge> n)" "m \<le> p2 n" | "\<not> (m = 0 \<or> m \<ge> n)" "\<not> m \<le> p2 n"
    by linarith
  then show ?case
  proof cases
    case 1
    with "1.prems" nth show ?thesis
      by (subst (asm) vsub.simps) (auto simp: zero_hash_def split: if_splits)
  next
    case 2
    obtain lo ln k p ins' where r: "vsub sha m (p2 n) b kr pf pos = ((lo, ln, k, p), ins')"
      by (metis prod.exhaust)
    from "1.IH"(1) [OF 2 r "1.prems"(2,3)] have "length lo = 32" by simp
    with 2 r "1.prems"(1) show ?thesis
      by (subst (asm) vsub.simps) (auto simp: zero_hash_def split: if_splits)
  next
    case 3
    obtain lo ln k p ins' where r: "vsub sha (m - p2 n) (n - p2 n) False zero_hash pf pos = ((lo, ln, k, p), ins')"
      by (metis prod.exhaust)
    with 3 "1.prems"(1) show ?thesis
      by (subst (asm) vsub.simps) (auto simp: zero_hash_def split: if_splits)
  qed
qed

text \<open>Soundness: if the new hash is right, so is the old one.\<close>

lemma vsub_sound:
  assumes "xs \<noteq> []"
    and cf: "collision_free sha S" and pf: "list_all (\<lambda>p. length p = 32) pf"
    and "0 < m" and "m \<le> length xs" and "list_all (\<lambda>x. length x = 32) xs" and "length kr = 32"
    and "vsub sha m (length xs) b kr pf pos = ((ol, mth sha xs, True, pos'), ins)"
    and "set ins \<subseteq> set S" and "set (node_inputs sha xs) \<subseteq> set S"
  shows "ol = mth sha (take m xs)"
  using assms(1,4-)
proof (induction xs arbitrary: m b kr ol pos' ins rule: tree_induct)
  case (Leaf x)
  then have "m = 1" by simp
  with Leaf.prems(5) show ?case by (subst (asm) vsub.simps) (auto split: if_splits)
next
  case (Node xs k)
  then have two: "2 \<le> length xs" by linarith
  have nodeS: "internalPrefix # mth sha (take k xs) @ mth sha (drop k xs) \<in> set S"
    "set (node_inputs sha (take k xs)) \<subseteq> set S" "set (node_inputs sha (drop k xs)) \<subseteq> set S"
    using node_inputs_node [OF two, of sha] Node.prems(7) Node.hyps by auto
  have root: "mth sha xs = HashInternal sha (mth sha (take k xs)) (mth sha (drop k xs))"
    using mth_split [OF two] Node.hyps by simp
  have l32: "list_all (\<lambda>x. length x = 32) (take k xs)" "list_all (\<lambda>x. length x = 32) (drop k xs)"
    using Node.prems(3) by (metis append_take_drop_id list_all_append)+
  consider "m = length xs" | "m < length xs" "m \<le> k" | "m < length xs" "\<not> m \<le> k"
    using Node.prems by linarith
  then show ?case
  proof cases
    case 1
    with Node.prems(5) show ?thesis by (subst (asm) vsub.simps) (auto split: if_splits)
  next
    case 2
    obtain lo ln oke p ins' where r: "vsub sha m k b kr pf pos = ((lo, ln, oke, p), ins')"
      by (metis prod.exhaust)
    have oke: oke and new: "mth sha xs = HashInternal sha ln (pf ! p)" and ol: "ol = lo"
      and mem: "internalPrefix # ln @ pf ! p \<in> set S" and ins': "set ins' \<subseteq> set S"
      using Node.prems(5,6) 2 r Node.hyps Node.prems(1)
      by (subst (asm) vsub.simps; auto split: if_splits)+
    have "length ln = length (mth sha (take k xs))"
      using vsub_length [OF Node.prems(4) pf r] mth_length [OF l32(1)] by simp
    from HashInternal_inj [OF cf mem nodeS(1) _ this] new root
    have "ln = mth sha (take k xs)" by simp
    with r oke have "vsub sha m (length (take k xs)) b kr pf pos = ((lo, mth sha (take k xs), True, p), ins')"
      using Node.hyps by (simp add: min_absorb2)
    then have "lo = mth sha (take m (take k xs))"
      using 2 Node.prems(1,4) Node.hyps l32(1) ins' nodeS(2) by (intro Node.IH(1)) auto
    with ol 2 show ?thesis by (simp add: min_absorb1)
  next
    case 3
    obtain ro rn oke p ins' where r: "vsub sha (m - k) (length xs - k) False zero_hash pf pos = ((ro, rn, oke, p), ins')"
      by (metis prod.exhaust)
    have oke: oke and new: "mth sha xs = HashInternal sha (pf ! p) rn" and ol: "ol = HashInternal sha (pf ! p) ro"
      and mem: "internalPrefix # pf ! p @ rn \<in> set S" and ins': "set ins' \<subseteq> set S" and p: "p < length pf"
      using Node.prems(5,6) 3 r Node.hyps Node.prems(1)
      by (subst (asm) vsub.simps; auto split: if_splits)+
    have "length (pf ! p) = length (mth sha (take k xs))"
      using pf p mth_length [OF l32(1)] by (simp add: list_all_length)
    from HashInternal_inj [OF cf mem nodeS(1) _ this] new root
    have eqs: "pf ! p = mth sha (take k xs)" "rn = mth sha (drop k xs)" by simp_all
    with r oke have "vsub sha (m - k) (length (drop k xs)) False zero_hash pf pos = ((ro, mth sha (drop k xs), True, p), ins')"
      by simp
    then have "ro = mth sha (take (m - k) (drop k xs))"
      using 3 Node.prems(1,2) Node.hyps l32(2) ins' nodeS(3)
      by (intro Node.IH(2)) (auto simp: zero_hash_def)
    with ol eqs mth_take_split [OF two, of m sha] 3 Node.hyps show ?thesis by simp
  qed
qed

end
