(* ===== verification/MerkleSpec.thy ===== *)
theory MerkleSpec
  imports MerkleProofs
begin

text \<open>
  What \<^verbatim>\<open>internal/merkle\<close> promises to its callers: the interface \<open>commitment\<close> (a root, an
  inclusion proof and its check), its extension \<open>append_only\<close> (a consistency proof and its check),
  both interpreted on the code's functions, and the properties of the component: the tree is the RFC 6962
  tree, generated proofs verify, verified proofs are true, and the inputs on which the verifiers
  accept too much or never return.
\<close>

section \<open>The interface\<close>

locale commitment =
  fixes root :: "'l list \<Rightarrow> 'r option"
    and prove :: "'l list \<Rightarrow> int \<Rightarrow> 'p list res option"
    and verify :: "'l \<Rightarrow> 'r \<Rightarrow> int \<Rightarrow> int \<Rightarrow> 'p list \<Rightarrow> bool option"
    and ok :: "'l list \<Rightarrow> bool"
  assumes root_total: "ok xs \<Longrightarrow> \<exists>r. root xs = Some r"
    and prove_total: "ok xs \<Longrightarrow> i < length xs \<Longrightarrow> \<exists>p. prove xs (int i) = Some (Inr p)"
    and complete: "ok xs \<Longrightarrow> i < length xs \<Longrightarrow> root xs = Some r \<Longrightarrow> prove xs (int i) = Some (Inr p) \<Longrightarrow>
                     verify (xs ! i) r (int i) (int (length xs)) p = Some True"
begin

lemma verifiable:
  assumes "ok xs" and "i < length xs"
  shows "\<exists>r p. root xs = Some r \<and> prove xs (int i) = Some (Inr p) \<and>
               verify (xs ! i) r (int i) (int (length xs)) p = Some True"
  using root_total [OF assms(1)] prove_total [OF assms] complete [OF assms] by blast

end

locale append_only = commitment root prove verify ok
  for root :: "'l list \<Rightarrow> 'r option" and prove :: "'l list \<Rightarrow> int \<Rightarrow> 'p list res option"
    and verify :: "'l \<Rightarrow> 'r \<Rightarrow> int \<Rightarrow> int \<Rightarrow> 'p list \<Rightarrow> bool option" and ok +
  fixes cprove :: "int \<Rightarrow> int \<Rightarrow> 'l list \<Rightarrow> 'p list res option"
    and cverify :: "'r \<Rightarrow> 'r \<Rightarrow> int \<Rightarrow> int \<Rightarrow> 'p list \<Rightarrow> bool option"
  assumes ok_take: "ok xs \<Longrightarrow> ok (take m xs)"
    and cprove_total: "ok xs \<Longrightarrow> 0 < m \<Longrightarrow> m \<le> length xs \<Longrightarrow>
                         \<exists>p. cprove (int m) (int (length xs)) xs = Some (Inr p)"
    and ccomplete: "ok xs \<Longrightarrow> 0 < m \<Longrightarrow> m \<le> length xs \<Longrightarrow> root (take m xs) = Some r \<Longrightarrow>
                      root xs = Some s \<Longrightarrow> cprove (int m) (int (length xs)) xs = Some (Inr p) \<Longrightarrow>
                      cverify r s (int m) (int (length xs)) p = Some True"
begin

lemma extension_verifiable:
  assumes "ok (xs @ ys)" and "xs \<noteq> []"
  shows "\<exists>r s p. root xs = Some r \<and> root (xs @ ys) = Some s \<and>
           cprove (int (length xs)) (int (length (xs @ ys))) (xs @ ys) = Some (Inr p) \<and>
           cverify r s (int (length xs)) (int (length (xs @ ys))) p = Some True"
proof -
  have len: "0 < length xs" "length xs \<le> length (xs @ ys)" using assms(2) by auto
  have "ok xs" using ok_take [OF assms(1), of "length xs"] by simp
  then obtain r where r: "root xs = Some r" using root_total by blast
  obtain s where s: "root (xs @ ys) = Some s" using root_total [OF assms(1)] by blast
  obtain p where p: "cprove (int (length xs)) (int (length (xs @ ys))) (xs @ ys) = Some (Inr p)"
    using cprove_total [OF assms(1) len] by blast
  have "root (take (length xs) (xs @ ys)) = Some r" using r by simp
  from ccomplete [OF assms(1) len this s p] r s p show ?thesis by blast
qed

end

section \<open>The code implements it\<close>

lemma tree_complete:
  "fits xs \<Longrightarrow> i < length xs \<Longrightarrow> BuildRoot sha xs = Some r \<Longrightarrow> InclusionProof sha xs (int i) = Some (Inr p) \<Longrightarrow>
     VerifyInclusion sha (xs ! i) r (int i) (int (length xs)) p = Some True"
  using VerifyInclusion_mpath [of xs i sha] by (simp add: InclusionProof_mpath BuildRoot_mth)

interpretation tree: commitment "BuildRoot sha" "InclusionProof sha" "VerifyInclusion sha" fits for sha
  by unfold_locales (auto simp: BuildRoot_mth InclusionProof_mpath intro: tree_complete)

lemma tree_ccomplete:
  "fits xs \<Longrightarrow> 0 < m \<Longrightarrow> m \<le> length xs \<Longrightarrow> BuildRoot sha (take m xs) = Some r \<Longrightarrow>
     BuildRoot sha xs = Some s \<Longrightarrow> ConsistencyProof sha (int m) (int (length xs)) xs = Some (Inr p) \<Longrightarrow>
     VerifyConsistency sha r s (int m) (int (length xs)) p = Some True"
  using VerifyConsistency_complete [of m xs sha] ConsistencyProof_mcons [of m xs sha "[]"]
  by (simp add: BuildRoot_mth fits_take)

lemma ConsistencyProof_total:
  "fits xs \<Longrightarrow> 0 < m \<Longrightarrow> m \<le> length xs \<Longrightarrow>
     \<exists>p. ConsistencyProof sha (int m) (int (length xs)) xs = Some (Inr p)"
  using ConsistencyProof_mcons [of m xs sha "[]"] by simp

interpretation log: append_only "BuildRoot sha" "InclusionProof sha" "VerifyInclusion sha" fits
    "ConsistencyProof sha" "VerifyConsistency sha" for sha
  by unfold_locales (auto intro: tree_ccomplete ConsistencyProof_total)

lemma ParseRoot_Inr: "ParseRoot s = Inr r \<longleftrightarrow> hex_decode s = Some r \<and> length r = 32"
  by (auto simp: ParseRoot_def split: option.splits if_splits)

interpretation root_text: codec FormatRoot "\<lambda>s. case ParseRoot s of Inl _ \<Rightarrow> None | Inr r \<Rightarrow> Some r"
    "\<lambda>r. length r = 32"
  by unfold_locales (simp add: FormatRoot_def ParseRoot_def hex_decode_encode)

section \<open>Inputs on which the verifiers do not return\<close>

lemma verifySubproof_negative:
  assumes "m < 0" and "0 \<le> n"
  shows "verifySubproof sha m n b kr pf pos = None"
proof (rule ccontr)
  assume "verifySubproof sha m n b kr pf pos \<noteq> None"
  then obtain r where r: "verifySubproof sha m n b kr pf pos = Some r" by blast
  have "\<not> (m < 0 \<and> 0 \<le> n)"
  proof (rule verifySubproof.raw_induct [where P = "\<lambda>sha m n b kr pf pos r. \<not> (m < 0 \<and> 0 \<le> n)", OF _ r], rule notI)
    fix f :: "sha_fun \<Rightarrow> int \<Rightarrow> int \<Rightarrow> bool \<Rightarrow> bytes \<Rightarrow> bytes list \<Rightarrow> nat \<Rightarrow> (bytes \<times> bytes \<times> bool \<times> nat) option"
    fix sha m n b kr pf pos y
    assume IH: "\<And>sha m n b kr pf pos y. f sha m n b kr pf pos = Some y \<Longrightarrow> \<not> (m < 0 \<and> 0 \<le> n)"
      and eq: "(if m = n then
                  if b then Some (kr, kr, True, pos)
                  else if length pf \<le> pos then Some (zero_hash, zero_hash, False, pos)
                  else Some (pf ! pos, pf ! pos, True, pos + 1)
                else Option.bind (splitPoint n) (\<lambda>k.
                  if m \<le> k then
                    Option.bind (f sha m k b kr pf pos) (\<lambda>r.
                      case r of (leftOld, leftNew, ok, pos') \<Rightarrow>
                        if \<not> ok then Some (zero_hash, zero_hash, False, pos')
                        else if length pf \<le> pos' then Some (zero_hash, zero_hash, False, pos')
                        else Some (leftOld, HashInternal sha leftNew (pf ! pos'), True, pos' + 1))
                  else
                    Option.bind (f sha (m - k) (n - k) False zero_hash pf pos) (\<lambda>r.
                      case r of (rightOld, rightNew, ok, pos') \<Rightarrow>
                        if \<not> ok then Some (zero_hash, zero_hash, False, pos')
                        else if length pf \<le> pos' then Some (zero_hash, zero_hash, False, pos')
                        else Some (HashInternal sha (pf ! pos') rightOld,
                                   HashInternal sha (pf ! pos') rightNew, True, pos' + 1)))) = Some y"
      and neg: "m < 0 \<and> 0 \<le> n"
    from eq neg obtain k where k: "splitPoint n = Some k" by (auto simp: Option.bind_eq_Some_conv)
    have "0 \<le> k"
    proof (cases "n \<le> 1")
      case True
      with k show ?thesis by (simp add: splitPoint_small)
    next
      case False
      then have "n \<le> 2 ^ 62" using k splitPoint_diverges [of n] by fastforce
      with False k splitPoint_p2 [of "nat n"] show ?thesis by (auto simp: nat_le_iff le_nat_iff)
    qed
    moreover from eq neg k calculation obtain q where "f sha m k b kr pf pos = Some q"
      by (auto simp: Option.bind_eq_Some_conv)
    ultimately show False using IH neg by blast
  qed
  with assms show False by blast
qed

section \<open>Properties\<close>

text \<open>C7. \<^verbatim>\<open>splitPoint\<close> returns exactly on \<open>n \<le> 2 ^ 62\<close>: 0 for \<open>n \<le> 1\<close>, and otherwise the
  largest power of two below \<open>n\<close>. On a larger \<open>n\<close> the shift overflows and the loop never ends.\<close>

theorem splitPoint_spec:
  "splitPoint n = Some k \<longleftrightarrow>
     (n \<le> 1 \<and> k = 0) \<or> (1 < n \<and> n \<le> 2 ^ 62 \<and> (\<exists>j. k = 2 ^ j) \<and> k < n \<and> n \<le> 2 * k)"
proof -
  consider "n \<le> 1" | "1 < n" "n \<le> 2 ^ 62" | "2 ^ 62 < n" by linarith
  then show ?thesis
  proof cases
    case 1
    then show ?thesis by (auto simp: splitPoint_small)
  next
    case 2
    define N where "N = nat n"
    have N: "n = int N" "2 \<le> N" "N \<le> 2 ^ 62" using 2 by (simp_all add: N_def le_nat_iff nat_le_iff)
    obtain i where i: "p2 N = 2 ^ i" using p2_power by blast
    have "k = int (p2 N) \<longleftrightarrow> (\<exists>j. k = 2 ^ j) \<and> k < n \<and> n \<le> 2 * k"
    proof
      assume "k = int (p2 N)"
      moreover have "int (p2 N) < int N" "int N \<le> int (2 * p2 N)"
        using p2_bounds [OF N(2)] by (simp_all only: of_nat_less_iff of_nat_le_iff)
      moreover have "\<exists>j. int (p2 N) = 2 ^ j" using i by (intro exI [of _ i]) simp
      ultimately show "(\<exists>j. k = 2 ^ j) \<and> k < n \<and> n \<le> 2 * k"
        using N(1) by (simp only: of_nat_mult of_nat_numeral)
    next
      assume a: "(\<exists>j. k = 2 ^ j) \<and> k < n \<and> n \<le> 2 * k"
      then obtain j where j: "k = int (2 ^ j)" by auto
      with a N(1) have "2 ^ j < N" "N \<le> 2 * 2 ^ j" by linarith+
      with j show "k = int (p2 N)" by (simp add: p2_unique)
    qed
    with 2 N splitPoint_p2 [OF N(2,3)] show ?thesis by auto
  next
    case 3
    then show ?thesis by (simp add: splitPoint_diverges)
  qed
qed



text \<open>C1. For every leaf of a tree \<^verbatim>\<open>InclusionProof\<close> returns a proof that \<^verbatim>\<open>VerifyInclusion\<close>
  accepts against the root that \<^verbatim>\<open>BuildRoot\<close> computes, of at most \<open>d\<close> hashes for a tree of at most
  \<open>2 ^ d\<close> leaves.\<close>

theorem inclusion_complete:
  assumes "fits leaves" and "i < length leaves" and "length leaves \<le> 2 ^ d"
  shows "\<exists>r p. BuildRoot sha leaves = Some r \<and> InclusionProof sha leaves (int i) = Some (Inr p) \<and>
           VerifyInclusion sha (leaves ! i) r (int i) (int (length leaves)) p = Some True \<and> length p \<le> d"
proof -
  obtain r p where rp: "BuildRoot sha leaves = Some r" "InclusionProof sha leaves (int i) = Some (Inr p)"
    "VerifyInclusion sha (leaves ! i) r (int i) (int (length leaves)) p = Some True"
    using tree.verifiable [OF assms(1,2)] by blast
  moreover have "p = mpath sha leaves i" using rp(2) assms by (simp add: InclusionProof_mpath)
  moreover have "leaves \<noteq> []" using assms(2) by auto
  ultimately show ?thesis using mpath_length [OF _ assms(2,3)] by blast
qed

theorem inclusion_complete_witness:
  "\<exists>r p. BuildRoot (\<lambda>x. x) [''a'', ''b'', ''c''] = Some r \<and>
     InclusionProof (\<lambda>x. x) [''a'', ''b'', ''c''] 1 = Some (Inr p) \<and>
     VerifyInclusion (\<lambda>x. x) ''b'' r 1 3 p = Some True \<and> length p \<le> 2"
  using inclusion_complete [of "[''a'', ''b'', ''c'']" 1 2 "\<lambda>x. x"] by (simp add: fits_def)

text \<open>C2. If \<^verbatim>\<open>VerifyInclusion\<close> accepts a proof of any length for a leaf hash \<open>HashLeaf d\<close> against
  the root of the tree over \<open>ds\<close>, and SHA-256 has no collision among the inputs hashed by the
  builder and the verifier, then \<open>d\<close> is the datum at that index: the domain separation of leaves and
  inner nodes excludes every shorter or longer proof.\<close>

theorem inclusion_sound:
  assumes "VerifyInclusion sha (HashLeaf sha d) root (int i) (int (length ds)) pf = Some True"
    and "BuildRoot sha (map (HashLeaf sha) ds) = Some root"
    and "fits ds" and "list_all (\<lambda>p. length p = 32) pf"
    and "directions (length pf) (int (length ds)) (int i) = Some dirs"
    and "collision_free sha
           ((leafPrefix # d) # tree_inputs sha ds @ climb_inputs sha (HashLeaf sha d) (zip pf (rev dirs)))"
  shows "i < length ds \<and> ds ! i = d"
proof -
  have i: "i < length ds" using assms(1) by (auto simp: VerifyInclusion_def split: if_splits)
  have "root = mth sha (map (HashLeaf sha) ds)" using assms(2,3) BuildRoot_mth by (simp add: fits_def)
  then have "foldl (climb_step sha) (HashLeaf sha d) (zip pf (rev dirs)) = mth sha (map (HashLeaf sha) ds)"
    using assms(1,5) by (auto simp: VerifyInclusion_def split: if_splits)
  then have "d = ds ! i"
    using i assms by (intro climb_sound [OF assms(6)]) auto
  with i show ?thesis by simp
qed

theorem inclusion_sound_witness: "1 < length [''a'', ''b''] \<and> [''a'', ''b''] ! 1 = ''b''"
proof (rule inclusion_sound [of "\<lambda>x. x" "''b''"
      "HashInternal (\<lambda>x. x) (HashLeaf (\<lambda>x. x) ''a'') (HashLeaf (\<lambda>x. x) ''b'')"
      1 "[''a'', ''b'']" "[HashLeaf (\<lambda>x. x) ''a'']" "[True]"])
  show "fits [''a'', ''b'']" by (simp add: fits_def)
qed (code_simp)+

text \<open>C8. \<^verbatim>\<open>VerifyInclusion\<close> takes the depth from the length of the proof and never compares it with the
  depth of the tree. Cut a served proof after its first \<open>k\<close> hashes: they prove the leaf in a subtree
  of more than \<open>k\<close> leaves, and the rest of the proof is accepted, at the same index and tree size,
  with the root of that subtree in the place of the leaf hash.\<close>

theorem inclusion_truncated:
  assumes "fits leaves" and "i < length leaves" and "BuildRoot sha leaves = Some r"
    and "InclusionProof sha leaves (int i) = Some (Inr p)" and "k \<le> length p"
  shows "\<exists>a m h. a \<le> i \<and> i < a + m \<and> a + m \<le> length leaves \<and> k < m \<and>
           BuildRoot sha (take m (drop a leaves)) = Some h \<and>
           InclusionProof sha (take m (drop a leaves)) (int (i - a)) = Some (Inr (take k p)) \<and>
           VerifyInclusion sha h r (int i) (int (length leaves)) (drop k p) = Some True"
proof -
  have p: "p = mpath sha leaves i" "r = mth sha leaves" using assms(1-4) by (simp_all add: InclusionProof_mpath BuildRoot_mth)
  have "leaves \<noteq> []" using assms(2) by auto
  from mpath_cut [OF this assms(1,2), of k sha] assms(5) p obtain a m ds where
    h: "a \<le> i" "i < a + m" "a + m \<le> length leaves" "k < m" "mpath sha (take m (drop a leaves)) (i - a) = take k p"
      "directions (length (drop k p)) (int (length leaves)) (int i) = Some ds"
      "foldl (climb_step sha) (mth sha (take m (drop a leaves))) (zip (drop k p) (rev ds)) = r" by auto
  have f: "fits (take m (drop a leaves))" using assms(1) by (intro fits_take fits_drop)
  have "i - a < length (take m (drop a leaves))" using h(1-3) by auto
  from InclusionProof_mpath [OF f this, of sha] BuildRoot_mth [OF f, of sha] h assms(2) \<open>leaves \<noteq> []\<close> show ?thesis
    by - (rule exI [of _ a], rule exI [of _ m], rule exI [of _ "mth sha (take m (drop a leaves))"],
      simp add: VerifyInclusion_def)
qed

theorem inclusion_truncated_witness:
  "\<exists>r p a m h. BuildRoot (\<lambda>x. x) [''a'', ''b'', ''c'', ''d''] = Some r \<and>
     InclusionProof (\<lambda>x. x) [''a'', ''b'', ''c'', ''d''] 3 = Some (Inr p) \<and> 1 < m \<and>
     BuildRoot (\<lambda>x. x) (take m (drop a [''a'', ''b'', ''c'', ''d''])) = Some h \<and>
     VerifyInclusion (\<lambda>x. x) h r 3 4 (drop 1 p) = Some True"
proof -
  let ?ls = "[''a'', ''b'', ''c'', ''d'']"
  obtain r p where r: "BuildRoot (\<lambda>x. x) ?ls = Some r" "InclusionProof (\<lambda>x. x) ?ls (int 3) = Some (Inr p)" "1 \<le> length p"
  proof -
    have f: "fits ?ls" by (simp add: fits_def)
    have "mpath (\<lambda>x. x) ?ls 3 \<noteq> []" by (subst mpath.simps) simp
    then have "1 \<le> length (mpath (\<lambda>x. x) ?ls 3)" by (cases "mpath (\<lambda>x. x) ?ls 3") auto
    with that BuildRoot_mth [OF f] InclusionProof_mpath [OF f, of 3] show ?thesis by simp
  qed
  have "fits ?ls" "3 < length ?ls" by (simp_all add: fits_def)
  from inclusion_truncated [OF this r] obtain a m h where "1 < m" "BuildRoot (\<lambda>x. x) (take m (drop a ?ls)) = Some h"
    "VerifyInclusion (\<lambda>x. x) h r (int 3) (int (length ?ls)) (drop 1 p) = Some True" by blast
  moreover have "int 3 = 3" "int (length ?ls) = 4" by simp_all
  ultimately show ?thesis using r(1,2) by metis
qed

text \<open>C3. For every earlier size of a tree \<^verbatim>\<open>ConsistencyProof\<close> returns a proof that
  \<^verbatim>\<open>VerifyConsistency\<close> accepts for the two roots that \<^verbatim>\<open>BuildRoot\<close> computes.\<close>

theorem consistency_complete:
  assumes "fits (old @ more)" and "old \<noteq> []"
  shows "\<exists>r s p. BuildRoot sha old = Some r \<and> BuildRoot sha (old @ more) = Some s \<and>
           ConsistencyProof sha (int (length old)) (int (length (old @ more))) (old @ more) = Some (Inr p) \<and>
           VerifyConsistency sha r s (int (length old)) (int (length (old @ more))) p = Some True"
  by (rule log.extension_verifiable [OF assms])

theorem consistency_complete_witness:
  "\<exists>r s p. BuildRoot (\<lambda>x. x) [''a''] = Some r \<and> BuildRoot (\<lambda>x. x) ([''a''] @ [''b'', ''c'']) = Some s \<and>
     ConsistencyProof (\<lambda>x. x) (int (length [''a''])) (int (length ([''a''] @ [''b'', ''c'']))) ([''a''] @ [''b'', ''c'']) =
       Some (Inr p) \<and>
     VerifyConsistency (\<lambda>x. x) r s (int (length [''a''])) (int (length ([''a''] @ [''b'', ''c'']))) p = Some True"
  by (rule consistency_complete) (simp_all add: fits_def)

text \<open>C4. If \<^verbatim>\<open>VerifyConsistency\<close> accepts an old root against the root of the tree over \<open>leaves\<close>,
  and SHA-256 has no collision among the inputs hashed, then the old root is the root of the first
  \<open>m\<close> leaves: the log has only grown.\<close>

theorem consistency_sound:
  assumes "VerifyConsistency sha oldRoot newRoot (int m) (int (length leaves)) pf = Some True"
    and "BuildRoot sha leaves = Some newRoot"
    and "0 < m" and "m \<le> length leaves" and "fits leaves" and "length oldRoot = 32"
    and "list_all (\<lambda>x. length x = 32) leaves" and "list_all (\<lambda>p. length p = 32) pf"
    and "collision_free sha (node_inputs sha leaves @ subproof_inputs sha m (length leaves) oldRoot pf)"
  shows "BuildRoot sha (take m leaves) = Some oldRoot"
proof (cases "m = length leaves")
  case True
  with assms show ?thesis by (simp add: VerifyConsistency_def)
next
  case False
  have ne: "leaves \<noteq> []" and big: "length leaves \<le> 2 ^ 62" using assms(3-5) by (auto simp: fits_def)
  obtain ol nw ok pos ins where v: "vsub sha m (length leaves) True oldRoot pf 0 = ((ol, nw, ok, pos), ins)"
    by (metis prod.exhaust)
  then have acc: "ok \<and> ol = oldRoot \<and> nw = newRoot"
    using assms(1,3,4) False verifySubproof_vsub [OF assms(3,4) big, of sha True oldRoot pf 0]
    by (simp add: VerifyConsistency_def ne)
  have root: "newRoot = mth sha leaves" using assms(2,5) by (simp add: BuildRoot_mth)
  have sub: "ins = subproof_inputs sha m (length leaves) oldRoot pf" using v by (simp add: subproof_inputs_def)
  from acc root v have v': "vsub sha m (length leaves) True oldRoot pf 0 = ((oldRoot, mth sha leaves, True, pos), ins)"
    by simp
  have "oldRoot = mth sha (take m leaves)"
    by (rule vsub_sound [OF ne assms(9,8,3,4,7,6) v']) (simp_all add: sub)
  with assms(5) show ?thesis by (simp add: BuildRoot_mth fits_take)
qed

theorem consistency_sound_witness:
  "BuildRoot (\<lambda>x. x) (take 1 (map (HashLeaf (\<lambda>x. x)) [''a'', ''b''])) = Some (HashLeaf (\<lambda>x. x) ''a'')"
proof (rule consistency_sound [of "\<lambda>x. x" "HashLeaf (\<lambda>x. x) ''a''"
      "HashInternal (\<lambda>x. x) (HashLeaf (\<lambda>x. x) ''a'') (HashLeaf (\<lambda>x. x) ''b'')" 1
      "map (HashLeaf (\<lambda>x. x)) [''a'', ''b'']" "[HashLeaf (\<lambda>x. x) ''b'']"])
  show "fits (map (HashLeaf (\<lambda>x. x)) [''a'', ''b''])" by (simp add: fits_def)
qed (code_simp)+

text \<open>A negative old size is not rejected by \<^verbatim>\<open>VerifyConsistency\<close>: the recursion of
  \<^verbatim>\<open>verifySubproof\<close> never ends.\<close>

theorem negative_size_diverges:
  "oldSize < 0 \<Longrightarrow> 0 < newSize \<Longrightarrow> VerifyConsistency sha r s oldSize newSize pf = None"
  by (simp add: VerifyConsistency_def verifySubproof_negative)

theorem negative_size_diverges_witness:
  "VerifyConsistency (\<lambda>x. x) ''old'' ''new'' (- 1) 4 [] = None"
  by (rule negative_size_diverges) simp_all

end
