(* ===== verification/GoText.thy ===== *)
theory GoText
  imports GoStrings
begin

text \<open>
  The part of Go's \<^verbatim>\<open>unicode/utf8\<close> and \<^verbatim>\<open>encoding/json\<close> that deals with the text of one JSON
  string: decoding a rune, the escaping that \<^verbatim>\<open>json.Marshal\<close> applies, the scanner of a string
  literal and its unquoting. The round trip is that unquoting an escaped string gives the string
  with every invalid byte replaced by U+FFFD.
\<close>

section \<open>UTF-8\<close>

abbreviation code :: "char \<Rightarrow> nat" where
  "code c \<equiv> of_char c"

definition is_cont :: "char \<Rightarrow> bool" where
  "is_cont c = (128 \<le> code c \<and> code c < 192)"

text \<open>\<^verbatim>\<open>utf8.DecodeRuneInString\<close>: the width of the well-formed sequence that starts the string, 0
  when there is none, and its code point.\<close>

definition seq2 :: "char \<Rightarrow> char \<Rightarrow> bool" where
  "seq2 a b = (194 \<le> code a \<and> code a < 224 \<and> is_cont b)"

definition seq3 :: "char \<Rightarrow> char \<Rightarrow> char \<Rightarrow> bool" where
  "seq3 a b c =
     (224 \<le> code a \<and> code a < 240 \<and> is_cont b \<and> is_cont c \<and>
      (code a = 224 \<longrightarrow> 160 \<le> code b) \<and> (code a = 237 \<longrightarrow> code b < 160))"

definition seq4 :: "char \<Rightarrow> char \<Rightarrow> char \<Rightarrow> char \<Rightarrow> bool" where
  "seq4 a b c d =
     (240 \<le> code a \<and> code a < 245 \<and> is_cont b \<and> is_cont c \<and> is_cont d \<and>
      (code a = 240 \<longrightarrow> 144 \<le> code b) \<and> (code a = 244 \<longrightarrow> code b < 144))"

definition seq_width :: "bytes \<Rightarrow> nat" where
  "seq_width s =
     (case s of [] \<Rightarrow> 0 | a # t \<Rightarrow> if code a < 128 then 1 else
     (case t of [] \<Rightarrow> 0 | b # u \<Rightarrow> if seq2 a b then 2 else
     (case u of [] \<Rightarrow> 0 | c # v \<Rightarrow> if seq3 a b c then 3 else
     (case v of [] \<Rightarrow> 0 | d # _ \<Rightarrow> if seq4 a b c d then 4 else 0))))"

definition rune_of :: "bytes \<Rightarrow> nat" where
  "rune_of s =
     (if seq_width s = 1 then code (s ! 0)
      else if seq_width s = 2 then 64 * (code (s ! 0) - 192) + (code (s ! 1) - 128)
      else if seq_width s = 3 then
        4096 * (code (s ! 0) - 224) + 64 * (code (s ! 1) - 128) + (code (s ! 2) - 128)
      else if seq_width s = 4 then
        262144 * (code (s ! 0) - 240) + 4096 * (code (s ! 1) - 128) + 64 * (code (s ! 2) - 128) + (code (s ! 3) - 128)
      else 65533)"

text \<open>\<^verbatim>\<open>utf8.AppendRune\<close>.\<close>

definition encode_rune :: "nat \<Rightarrow> bytes" where
  "encode_rune r =
     (if r < 128 then [char_of r]
      else if r < 2048 then [char_of (192 + r div 64), char_of (128 + r mod 64)]
      else if r \<ge> 1114112 \<or> (55296 \<le> r \<and> r < 57344) then b3 239 191 189
      else if r < 65536 then b3 (224 + r div 4096) (128 + r div 64 mod 64) (128 + r mod 64)
      else [char_of (240 + r div 262144), char_of (128 + r div 4096 mod 64), char_of (128 + r div 64 mod 64),
            char_of (128 + r mod 64)])"

definition replacement :: bytes where
  "replacement = b3 239 191 189"

fun valid_utf8 :: "bytes \<Rightarrow> bool" where
  "valid_utf8 [] = True"
| "valid_utf8 (c # s) = (seq_width (c # s) \<noteq> 0 \<and> valid_utf8 (drop (seq_width (c # s) - 1) s))"

text \<open>Every byte that starts no well-formed sequence becomes U+FFFD (\<^verbatim>\<open>strings.ToValidUTF8\<close> byte by
  byte; what a round trip through JSON does).\<close>

fun sanitize :: "bytes \<Rightarrow> bytes" where
  "sanitize [] = []"
| "sanitize (c # s) =
     (if seq_width (c # s) = 0 then replacement @ sanitize s
      else take (seq_width (c # s)) (c # s) @ sanitize (drop (seq_width (c # s) - 1) s))"

section \<open>JSON strings\<close>

text \<open>\<^verbatim>\<open>appendString\<close> of \<^verbatim>\<open>encoding/json\<close> with HTML escaping, as \<^verbatim>\<open>json.Marshal\<close> calls it.\<close>

definition quote :: char where "quote = char_of (34 :: nat)"

definition backslash :: char where "backslash = char_of (92 :: nat)"

definition html_safe :: "char \<Rightarrow> bool" where
  "html_safe c = (32 \<le> code c \<and> code c \<notin> {34, 38, 60, 62, 92})"

definition escape_ascii :: "char \<Rightarrow> bytes" where
  "escape_ascii c =
     (if html_safe c then [c]
      else if code c = 34 \<or> code c = 92 then [backslash, c]
      else if code c = 8 then [backslash, CHR ''b'']
      else if code c = 12 then [backslash, CHR ''f'']
      else if code c = 10 then [backslash, CHR ''n'']
      else if code c = 13 then [backslash, CHR ''r'']
      else if code c = 9 then [backslash, CHR ''t'']
      else backslash # ''u00'' @ [hex_digit (code c div 16), hex_digit (code c mod 16)])"

fun json_escape :: "bytes \<Rightarrow> bytes" where
  "json_escape [] = []"
| "json_escape (c # s) =
     (if code c < 128 then escape_ascii c @ json_escape s
      else if seq_width (c # s) = 0 then backslash # ''ufffd'' @ json_escape s
      else if rune_of (c # s) = 8232 \<or> rune_of (c # s) = 8233 then
        backslash # ''u202'' @ [hex_digit (rune_of (c # s) mod 16)] @
        json_escape (drop (seq_width (c # s) - 1) s)
      else take (seq_width (c # s)) (c # s) @ json_escape (drop (seq_width (c # s) - 1) s))"

definition json_quote :: "bytes \<Rightarrow> bytes" where
  "json_quote s = quote # json_escape s @ [quote]"

text \<open>The scanner of the body of a string literal: the raw body up to the closing quote, and what
  follows.\<close>

definition hex4 :: "bytes \<Rightarrow> nat option" where
  "hex4 s =
     (if length s < 4 then None
      else case (hex_val (s ! 0), hex_val (s ! 1), hex_val (s ! 2), hex_val (s ! 3)) of
        (Some a, Some b, Some c, Some d) \<Rightarrow> Some (4096 * a + 256 * b + 16 * c + d)
      | _ \<Rightarrow> None)"

definition simple_escape :: "char \<Rightarrow> char option" where
  "simple_escape e =
     (if code e = 34 \<or> code e = 92 \<or> code e = 47 then Some e
      else if e = CHR ''b'' then Some (char_of (8 :: nat))
      else if e = CHR ''f'' then Some (char_of (12 :: nat))
      else if e = CHR ''n'' then Some (char_of (10 :: nat))
      else if e = CHR ''r'' then Some (char_of (13 :: nat))
      else if e = CHR ''t'' then Some (char_of (9 :: nat))
      else None)"

fun scan_string :: "bytes \<Rightarrow> (bytes \<times> bytes) option" where
  "scan_string [] = None"
| "scan_string (c # s) =
     (if c = quote then Some ([], s)
      else if c = backslash then
        (case s of [] \<Rightarrow> None
         | e # t \<Rightarrow>
             (if simple_escape e \<noteq> None then
                map_option (\<lambda>(body, rest). (c # e # body, rest)) (scan_string t)
              else if e = CHR ''u'' \<and> hex4 t \<noteq> None then
                map_option (\<lambda>(body, rest). (c # e # take 4 t @ body, rest)) (scan_string (drop 4 t))
              else None))
      else if code c < 32 then None
      else map_option (\<lambda>(body, rest). (c # body, rest)) (scan_string s))"

text \<open>\<^verbatim>\<open>unquote\<close>: escapes and surrogate pairs are decoded, invalid UTF-8 becomes U+FFFD.\<close>

definition surrogate_pair :: "nat \<Rightarrow> nat option \<Rightarrow> nat option" where
  "surrogate_pair r1 r2 =
     (case r2 of None \<Rightarrow> None
      | Some r \<Rightarrow>
          (if 55296 \<le> r1 \<and> r1 < 56320 \<and> 56320 \<le> r \<and> r < 57344
           then Some (1024 * (r1 - 55296) + (r - 56320) + 65536) else None))"

definition escaped_unit :: "bytes \<Rightarrow> nat option" where
  "escaped_unit s =
     (case s of c # e # t \<Rightarrow> (if c = backslash \<and> e = CHR ''u'' then hex4 t else None) | _ \<Rightarrow> None)"

fun unquote :: "bytes \<Rightarrow> bytes" where
  "unquote [] = []"
| "unquote (c # s) =
     (if c = backslash then
        (case s of [] \<Rightarrow> []
         | e # t \<Rightarrow>
             (case simple_escape e of
                Some x \<Rightarrow> x # unquote t
              | None \<Rightarrow>
                  (case hex4 t of
                     None \<Rightarrow> []
                   | Some r \<Rightarrow>
                       (if 55296 \<le> r \<and> r < 57344 then
                          (case surrogate_pair r (escaped_unit (drop 4 t)) of
                             Some p \<Rightarrow> encode_rune p @ unquote (drop 10 t)
                           | None \<Rightarrow> replacement @ unquote (drop 4 t))
                        else encode_rune r @ unquote (drop 4 t)))))
      else if seq_width (c # s) = 0 then replacement @ unquote s
      else take (seq_width (c # s)) (c # s) @ unquote (drop (seq_width (c # s) - 1) s))"

section \<open>Lemmas\<close>

lemma seq_width_ascii: "code c < 128 \<Longrightarrow> seq_width (c # s) = 1"
  by (simp add: seq_width_def)

lemma seq_width_cases:
  assumes "seq_width s \<noteq> 0"
  obtains (one) a t where "s = a # t" "code a < 128" "seq_width s = 1"
  | (two) a b t where "s = a # b # t" "seq2 a b" "\<not> code a < 128" "seq_width s = 2"
  | (three) a b c t where "s = a # b # c # t" "seq3 a b c" "\<not> code a < 128" "\<not> seq2 a b" "seq_width s = 3"
  | (four) a b c d t where "s = a # b # c # d # t" "seq4 a b c d" "\<not> code a < 128" "\<not> seq2 a b"
      "\<not> seq3 a b c" "seq_width s = 4"
  using assms unfolding seq_width_def by (auto split: list.splits if_splits)

lemma seq_high2: "seq2 a b \<Longrightarrow> 128 \<le> code a \<and> 128 \<le> code b"
  by (simp add: seq2_def is_cont_def)

lemma seq_high3: "seq3 a b c \<Longrightarrow> 128 \<le> code a \<and> 128 \<le> code b \<and> 128 \<le> code c"
  by (simp add: seq3_def is_cont_def)

lemma seq_high4: "seq4 a b c d \<Longrightarrow> 128 \<le> code a \<and> 128 \<le> code b \<and> 128 \<le> code c \<and> 128 \<le> code d"
  by (simp add: seq4_def is_cont_def)

lemma seq_width_take:
  "seq_width s \<noteq> 0 \<Longrightarrow> seq_width (take (seq_width s) s @ t) = seq_width s"
  by (erule seq_width_cases) (simp_all add: seq_width_def)

lemma seq_width_le: "seq_width s \<le> length s"
proof (cases "seq_width s = 0")
  case False
  then show ?thesis by (rule seq_width_cases) simp_all
qed simp

text \<open>A sequence of several bytes has none below 128.\<close>

lemma seq_high:
  "\<not> code c < 128 \<Longrightarrow> seq_width (c # s) \<noteq> 0 \<Longrightarrow> list_all (\<lambda>x. 128 \<le> code x) (take (seq_width (c # s)) (c # s))"
  by (erule seq_width_cases) (auto dest: seq_high2 seq_high3 seq_high4)

lemma quote_codes [simp]: "code quote = 34" "code backslash = 92"
  by (simp_all add: quote_def backslash_def)

lemma quote_neq: "quote \<noteq> backslash" "backslash \<noteq> quote"
proof -
  show "quote \<noteq> backslash"
  proof
    assume "quote = backslash"
    then have "code quote = code backslash" by (rule arg_cong)
    then show False by simp
  qed
  then show "backslash \<noteq> quote" by (rule not_sym)
qed

lemma high_plain: "128 \<le> code x \<Longrightarrow> x \<noteq> quote \<and> x \<noteq> backslash"
  by auto

lemma scan_high:
  "list_all (\<lambda>x. 128 \<le> code x) u \<Longrightarrow>
     scan_string (u @ t) = map_option (\<lambda>(body, rest). (u @ body, rest)) (scan_string t)"
proof (induction u)
  case Nil
  then show ?case by (cases "scan_string t") auto
next
  case (Cons x u)
  then have "128 \<le> code x" by simp
  then have "x \<noteq> quote" "x \<noteq> backslash" "\<not> code x < 32" using high_plain by auto
  with Cons show ?case by (cases "scan_string t") auto
qed

lemma unquote_seq:
  assumes "\<not> code c < 128" and "seq_width (c # s) \<noteq> 0"
  shows "unquote (take (seq_width (c # s)) (c # s) @ t) = take (seq_width (c # s)) (c # s) @ unquote t"
proof -
  obtain w where w: "seq_width (c # s) = Suc w" using assms(2) by (cases "seq_width (c # s)") auto
  have "c \<noteq> backslash" using assms(1) by auto
  moreover have "seq_width (c # take w s @ t) = Suc w"
    using seq_width_take [OF assms(2), of t] w by simp
  moreover have "w \<le> length s" using seq_width_le [of "c # s"] w by simp
  ultimately show ?thesis by (simp add: w del: unquote.simps) (simp add: w)
qed

lemma hex_digit_escape: "code c < 128 \<Longrightarrow> hex_val (hex_digit (code c div 16)) = Some (code c div 16)"
  by simp

lemma hex_val_0 [simp]: "hex_val CHR ''0'' = Some 0"
  by (simp add: hex_val_def)

lemma simple_escape_u [simp]: "simple_escape CHR ''u'' = None"
  by (simp add: simple_escape_def)

lemma simple_escapes [simp]:
  "simple_escape CHR ''b'' = Some (char_of (8 :: nat))" "simple_escape CHR ''f'' = Some (char_of (12 :: nat))"
  "simple_escape CHR ''n'' = Some (char_of (10 :: nat))" "simple_escape CHR ''r'' = Some (char_of (13 :: nat))"
  "simple_escape CHR ''t'' = Some (char_of (9 :: nat))"
  by (simp_all add: simple_escape_def)

lemma escape_ascii_u:
  assumes "code c < 128"
  shows "hex4 (''00'' @ [hex_digit (code c div 16), hex_digit (code c mod 16)] @ t) = Some (code c)"
  using assms by (simp add: hex4_def)

lemma escape_ascii_cases:
  assumes "code c < 128"
  obtains (plain) "escape_ascii c = [c]" "c \<noteq> quote" "c \<noteq> backslash" "32 \<le> code c"
  | (short) e where "escape_ascii c = [backslash, e]" "simple_escape e = Some c"
  | (unicode) "escape_ascii c = backslash # ''u00'' @ [hex_digit (code c div 16), hex_digit (code c mod 16)]"
proof -
  have eqs: "code c = 8 \<Longrightarrow> char_of (8 :: nat) = c" "code c = 12 \<Longrightarrow> char_of (12 :: nat) = c"
    "code c = 10 \<Longrightarrow> char_of (10 :: nat) = c" "code c = 13 \<Longrightarrow> char_of (13 :: nat) = c"
    "code c = 9 \<Longrightarrow> char_of (9 :: nat) = c"
    by (metis char_of_char)+
  consider "html_safe c" | "\<not> html_safe c" "code c \<in> {34, 92}" | "\<not> html_safe c" "code c \<in> {8, 12, 10, 13, 9}"
    | "\<not> html_safe c" "code c \<notin> {34, 92, 8, 12, 10, 13, 9}" by blast
  then show ?thesis
  proof cases
    case 1
    then have "c \<noteq> quote" "c \<noteq> backslash" "32 \<le> code c" by (auto simp: html_safe_def)
    with 1 show ?thesis by (intro plain) (simp_all add: escape_ascii_def)
  next
    case 2
    then show ?thesis by (intro short [of c]) (auto simp: escape_ascii_def simple_escape_def)
  next
    case 3
    define e where "e = (if code c = 8 then CHR ''b'' else if code c = 12 then CHR ''f''
      else if code c = 10 then CHR ''n'' else if code c = 13 then CHR ''r'' else CHR ''t'')"
    have "escape_ascii c = [backslash, e]" using 3 by (auto simp: escape_ascii_def e_def)
    moreover have "simple_escape e = Some c" using 3(2) eqs by (auto simp: e_def)
    ultimately show ?thesis by (rule short)
  next
    case 4
    then show ?thesis by (intro unicode) (simp add: escape_ascii_def)
  qed
qed

lemma scan_escape_ascii:
  assumes "code c < 128"
  shows "scan_string (escape_ascii c @ t) = map_option (\<lambda>(body, rest). (escape_ascii c @ body, rest)) (scan_string t)"
  using assms
proof (cases rule: escape_ascii_cases)
  case unicode
  moreover have "hex4 (CHR ''0'' # CHR ''0'' # hex_digit (code c div 16) # hex_digit (code c mod 16) # t) = Some (code c)"
    using escape_ascii_u [OF assms, of t] by simp
  ultimately show ?thesis by (auto simp: quote_neq)
qed (simp_all add: quote_neq)

lemma unquote_escape_ascii:
  assumes "code c < 128"
  shows "unquote (escape_ascii c @ t) = c # unquote t"
  using assms
proof (cases rule: escape_ascii_cases)
  case unicode
  moreover have "hex4 (CHR ''0'' # CHR ''0'' # hex_digit (code c div 16) # hex_digit (code c mod 16) # t) = Some (code c)"
    using escape_ascii_u [OF assms, of t] by simp
  ultimately show ?thesis using assms by (simp add: encode_rune_def)
qed (use assms in \<open>simp_all add: seq_width_ascii\<close>)

lemma rune_seps_bytes:
  fixes a b c :: nat
  assumes "4096 * a + 64 * b + c = 8232 \<or> 4096 * a + 64 * b + c = 8233" and "b < 64" and "c < 64"
  shows "a = 2 \<and> b = 0 \<and> (c = 40 \<or> c = 41)"
proof -
  have "a \<le> 2" using assms by linarith
  moreover have "\<not> a \<le> 1" using assms by linarith
  ultimately have a: "a = 2" by linarith
  have "\<not> 1 \<le> b" using a assms by linarith
  then have "b = 0" by simp
  with a show ?thesis using assms by auto
qed

lemma rune_seps:
  assumes "rune_of s = 8232 \<or> rune_of s = 8233" and "seq_width s \<noteq> 0"
  shows "seq_width s = 3 \<and> encode_rune (rune_of s) = take 3 s"
  using assms(2)
proof (cases rule: seq_width_cases)
  case (three a b c t)
  then have "224 \<le> code a" "128 \<le> code b" "code b < 192" "128 \<le> code c" "code c < 192"
    by (simp_all add: seq3_def is_cont_def)
  moreover from this have "code a - 224 = 2 \<and> code b - 128 = 0 \<and> (code c - 128 = 40 \<or> code c - 128 = 41)"
    using assms(1) three by (intro rune_seps_bytes) (simp_all add: rune_of_def)
  ultimately have codes: "code a = 226" "code b = 128" "code c = 168 \<or> code c = 169" by auto
  then have "a = char_of (226 :: nat)" "b = char_of (128 :: nat)"
    "c = char_of (168 :: nat) \<or> c = char_of (169 :: nat)"
    by (metis char_of_char)+
  then show ?thesis using three codes by (auto simp: rune_of_def encode_rune_def b3_def)
next
  case (two a b t)
  then have "64 * (code a - 192) + (code b - 128) < 2048" by (auto simp: seq2_def is_cont_def)
  with two assms(1) show ?thesis by (simp add: rune_of_def)
next
  case (four a b c d t)
  then have "65536 \<le> 262144 * (code a - 240) + 4096 * (code b - 128)" by (auto simp: seq4_def is_cont_def)
  with four assms(1) show ?thesis by (simp add: rune_of_def)
qed (use assms(1) in \<open>auto simp: rune_of_def\<close>)

lemma scan_escape: "scan_string (json_escape s @ quote # rest) = Some (json_escape s, rest)"
proof (induction s rule: json_escape.induct)
  case 1
  then show ?case by simp
next
  case (2 c s)
  consider "code c < 128" | "\<not> code c < 128" "seq_width (c # s) = 0"
    | "\<not> code c < 128" "seq_width (c # s) \<noteq> 0" "rune_of (c # s) = 8232 \<or> rune_of (c # s) = 8233"
    | "\<not> code c < 128" "seq_width (c # s) \<noteq> 0" "\<not> (rune_of (c # s) = 8232 \<or> rune_of (c # s) = 8233)"
    by blast
  then show ?case
  proof cases
    case 1
    then show ?thesis using "2.IH"(1) by (simp add: scan_escape_ascii)
  next
    case 2
    then show ?thesis using "2.IH"(2) by (simp add: quote_neq hex4_def hex_val_def)
  next
    case 3
    have "rune_of (c # s) mod 16 = 8 \<or> rune_of (c # s) mod 16 = 9" using 3(3) by auto
    then show ?thesis using 3 "2.IH"(3) by (auto simp add: quote_neq hex4_def hex_val_def hex_digit_def)
  next
    case 4
    then show ?thesis using "2.IH"(4) scan_high [OF seq_high [OF 4(1,2)]]
      by (simp del: take_Suc_Cons scan_string.simps)
  qed
qed

lemma unquote_escape: "unquote (json_escape s @ t) = sanitize s @ unquote t"
proof (induction s rule: json_escape.induct)
  case 1
  then show ?case by simp
next
  case (2 c s)
  consider "code c < 128" | "\<not> code c < 128" "seq_width (c # s) = 0"
    | "\<not> code c < 128" "seq_width (c # s) \<noteq> 0" "rune_of (c # s) = 8232 \<or> rune_of (c # s) = 8233"
    | "\<not> code c < 128" "seq_width (c # s) \<noteq> 0" "\<not> (rune_of (c # s) = 8232 \<or> rune_of (c # s) = 8233)"
    by blast
  then show ?case
  proof cases
    case 1
    then show ?thesis using "2.IH"(1) by (simp add: unquote_escape_ascii seq_width_ascii)
  next
    case 2
    then show ?thesis using "2.IH"(2) by (simp add: hex4_def hex_val_def encode_rune_def replacement_def)
  next
    case 3
    note r = rune_seps [OF 3(3,2)]
    have "hex4 (''202'' @ [hex_digit (rune_of (c # s) mod 16)] @ u) = Some (rune_of (c # s))" for u
      using 3(3) by (auto simp: hex4_def hex_val_def hex_digit_def)
    then show ?thesis using 3 "2.IH"(3) r by auto
  next
    case 4
    then show ?thesis using "2.IH"(4) unquote_seq [OF 4(1,2)]
      by (simp del: take_Suc_Cons unquote.simps)
  qed
qed

lemma sanitize_valid: "valid_utf8 s \<Longrightarrow> sanitize s = s"
proof (induction s rule: valid_utf8.induct)
  case (2 c s)
  then show ?case by (cases "seq_width (c # s)") auto
qed simp

section \<open>Quoted strings\<close>

text \<open>\<^verbatim>\<open>%q\<close>. Every rune above 127 is taken to be printable.\<close>

definition ascii_quoted :: "char \<Rightarrow> bytes" where
  "ascii_quoted c =
     (if c = quote \<or> c = backslash then [backslash, c]
      else if code c = 7 then [backslash, CHR ''a''] else if code c = 8 then [backslash, CHR ''b'']
      else if code c = 9 then [backslash, CHR ''t''] else if code c = 10 then [backslash, CHR ''n'']
      else if code c = 11 then [backslash, CHR ''v''] else if code c = 12 then [backslash, CHR ''f'']
      else if code c = 13 then [backslash, CHR ''r'']
      else if code c < 32 \<or> code c \<ge> 127 then backslash # CHR ''x'' # hex_encode [c]
      else [c])"

fun quoted_body :: "bytes \<Rightarrow> bytes" where
  "quoted_body [] = []"
| "quoted_body (c # s) =
     (let w = seq_width (c # s)
      in if w < 2 then ascii_quoted c @ quoted_body s
         else take w (c # s) @ quoted_body (drop (w - 1) s))"

definition go_quote :: "bytes \<Rightarrow> bytes" where
  "go_quote s = quote # quoted_body s @ [quote]"

end
