(* ===== verification/GoJson.thy ===== *)
theory GoJson
  imports GoText
begin

text \<open>
  Go's \<^verbatim>\<open>encoding/json\<close> as the repository uses it: the text of a value (\<^verbatim>\<open>json.Marshal\<close>: compact, no
  whitespace), the parser with its limit of 10000 nested values (\<^verbatim>\<open>json.Unmarshal\<close> first scans the
  whole input), and the decoding of the members of an object into the fields of a struct.

  A string is kept as the raw body between its quotes and a number as its literal: both are decoded
  when a field asks for them, as the decoder does.
\<close>

section \<open>Values and their text\<close>

datatype jval =
    JNull
  | JBool bool
  | JNum bytes
  | JStr bytes
  | JArr "jval list"
  | JObj "(bytes \<times> jval) list"

text \<open>\<^verbatim>\<open>strings.Join\<close>.\<close>

fun join :: "bytes \<Rightarrow> bytes list \<Rightarrow> bytes" where
  "join sep [] = []"
| "join sep [x] = x"
| "join sep (x # y # ys) = x @ sep @ join sep (y # ys)"

fun jtext :: "jval \<Rightarrow> bytes" where
  "jtext JNull = ''null''"
| "jtext (JBool b) = (if b then ''true'' else ''false'')"
| "jtext (JNum n) = n"
| "jtext (JStr s) = quote # s @ [quote]"
| "jtext (JArr vs) = ''['' @ join '','' (map jtext vs) @ '']''"
| "jtext (JObj ms) = ''{'' @ join '','' (map (\<lambda>(k, v). quote # k @ quote # '':'' @ jtext v) ms) @ ''}''"

abbreviation jstr :: "bytes \<Rightarrow> jval" where
  "jstr s \<equiv> JStr (json_escape s)"

definition jint :: "int \<Rightarrow> jval" where
  "jint i = JNum (itoa i)"

section \<open>The parser\<close>

definition is_ws :: "char \<Rightarrow> bool" where
  "is_ws c = (code c = 32 \<or> code c = 9 \<or> code c = 10 \<or> code c = 13)"

definition skip_ws :: "bytes \<Rightarrow> bytes" where
  "skip_ws s = dropWhile is_ws s"

definition digits_prefix :: "bytes \<Rightarrow> (bytes \<times> bytes) option" where
  "digits_prefix s =
     (if takeWhile is_digit s = [] then None else Some (takeWhile is_digit s, dropWhile is_digit s))"

definition scan_frac :: "bytes \<Rightarrow> (bytes \<times> bytes) option" where
  "scan_frac s =
     (case s of [] \<Rightarrow> Some ([], [])
      | c # t \<Rightarrow> (if c = CHR ''.'' then map_option (\<lambda>(ds, r). (c # ds, r)) (digits_prefix t) else Some ([], s)))"

definition scan_exp :: "bytes \<Rightarrow> (bytes \<times> bytes) option" where
  "scan_exp s =
     (case s of [] \<Rightarrow> Some ([], [])
      | c # t \<Rightarrow>
          (if c = CHR ''e'' \<or> c = CHR ''E'' then
             (case t of [] \<Rightarrow> None
              | g # u \<Rightarrow>
                  (if g = CHR ''+'' \<or> g = CHR ''-''
                   then map_option (\<lambda>(ds, r). (c # g # ds, r)) (digits_prefix u)
                   else map_option (\<lambda>(ds, r). (c # ds, r)) (digits_prefix t)))
           else Some ([], s)))"

definition scan_int :: "bytes \<Rightarrow> (bytes \<times> bytes) option" where
  "scan_int s =
     (case s of [] \<Rightarrow> None
      | d # t \<Rightarrow> (if d = CHR ''0'' then Some ([d], t) else digits_prefix s))"

definition scan_sign :: "bytes \<Rightarrow> bytes \<times> bytes" where
  "scan_sign s = (case s of [] \<Rightarrow> ([], []) | c # t \<Rightarrow> (if c = CHR ''-'' then ([c], t) else ([], s)))"

definition scan_number :: "bytes \<Rightarrow> (bytes \<times> bytes) option" where
  "scan_number s =
     (case scan_sign s of (g, s1) \<Rightarrow>
      case scan_int s1 of None \<Rightarrow> None | Some (i, s2) \<Rightarrow>
      case scan_frac s2 of None \<Rightarrow> None | Some (f, s3) \<Rightarrow>
      case scan_exp s3 of None \<Rightarrow> None | Some (e, s4) \<Rightarrow> Some (g @ i @ f @ e, s4))"

text \<open>The first argument is fuel (\<open>json_parse\<close> gives enough for any input), the second the number of
  nested arrays and objects still allowed.\<close>

fun parse_value :: "nat \<Rightarrow> nat \<Rightarrow> bytes \<Rightarrow> (jval \<times> bytes) option"
  and parse_elems :: "nat \<Rightarrow> nat \<Rightarrow> bytes \<Rightarrow> (jval list \<times> bytes) option"
  and parse_members :: "nat \<Rightarrow> nat \<Rightarrow> bytes \<Rightarrow> ((bytes \<times> jval) list \<times> bytes) option"
where
  "parse_value 0 d s = None"
| "parse_value (Suc n) d s =
     (case skip_ws s of [] \<Rightarrow> None
      | c # t \<Rightarrow>
          (if c = quote then map_option (\<lambda>(b, r). (JStr b, r)) (scan_string t)
           else if c = CHR ''['' then
             (if d = 0 then None
              else case skip_ws t of [] \<Rightarrow> None
                | e # u \<Rightarrow> (if e = CHR '']'' then Some (JArr [], u)
                           else map_option (\<lambda>(vs, r). (JArr vs, r)) (parse_elems n (d - 1) t)))
           else if c = CHR ''{'' then
             (if d = 0 then None
              else case skip_ws t of [] \<Rightarrow> None
                | e # u \<Rightarrow> (if e = CHR ''}'' then Some (JObj [], u)
                           else map_option (\<lambda>(ms, r). (JObj ms, r)) (parse_members n (d - 1) t)))
           else if c = CHR ''n'' then (if has_prefix ''ull'' t then Some (JNull, drop 3 t) else None)
           else if c = CHR ''t'' then (if has_prefix ''rue'' t then Some (JBool True, drop 3 t) else None)
           else if c = CHR ''f'' then (if has_prefix ''alse'' t then Some (JBool False, drop 4 t) else None)
           else map_option (\<lambda>(x, r). (JNum x, r)) (scan_number (c # t))))"
| "parse_elems 0 d s = None"
| "parse_elems (Suc n) d s =
     (case parse_value n d s of None \<Rightarrow> None
      | Some (v, r) \<Rightarrow>
          (case skip_ws r of [] \<Rightarrow> None
           | c # u \<Rightarrow>
               (if c = CHR '','' then map_option (\<lambda>(vs, r'). (v # vs, r')) (parse_elems n d u)
                else if c = CHR '']'' then Some ([v], u) else None)))"
| "parse_members 0 d s = None"
| "parse_members (Suc n) d s =
     (case skip_ws s of [] \<Rightarrow> None
      | c # t \<Rightarrow>
          (if c \<noteq> quote then None
           else case scan_string t of None \<Rightarrow> None
             | Some (k, r) \<Rightarrow>
                 (case skip_ws r of [] \<Rightarrow> None
                  | c2 # u \<Rightarrow>
                      (if c2 \<noteq> CHR '':'' then None
                       else case parse_value n d u of None \<Rightarrow> None
                         | Some (v, r2) \<Rightarrow>
                             (case skip_ws r2 of [] \<Rightarrow> None
                              | c3 # w \<Rightarrow>
                                  (if c3 = CHR '','' then
                                     map_option (\<lambda>(ms, r'). ((k, v) # ms, r')) (parse_members n d w)
                                   else if c3 = CHR ''}'' then Some ([(k, v)], w) else None))))))"

definition json_parse :: "bytes \<Rightarrow> jval option" where
  "json_parse s =
     (case parse_value (2 * length s + 2) 10000 s of
        None \<Rightarrow> None
      | Some (v, r) \<Rightarrow> (if skip_ws r = [] then Some v else None))"

section \<open>Decoding into struct fields\<close>

text \<open>
  A key selects the field whose name it equals up to Unicode case folding (the field names are
  ASCII; the only other runes that fold to ASCII are U+017F and U+212A).
\<close>

definition upper :: "char \<Rightarrow> char" where
  "upper c = (if 97 \<le> code c \<and> code c \<le> 122 then char_of (code c - 32) else c)"

fun fold_name :: "bytes \<Rightarrow> bytes" where
  "fold_name [] = []"
| "fold_name (c # s) =
     (if code c = 197 \<and> s \<noteq> [] \<and> code (hd s) = 191 then CHR ''S'' # fold_name (drop 1 s)
      else if code c = 226 \<and> length s \<ge> 2 \<and> code (s ! 0) = 132 \<and> code (s ! 1) = 170
      then CHR ''K'' # fold_name (drop 2 s)
      else upper c # fold_name s)"

definition key_matches :: "bytes \<Rightarrow> bytes \<Rightarrow> bool" where
  "key_matches name key = (fold_name (unquote key) = fold_name name)"

definition json_syntax :: goerr where
  "json_syntax = Foreign ''encoding/json: syntax error''"

definition json_type :: goerr where
  "json_type = Foreign ''encoding/json: cannot unmarshal''"

text \<open>
  A struct type is the list of its fields: the name and how a value sets it. The members are decoded
  in order, so the last of several with one name wins; an unknown name and \<^verbatim>\<open>null\<close> change nothing; a
  value of the wrong type is an error of the whole call.
\<close>

type_synonym 'r fields = "(bytes \<times> (jval \<Rightarrow> 'r \<Rightarrow> 'r res)) list"

fun lookup_field :: "'r fields \<Rightarrow> bytes \<Rightarrow> (jval \<Rightarrow> 'r \<Rightarrow> 'r res) option" where
  "lookup_field [] k = None"
| "lookup_field ((n, d) # fs) k = (if key_matches n k then Some d else lookup_field fs k)"

fun decode_members :: "'r fields \<Rightarrow> (bytes \<times> jval) list \<Rightarrow> 'r \<Rightarrow> 'r res" where
  "decode_members fs [] r = Inr r"
| "decode_members fs ((k, v) # ms) r =
     (if v = JNull then decode_members fs ms r
      else case lookup_field fs k of
        None \<Rightarrow> decode_members fs ms r
      | Some d \<Rightarrow> and_then (d v r) (decode_members fs ms))"

definition set_field :: "(jval \<Rightarrow> 'a res) \<Rightarrow> ('a \<Rightarrow> 'r \<Rightarrow> 'r) \<Rightarrow> jval \<Rightarrow> 'r \<Rightarrow> 'r res" where
  "set_field dec upd v r = (case dec v of Inl e \<Rightarrow> Inl e | Inr x \<Rightarrow> Inr (upd x r))"

definition dec_str :: "jval \<Rightarrow> bytes res" where
  "dec_str v = (case v of JStr s \<Rightarrow> Inr (unquote s) | _ \<Rightarrow> Inl json_type)"

definition dec_bool :: "jval \<Rightarrow> bool res" where
  "dec_bool v = (case v of JBool b \<Rightarrow> Inr b | _ \<Rightarrow> Inl json_type)"

text \<open>An \<^verbatim>\<open>int64\<close> field takes an integer literal in range only: no fraction, no exponent.\<close>

definition dec_int64 :: "jval \<Rightarrow> int res" where
  "dec_int64 v = (case v of JNum n \<Rightarrow> or_fail json_type (parse_int n) | _ \<Rightarrow> Inl json_type)"

text \<open>\<^verbatim>\<open>json.Unmarshal\<close> into a struct: an object, or \<^verbatim>\<open>null\<close>, which changes nothing.\<close>

definition unmarshal_struct :: "'r fields \<Rightarrow> bytes \<Rightarrow> 'r \<Rightarrow> 'r res" where
  "unmarshal_struct fs s r =
     (case json_parse s of
        None \<Rightarrow> Inl json_syntax
      | Some v \<Rightarrow>
          (case v of JObj ms \<Rightarrow> decode_members fs ms r | JNull \<Rightarrow> Inr r | _ \<Rightarrow> Inl json_type))"

text \<open>
  \<^verbatim>\<open>json.Marshal\<close> of a struct: each field has its name, whether it is printed (\<^verbatim>\<open>omitempty\<close>) and its
  value, which may be an error (a float that is not finite, a time out of range).
\<close>

type_synonym member = "bytes \<times> bool \<times> jval res"

fun marshal_members :: "member list \<Rightarrow> (bytes \<times> jval) list res" where
  "marshal_members [] = Inr []"
| "marshal_members ((k, keep, v) # ms) =
     (if keep then
        (case v of Inl e \<Rightarrow> Inl e
         | Inr x \<Rightarrow> (case marshal_members ms of Inl e \<Rightarrow> Inl e | Inr xs \<Rightarrow> Inr ((k, x) # xs)))
      else marshal_members ms)"

definition marshal_struct :: "member list \<Rightarrow> bytes res" where
  "marshal_struct ms = (case marshal_members ms of Inl e \<Rightarrow> Inl e | Inr xs \<Rightarrow> Inr (jtext (JObj xs)))"

definition m_str :: "bytes \<Rightarrow> bytes \<Rightarrow> member" where
  "m_str k s = (k, True, Inr (jstr s))"

definition m_str_opt :: "bytes \<Rightarrow> bytes \<Rightarrow> member" where
  "m_str_opt k s = (k, s \<noteq> [], Inr (jstr s))"

definition m_int :: "bytes \<Rightarrow> int \<Rightarrow> member" where
  "m_int k i = (k, True, Inr (jint i))"

definition m_int_opt :: "bytes \<Rightarrow> int \<Rightarrow> member" where
  "m_int_opt k i = (k, i \<noteq> 0, Inr (jint i))"

definition m_bool :: "bytes \<Rightarrow> bool \<Rightarrow> member" where
  "m_bool k b = (k, True, Inr (JBool b))"

definition m_bool_opt :: "bytes \<Rightarrow> bool \<Rightarrow> member" where
  "m_bool_opt k b = (k, b, Inr (JBool b))"

lemmas member_defs = m_str_def m_str_opt_def m_int_def m_int_opt_def m_bool_def m_bool_opt_def

text \<open>On names of lower-case letters, digits and underscores the folding does nothing.\<close>

definition plain_char :: "char \<Rightarrow> bool" where
  "plain_char c = (97 \<le> code c \<and> code c \<le> 122 \<or> 48 \<le> code c \<and> code c \<le> 57 \<or> code c = 95)"

definition plain_key :: "bytes \<Rightarrow> bool" where
  "plain_key k = list_all plain_char k"

lemma upper_plain_inj: "plain_char c \<Longrightarrow> plain_char d \<Longrightarrow> upper c = upper d \<longleftrightarrow> c = d"
proof -
  assume p: "plain_char c" "plain_char d"
  have u: "code (upper x) = (if 97 \<le> code x \<and> code x \<le> 122 then code x - 32 else code x)" for x
    by (cases "97 \<le> code x \<and> code x \<le> 122") (auto simp: upper_def)
  have "x = y" if "97 \<le> x \<and> x \<le> 122 \<or> 48 \<le> x \<and> x \<le> 57 \<or> x = 95"
      "97 \<le> y \<and> y \<le> 122 \<or> 48 \<le> y \<and> y \<le> 57 \<or> y = 95"
      "(if 97 \<le> x \<and> x \<le> 122 then x - 32 else x) = (if 97 \<le> y \<and> y \<le> 122 then y - 32 else y)" for x y :: nat
    using that by (auto split: if_splits)
  from this [of "code c" "code d"] have "code (upper c) = code (upper d) \<Longrightarrow> code c = code d"
    using p unfolding u plain_char_def by blast
  then show ?thesis by auto
qed

lemma plain_fold: "plain_key k \<Longrightarrow> fold_name k = map upper k"
proof (induction k rule: fold_name.induct)
  case (2 c s)
  then have "plain_char c" "plain_key s" by (simp_all add: plain_key_def)
  with 2(3) show ?case by (simp add: plain_char_def) (auto simp: plain_char_def)
qed simp

lemma plain_unquote: "plain_key k \<Longrightarrow> unquote k = k"
proof (induction k rule: unquote.induct)
  case (2 c s)
  then have c: "plain_char c" "plain_key s" by (simp_all add: plain_key_def)
  then have "c \<noteq> backslash" "code c < 128" by (auto simp: plain_char_def)
  with 2 c show ?case by (simp add: seq_width_ascii)
qed simp

lemma plain_map_inj: "plain_key n \<Longrightarrow> plain_key k \<Longrightarrow> map upper n = map upper k \<longleftrightarrow> n = k"
proof (induction n arbitrary: k)
  case (Cons c n)
  then show ?case by (cases k) (auto simp: plain_key_def upper_plain_inj)
qed auto

lemma key_matches_plain: "plain_key n \<Longrightarrow> plain_key k \<Longrightarrow> key_matches n k \<longleftrightarrow> k = n"
  by (auto simp: key_matches_def plain_fold plain_unquote plain_map_inj)

lemma lookup_field_plain:
  "list_all (\<lambda>(n, d). plain_key n) fs \<Longrightarrow> plain_key k \<Longrightarrow> lookup_field fs k = map_of fs k"
  by (induction fs) (auto simp: key_matches_plain)

section \<open>Well-formed values\<close>

definition raw_ok :: "bytes \<Rightarrow> bool" where
  "raw_ok b = (scan_string (b @ [quote]) = Some (b, []))"

definition num_ok :: "bytes \<Rightarrow> bool" where
  "num_ok x = (scan_number x = Some (x, []) \<and> x \<noteq> [] \<and> (hd x = CHR ''-'' \<or> is_digit (hd x)))"

fun jwf :: "jval \<Rightarrow> bool" where
  "jwf (JNum x) = num_ok x"
| "jwf (JStr s) = raw_ok s"
| "jwf (JArr vs) = list_all jwf vs"
| "jwf (JObj ms) = list_all (\<lambda>(k, v). raw_ok k \<and> jwf v) ms"
| "jwf _ = True"

fun jdepth :: "jval \<Rightarrow> nat" where
  "jdepth (JArr vs) = Suc (foldr max (map jdepth vs) 0)"
| "jdepth (JObj ms) = Suc (foldr max (map (\<lambda>(k, v). jdepth v) ms) 0)"
| "jdepth _ = 0"

section \<open>Lemmas on the scanner\<close>

lemma hex4_append: "hex4 s \<noteq> None \<Longrightarrow> hex4 (s @ t) = hex4 s \<and> take 4 (s @ t) = take 4 s \<and> drop 4 (s @ t) = drop 4 s @ t"
  by (auto simp: hex4_def nth_append split: if_splits)

lemma scan_string_append: "scan_string s = Some (b, r) \<Longrightarrow> scan_string (s @ t) = Some (b, r @ t)"
proof (induction s arbitrary: b r rule: scan_string.induct)
  case (2 c s)
  show ?case
  proof (cases "c = backslash")
    case True
    then obtain e u where s: "s = e # u" using 2(4) by (cases s) (auto simp: quote_neq)
    show ?thesis
    proof (cases "simple_escape e = None")
      case False
      with 2 True s show ?thesis by (auto simp: quote_neq)
    next
      case none: True
      with 2(4) True s have u: "e = CHR ''u''" "hex4 u \<noteq> None" by (auto simp: quote_neq split: if_splits)
      with 2(2,4) none True s hex4_append [OF u(2), of t] show ?thesis by (auto simp: quote_neq)
    qed
  next
    case False
    with 2 show ?thesis by (auto split: if_splits)
  qed
qed simp

lemma raw_ok_scan: "raw_ok b \<Longrightarrow> scan_string (b @ quote # rest) = Some (b, rest)"
  using scan_string_append [of "b @ [quote]" b "[]" rest] by (simp add: raw_ok_def)

lemma raw_ok_escape [simp]: "raw_ok (json_escape s)"
  using scan_escape [of s "[]"] by (simp add: raw_ok_def)

lemma unquote_json_escape [go_dec]: "unquote (json_escape s) = sanitize s"
  using unquote_escape [of s "[]"] by simp

lemma dec_str_jstr [go_dec]: "dec_str (jstr s) = Inr (sanitize s)"
  by (simp add: dec_str_def unquote_json_escape)

lemma dec_int64_jint [go_dec]: "int64 i \<Longrightarrow> dec_int64 (jint i) = Inr i"
  by (simp add: dec_int64_def jint_def parse_int_itoa)

text \<open>What follows a number: nothing that continues it.\<close>

definition num_stop :: "bytes \<Rightarrow> bool" where
  "num_stop s = (s = [] \<or> (\<not> is_digit (hd s) \<and> hd s \<noteq> CHR ''.'' \<and> hd s \<noteq> CHR ''e'' \<and> hd s \<noteq> CHR ''E''))"

lemma takeWhile_stop:
  assumes "r = [] \<or> \<not> p (hd r)"
  shows "takeWhile p (s @ r) = takeWhile p s" and "dropWhile p (s @ r) = dropWhile p s @ r"
  using assms by (induction s) (auto, (cases r; simp)+)

lemma digits_prefix_append:
  "digits_prefix s = Some (a, r) \<Longrightarrow> num_stop t \<Longrightarrow> digits_prefix (s @ t) = Some (a, r @ t)"
  by (auto simp: digits_prefix_def num_stop_def takeWhile_stop split: if_splits)

lemma digits_prefix_append_Cons:
  "digits_prefix (c # s) = Some (a, r) \<Longrightarrow> num_stop t \<Longrightarrow> digits_prefix (c # s @ t) = Some (a, r @ t)"
  using digits_prefix_append [of "c # s" a r t] by simp

lemma num_stop_Cons: "num_stop (c # t) \<Longrightarrow> c \<noteq> CHR ''.'' \<and> c \<noteq> CHR ''e'' \<and> c \<noteq> CHR ''E''"
  by (simp add: num_stop_def)

lemma scan_int_append: "scan_int s = Some (a, r) \<Longrightarrow> num_stop t \<Longrightarrow> scan_int (s @ t) = Some (a, r @ t)"
  by (cases s) (auto simp: scan_int_def digits_prefix_append_Cons split: if_splits)

lemma scan_frac_append: "scan_frac s = Some (a, r) \<Longrightarrow> num_stop t \<Longrightarrow> scan_frac (s @ t) = Some (a, r @ t)"
  by (cases s) (auto simp: scan_frac_def digits_prefix_append dest: num_stop_Cons split: if_splits list.splits)

lemma scan_exp_append: "scan_exp s = Some (a, r) \<Longrightarrow> num_stop t \<Longrightarrow> scan_exp (s @ t) = Some (a, r @ t)"
  by (cases s)
    (auto simp: scan_exp_def digits_prefix_append digits_prefix_append_Cons dest: num_stop_Cons
      split: if_splits list.splits)

lemma scan_number_append:
  assumes "scan_number s = Some (a, r)" and "num_stop t"
  shows "scan_number (s @ t) = Some (a, r @ t)"
proof -
  obtain g s1 where g: "scan_sign s = (g, s1)" by (metis prod.exhaust)
  with assms(1) obtain i s2 f s3 e where
    p: "scan_int s1 = Some (i, s2)" "scan_frac s2 = Some (f, s3)" "scan_exp s3 = Some (e, r)" "a = g @ i @ f @ e"
    by (auto simp: scan_number_def split: option.splits)
  have "s \<noteq> []"
  proof
    assume "s = []"
    with g p(1) show False by (auto simp: scan_sign_def scan_int_def)
  qed
  with g have "scan_sign (s @ t) = (g, s1 @ t)" by (auto simp: scan_sign_def split: list.splits if_splits)
  with p scan_int_append [OF p(1) assms(2)] scan_frac_append [OF p(2) assms(2)] scan_exp_append [OF p(3) assms(2)]
  show ?thesis by (simp add: scan_number_def)
qed

lemma num_ok_scan: "num_ok x \<Longrightarrow> num_stop t \<Longrightarrow> scan_number (x @ t) = Some (x, t)"
  using scan_number_append [of x x "[]" t] by (simp add: num_ok_def)

lemma takeWhile_all: "list_all p s \<Longrightarrow> takeWhile p s = s" "list_all p s \<Longrightarrow> dropWhile p s = []"
  by (induction s) auto

lemma scan_int_itoa_nat: "scan_int (itoa_nat n) = Some (itoa_nat n, [])"
proof (cases "n = 0")
  case True
  moreover have "digit_char 0 = CHR ''0''" by code_simp
  ultimately show ?thesis by (subst (1 2) itoa_nat.simps) (simp add: scan_int_def)
next
  case False
  obtain d ds where d: "itoa_nat n = d # ds" using itoa_nat_nonempty [of n] by (cases "itoa_nat n") auto
  have "d \<noteq> CHR ''0''"
  proof
    assume "d = CHR ''0''"
    with d show False using False
    proof (induction n arbitrary: d ds rule: itoa_nat.induct)
      case (1 n)
      show ?case
      proof (cases "n < 10")
        case True
        with 1(2) have "d = digit_char n" by (subst (asm) itoa_nat.simps) simp
        then have "digit_val d = n" using True by simp
        moreover have "digit_val d = 0" using 1(3) by (simp add: digit_val_def)
        ultimately show ?thesis using 1(4) by simp
      next
        case False
        obtain e es where e: "itoa_nat (n div 10) = e # es"
          using itoa_nat_nonempty [of "n div 10"] by (cases "itoa_nat (n div 10)") auto
        with 1(2) False have "d = e" by (subst (asm) itoa_nat.simps) simp
        moreover have "n div 10 \<noteq> 0" using False by (simp add: div_eq_0_iff)
        ultimately show ?thesis using 1(1) [OF False e] 1(3) by simp
      qed
    qed
  qed
  then show ?thesis using d itoa_nat_digits [of n] by (simp add: scan_int_def digits_prefix_def takeWhile_all)
qed

lemma num_ok_itoa [simp]: "num_ok (itoa i)"
proof -
  have d: "is_digit (hd (itoa_nat n))" for n by (rule itoa_nat_hd)
  have ne: "itoa_nat n \<noteq> []" for n by simp
  have s: "hd (itoa_nat n) \<noteq> CHR ''-''" for n using d is_digit_not_sign by blast
  then have "scan_sign (itoa_nat n) = ([], itoa_nat n)" for n
    using ne [of n] s [of n] by (cases "itoa_nat n") (auto simp: scan_sign_def)
  then show ?thesis using d
    by (auto simp: num_ok_def itoa_def scan_number_def scan_int_itoa_nat scan_frac_def scan_exp_def scan_sign_def)
qed

section \<open>Parsing the text of a value\<close>

lemma skip_ws_Cons: "\<not> is_ws c \<Longrightarrow> skip_ws (c # s) = c # s"
  by (simp add: skip_ws_def)

lemma not_ws [simp]:
  "\<not> is_ws quote" "\<not> is_ws CHR ''[''" "\<not> is_ws CHR ''{''" "\<not> is_ws CHR '']''" "\<not> is_ws CHR ''}''"
  "\<not> is_ws CHR '',''" "\<not> is_ws CHR '':''" "\<not> is_ws CHR ''n''" "\<not> is_ws CHR ''t''" "\<not> is_ws CHR ''f''"
  by (simp_all add: is_ws_def)

lemma quote_punct [simp]:
  "CHR ''['' \<noteq> quote" "CHR ''{'' \<noteq> quote" "CHR '']'' \<noteq> quote" "CHR ''}'' \<noteq> quote" "CHR ''n'' \<noteq> quote"
  "CHR ''t'' \<noteq> quote" "CHR ''f'' \<noteq> quote" "CHR ''-'' \<noteq> quote"
  "quote \<noteq> CHR ''['' " "quote \<noteq> CHR ''{''" "quote \<noteq> CHR '']''" "quote \<noteq> CHR ''}''"
  "quote \<noteq> CHR ''-''" "\<not> is_digit CHR '']''"
  by code_simp+

lemma num_stop_punct [simp]: "num_stop (CHR '','' # s)" "num_stop (CHR '']'' # s)" "num_stop (CHR ''}'' # s)" "num_stop []"
  by (simp_all add: num_stop_def is_digit_def)

lemma digit_plain:
  assumes "is_digit c \<or> c = CHR ''-''"
  shows "\<not> is_ws c" "c \<noteq> quote" "c \<noteq> CHR ''[''" "c \<noteq> CHR ''{''" "c \<noteq> CHR '']''" "c \<noteq> CHR ''}''" "c \<noteq> CHR ''n''"
    "c \<noteq> CHR ''t''" "c \<noteq> CHR ''f''"
  using assms by (auto simp: is_digit_def is_ws_def)

text \<open>The first character of a value's text: never white space, never a closing bracket.\<close>

definition starts_value :: "bytes \<Rightarrow> bool" where
  "starts_value s = (s \<noteq> [] \<and> \<not> is_ws (hd s) \<and> hd s \<noteq> CHR '']'')"

lemma jtext_starts: "jwf v \<Longrightarrow> starts_value (jtext v @ rest)"
  by (cases v) (auto simp: starts_value_def num_ok_def digit_plain)

lemma join_Cons: "join sep (x # xs) = (if xs = [] then x else x @ sep @ join sep xs)"
  by (cases xs) auto

definition parses :: "jval \<Rightarrow> bool" where
  "parses v = (\<forall>n d rest. 2 * length (jtext v) \<le> n \<longrightarrow> jdepth v \<le> d \<longrightarrow> jwf v \<longrightarrow> num_stop rest \<longrightarrow>
                 parse_value n d (jtext v @ rest) = Some (v, rest))"

lemma parsesD:
  "parses v \<Longrightarrow> 2 * length (jtext v) \<le> n \<Longrightarrow> jdepth v \<le> d \<Longrightarrow> jwf v \<Longrightarrow> num_stop rest \<Longrightarrow>
     parse_value n d (jtext v @ rest) = Some (v, rest)"
  by (simp add: parses_def)

lemma parse_elems_text:
  assumes "\<And>v. v \<in> set vs \<Longrightarrow> parses v" and "vs \<noteq> []" and "list_all jwf vs"
    and "2 * length (join '','' (map jtext vs)) + 1 \<le> n" and "\<And>v. v \<in> set vs \<Longrightarrow> jdepth v \<le> d"
  shows "parse_elems n d (join '','' (map jtext vs) @ '']'' @ rest) = Some (vs, rest)"
  using assms
proof (induction vs arbitrary: n)
  case Nil
  then show ?case by simp
next
  case (Cons v vs)
  obtain m where n: "n = Suc m" using Cons.prems(4) by (cases n) auto
  have p: "2 * length (jtext v) \<le> m \<Longrightarrow> num_stop r \<Longrightarrow> parse_value m d (jtext v @ r) = Some (v, r)" for r
    using Cons.prems by (simp add: parses_def)
  show ?case
  proof (cases "vs = []")
    case True
    with Cons.prems(4) n p [of "CHR '']'' # rest"] show ?thesis by (simp add: skip_ws_Cons)
  next
    case False
    have len: "2 * length (jtext v) \<le> m" "2 * length (join '','' (map jtext vs)) + 1 \<le> m"
      using Cons.prems(4) n False by (simp_all add: join_Cons)
    have "parse_elems m d (join '','' (map jtext vs) @ '']'' @ rest) = Some (vs, rest)"
      using Cons.prems False len by (intro Cons.IH) auto
    with n False p [OF len(1)] show ?thesis by (simp add: join_Cons skip_ws_Cons)
  qed
qed

definition member_text :: "bytes \<times> jval \<Rightarrow> bytes" where
  "member_text = (\<lambda>(k, v). quote # k @ quote # '':'' @ jtext v)"

lemma parse_members_text:
  assumes "\<And>k v. (k, v) \<in> set ms \<Longrightarrow> parses v" and "ms \<noteq> []" and "list_all (\<lambda>(k, v). raw_ok k \<and> jwf v) ms"
    and "2 * length (join '','' (map member_text ms)) + 1 \<le> n"
    and "\<And>k v. (k, v) \<in> set ms \<Longrightarrow> jdepth v \<le> d"
  shows "parse_members n d (join '','' (map member_text ms) @ ''}'' @ rest) = Some (ms, rest)"
  using assms
proof (induction ms arbitrary: n)
  case Nil
  then show ?case by simp
next
  case (Cons kv ms)
  obtain k v where kv: "kv = (k, v)" by (cases kv)
  obtain m where n: "n = Suc m" using Cons.prems(4) by (cases n) auto
  have wf: "raw_ok k" "jwf v" using Cons.prems(3) kv by simp_all
  have p: "2 * length (jtext v) \<le> m \<Longrightarrow> num_stop r \<Longrightarrow> parse_value m d (jtext v @ r) = Some (v, r)" for r
    using Cons.prems(1,5) kv wf(2) by (intro parsesD) auto
  have s: "scan_string (k @ quote # r) = Some (k, r)" for r by (rule raw_ok_scan [OF wf(1)])
  show ?case
  proof (cases "ms = []")
    case True
    with Cons.prems(4) n p [of "CHR ''}'' # rest"] kv s show ?thesis
      by (simp add: skip_ws_Cons member_text_def)
  next
    case False
    have len: "2 * length (jtext v) \<le> m" "2 * length (join '','' (map member_text ms)) + 1 \<le> m"
      using Cons.prems(4) n False kv by (simp_all add: join_Cons member_text_def)
    have "parse_members m d (join '','' (map member_text ms) @ ''}'' @ rest) = Some (ms, rest)"
      using Cons.prems False len by (intro Cons.IH) auto
    with n False p [OF len(1)] kv s show ?thesis by (simp add: join_Cons skip_ws_Cons member_text_def)
  qed
qed

lemma foldr_max_le: "x \<in> set xs \<Longrightarrow> x \<le> foldr max xs (0 :: nat)"
  by (induction xs) auto

lemma parses_SucI:
  "jtext v \<noteq> [] \<Longrightarrow> (\<And>n d rest. parse_value (Suc n) d (jtext v @ rest) = Some (v, rest)) \<Longrightarrow> parses v"
  unfolding parses_def by (metis Suc_le_D Suc_le_eq le_trans length_greater_0_conv mult_2 trans_le_add1)

lemma parses_all: "parses v"
proof (induction v)
  case (JNum x)
  show ?case unfolding parses_def
  proof (intro allI impI)
    fix n d rest
    assume a: "2 * length (jtext (JNum x)) \<le> n" "jwf (JNum x)" "num_stop rest"
    then obtain c t where x: "x = c # t" "is_digit c \<or> c = CHR ''-''" by (cases x) (auto simp: num_ok_def)
    with a obtain m where "n = Suc m" by (cases n) auto
    with a x num_ok_scan [of x rest] digit_plain [OF x(2)]
    show "parse_value n d (jtext (JNum x) @ rest) = Some (JNum x, rest)" by (simp add: skip_ws_Cons)
  qed
next
  case (JStr s)
  show ?case unfolding parses_def
  proof (intro allI impI)
    fix n d rest
    assume a: "2 * length (jtext (JStr s)) \<le> n" "jwf (JStr s)"
    then obtain m where "n = Suc m" by (cases n) auto
    with a raw_ok_scan [of s rest]
    show "parse_value n d (jtext (JStr s) @ rest) = Some (JStr s, rest)" by (simp add: skip_ws_Cons)
  qed
next
  case (JArr vs)
  show ?case unfolding parses_def
  proof (intro allI impI)
    fix n d rest
    assume a: "2 * length (jtext (JArr vs)) \<le> n" "jdepth (JArr vs) \<le> d" "jwf (JArr vs)"
    then obtain m e where n: "n = Suc m" and d: "d = Suc e" by (cases n; cases d) auto
    show "parse_value n d (jtext (JArr vs) @ rest) = Some (JArr vs, rest)"
    proof (cases vs)
      case Nil
      with n d show ?thesis by (simp add: skip_ws_Cons)
    next
      case (Cons v us)
      have dep: "w \<in> set vs \<Longrightarrow> jdepth w \<le> e" for w
        using a(2) d foldr_max_le [of "jdepth w" "map jdepth vs"] by force
      have "parse_elems m e (join '','' (map jtext vs) @ '']'' @ rest) = Some (vs, rest)"
        using JArr a n dep Cons by (intro parse_elems_text) auto
      moreover have st: "starts_value (join '','' (map jtext vs) @ '']'' @ rest)"
        using jtext_starts [of v] a(3) Cons by (simp add: join_Cons)
      then have "skip_ws (join '','' (map jtext vs) @ '']'' @ rest) = join '','' (map jtext vs) @ '']'' @ rest"
        by (cases "join '','' (map jtext vs) @ '']'' @ rest") (auto simp: starts_value_def skip_ws_Cons)
      ultimately show ?thesis using n d st
        by (cases "join '','' (map jtext vs) @ '']'' @ rest") (auto simp: skip_ws_Cons starts_value_def)
    qed
  qed
next
  case (JObj ms)
  show ?case unfolding parses_def
  proof (intro allI impI)
    fix n d rest
    assume a: "2 * length (jtext (JObj ms)) \<le> n" "jdepth (JObj ms) \<le> d" "jwf (JObj ms)"
    then obtain m e where n: "n = Suc m" and d: "d = Suc e" by (cases n; cases d) auto
    have mt: "jtext (JObj ms) = ''{'' @ join '','' (map member_text ms) @ ''}''" by (simp add: member_text_def)
    show "parse_value n d (jtext (JObj ms) @ rest) = Some (JObj ms, rest)"
    proof (cases ms)
      case Nil
      with n d show ?thesis by (simp add: skip_ws_Cons)
    next
      case (Cons kv us)
      have dep: "(k, w) \<in> set ms \<Longrightarrow> jdepth w \<le> e" for k w
        using a(2) d foldr_max_le [of "jdepth w" "map (\<lambda>(k, v). jdepth v) ms"] by force
      have pv: "(k, w) \<in> set ms \<Longrightarrow> parses w" for k w using JObj by fastforce
      have "parse_members m e (join '','' (map member_text ms) @ ''}'' @ rest) = Some (ms, rest)"
        using pv a n dep Cons mt by (intro parse_members_text) auto
      moreover obtain u where "join '','' (map member_text ms) @ ''}'' @ rest = quote # u"
        using Cons by (cases kv; cases us) (auto simp: member_text_def)
      ultimately show ?thesis using n d unfolding mt by (simp add: skip_ws_Cons)
    qed
  qed
next
  case JNull
  show ?case by (rule parses_SucI) (simp_all add: skip_ws_Cons)
next
  case (JBool b)
  show ?case by (rule parses_SucI) (simp_all add: skip_ws_Cons)
qed

lemma json_parse_jtext:
  assumes "jwf v" and "jdepth v \<le> 10000"
  shows "json_parse (jtext v) = Some v"
proof -
  have "parse_value (2 * length (jtext v) + 2) 10000 (jtext v @ []) = Some (v, [])"
    by (rule parsesD [OF parses_all]) (use assms in simp_all)
  then show ?thesis by (simp add: json_parse_def skip_ws_def)
qed

end
