(* ===== verification/Signing.thy ===== *)
theory Signing
  imports GoJson
begin

text \<open>
  \<^verbatim>\<open>internal/signing\<close>: the signature bundle, the \<^verbatim>\<open>Signer\<close> and \<^verbatim>\<open>Verifier\<close> interfaces, the Ed25519
  pair and the Fulcio pair. Ed25519 itself is the parameter \<open>ed25519\<close> and the Sigstore libraries are
  the parameter \<open>sigstore\<close>; what a theorem needs of them is a named hypothesis.
\<close>

section \<open>The interfaces\<close>

record signature_bundle =
  sb_SignatureHex :: bytes
  sb_CertificatePEM :: bytes
  sb_RekorLogIndex :: int
  sb_SignerIdentity :: bytes
  sb_SignerType :: bytes
  sb_BundleJSON :: bytes

record signer =
  s_Sign :: "bytes \<Rightarrow> signature_bundle res"
  s_Identity :: bytes
  s_Type :: bytes

type_synonym verifier = "bytes \<Rightarrow> signature_bundle \<Rightarrow> unit res"

text \<open>What a client expects of a signer and a verifier: the verifier accepts the payload with any
  bundle that carries the signature the signer made for it.\<close>

locale signing_pair =
  fixes sign :: "bytes \<Rightarrow> signature_bundle res"
    and verify :: "bytes \<Rightarrow> signature_bundle \<Rightarrow> unit res"
    and lawful :: bool
  assumes verify_sign: "lawful \<Longrightarrow> sign p = Inr b \<Longrightarrow> sb_SignatureHex b' = sb_SignatureHex b \<Longrightarrow> verify p b' = Inr ()"
begin

lemma verify_own_bundle: "lawful \<Longrightarrow> sign p = Inr b \<Longrightarrow> verify p b = Inr ()"
  by (rule verify_sign) auto

end

section \<open>Ed25519\<close>

text \<open>\<^verbatim>\<open>crypto/ed25519\<close>: signing, verifying, the public half of a private key.\<close>

record ed25519 =
  ed_sign :: "bytes \<Rightarrow> bytes \<Rightarrow> bytes"
  ed_verify :: "bytes \<Rightarrow> bytes \<Rightarrow> bytes \<Rightarrow> bool"
  ed_public :: "bytes \<Rightarrow> bytes"

text \<open>The documented behaviour: a signature verifies under the public key of the signing key, and
  is not empty.\<close>

definition ed_correct :: "ed25519 \<Rightarrow> bytes \<Rightarrow> bytes \<Rightarrow> bool" where
  "ed_correct c sk m = (ed_verify c (ed_public c sk) m (ed_sign c sk m) \<and> ed_sign c sk m \<noteq> [])"

definition Ed25519Sign :: "ed25519 \<Rightarrow> bytes \<Rightarrow> bytes \<Rightarrow> signature_bundle res" where
  "Ed25519Sign c priv payload =
     Inr \<lparr>sb_SignatureHex = hex_encode (ed_sign c priv payload), sb_CertificatePEM = [],
          sb_RekorLogIndex = - 1, sb_SignerIdentity = hex_encode (ed_public c priv),
          sb_SignerType = ''ed25519'', sb_BundleJSON = []\<rparr>"

definition NewEd25519Signer :: "ed25519 \<Rightarrow> bytes \<Rightarrow> signer" where
  "NewEd25519Signer c priv =
     \<lparr>s_Sign = Ed25519Sign c priv, s_Identity = hex_encode (ed_public c priv), s_Type = ''ed25519''\<rparr>"

definition Ed25519Verify :: "ed25519 \<Rightarrow> bytes \<Rightarrow> verifier" where
  "Ed25519Verify c pub payload b =
     (case hex_decode (sb_SignatureHex b) of
        None \<Rightarrow> Inl (Wrap ''decode signature hex'' (Foreign ''encoding/hex''))
      | Some sig \<Rightarrow>
          (if \<not> ed_verify c pub payload sig then Inl (Err ''ed25519 signature verification failed'')
           else Inr ()))"

interpretation ed: signing_pair "Ed25519Sign c sk" "Ed25519Verify c (ed_public c sk)" "\<forall>m. ed_correct c sk m"
  for c sk
  by unfold_locales (auto simp: Ed25519Sign_def Ed25519Verify_def ed_correct_def hex_decode_encode)

section \<open>Fulcio\<close>

text \<open>The options; \<open>fo_Timeout\<close> is in nanoseconds.\<close>

record fulcio_opts =
  fo_FulcioURL :: bytes
  fo_RekorURL :: bytes
  fo_OIDCToken :: bytes
  fo_Timeout :: int

definition NewFulcioSigner :: "fulcio_opts \<Rightarrow> fulcio_opts" where
  "NewFulcioSigner o0 =
     (let o1 = (if fo_Timeout o0 \<le> 0 then o0\<lparr>fo_Timeout := 30 * 1000000000\<rparr> else o0)
      in if fo_FulcioURL o1 = [] then o1\<lparr>fo_FulcioURL := ''https://fulcio.sigstore.dev''\<rparr> else o1)"

text \<open>
  The Sigstore libraries, over their protobuf bundle \<open>'pb\<close>: making the ephemeral key, making the bundle
  (with the transparency log when \<open>RekorURL\<close> is set), its parts, PEM and X.509, and the checks of
  \<^verbatim>\<open>sigstore-go\<close>'s verifier against a trusted root \<open>'tm\<close>.
\<close>

record ('pb, 'tm) sigstore =
  ss_keypair :: "unit res"
  ss_bundle :: "bytes \<Rightarrow> fulcio_opts \<Rightarrow> bool \<Rightarrow> 'pb res"
  ss_marshal :: "'pb \<Rightarrow> bytes res"
  ss_unmarshal :: "bytes \<Rightarrow> 'pb res"
  ss_raw_cert :: "'pb \<Rightarrow> bytes"
  ss_signature :: "'pb \<Rightarrow> bytes"
  ss_tlog :: "'pb \<Rightarrow> int list"
  ss_pem :: "bytes \<Rightarrow> bytes"
  ss_x509 :: "bytes \<Rightarrow> (bytes option list \<times> bytes list) res"
  ss_new_bundle :: "'pb \<Rightarrow> 'pb res"
  ss_trusted_root :: "bytes \<Rightarrow> 'tm res"
  ss_verifier :: "'tm \<Rightarrow> bool \<Rightarrow> unit res"
  ss_san_matcher :: "bytes \<Rightarrow> unit res"
  ss_cert_identity :: "bytes \<Rightarrow> bytes \<Rightarrow> unit res"
  ss_verify :: "'tm \<Rightarrow> bool \<Rightarrow> (bytes \<times> bytes) option \<Rightarrow> bytes \<Rightarrow> 'pb \<Rightarrow> unit res"

fun first_some :: "'a option list \<Rightarrow> 'a option" where
  "first_some [] = None"
| "first_some (x # xs) = (case x of None \<Rightarrow> first_some xs | Some y \<Rightarrow> Some y)"

text \<open>The certificate's PEM and the subject: the first URI, otherwise the first e-mail address.\<close>

definition extractCertInfo :: "('pb, 'tm) sigstore \<Rightarrow> 'pb \<Rightarrow> (bytes \<times> bytes) res" where
  "extractCertInfo ss pb =
     (let raw = ss_raw_cert ss pb
      in if raw = [] then Inl (Err ''bundle has no certificate'')
         else case ss_x509 ss raw of
           Inl e \<Rightarrow> Inl (Wrap ''parse certificate'' e)
         | Inr (uris, emails) \<Rightarrow>
             (let ident = (case first_some uris of None \<Rightarrow> [] | Some u \<Rightarrow> u)
              in Inr (ss_pem ss raw, if ident = [] \<and> emails \<noteq> [] then hd emails else ident)))"

definition FulcioSign :: "('pb, 'tm) sigstore \<Rightarrow> fulcio_opts \<Rightarrow> bytes \<Rightarrow> signature_bundle res" where
  "FulcioSign ss opts payload =
     and_then (wrap_err ''generate ephemeral keypair'' (ss_keypair ss)) (\<lambda>_.
     and_then (wrap_err ''sigstore bundle signing'' (ss_bundle ss payload opts (fo_RekorURL opts \<noteq> []))) (\<lambda>pb.
     and_then (wrap_err ''marshal bundle'' (ss_marshal ss pb)) (\<lambda>json.
     and_then (extractCertInfo ss pb) (\<lambda>(certPEM, ident).
       Inr \<lparr>sb_SignatureHex = hex_encode (ss_signature ss pb), sb_CertificatePEM = certPEM,
            sb_RekorLogIndex = (case ss_tlog ss pb of [] \<Rightarrow> - 1 | i # _ \<Rightarrow> i),
            sb_SignerIdentity = ident, sb_SignerType = ''fulcio'', sb_BundleJSON = json\<rparr>))))"

definition fulcio_signer :: "('pb, 'tm) sigstore \<Rightarrow> fulcio_opts \<Rightarrow> signer" where
  "fulcio_signer ss opts =
     \<lparr>s_Sign = FulcioSign ss opts, s_Identity = ''fulcio:'' @ fo_FulcioURL opts, s_Type = ''fulcio''\<rparr>"

definition ParseFulcioBundle :: "('pb, 'tm) sigstore \<Rightarrow> bytes \<Rightarrow> 'pb res" where
  "ParseFulcioBundle ss json =
     and_then (wrap_err ''unmarshal bundle JSON'' (ss_unmarshal ss json)) (ss_new_bundle ss)"

record fulcio_verifier_opts =
  fv_TrustedRootJSON :: bytes
  fv_RequireTlog :: bool
  fv_ExpectedOIDCIssuer :: bytes
  fv_ExpectedSAN :: bytes

definition NewFulcioVerifier ::
  "('pb, 'tm) sigstore \<Rightarrow> fulcio_verifier_opts \<Rightarrow> (fulcio_verifier_opts \<times> 'tm) res" where
  "NewFulcioVerifier ss opts =
     (if fv_TrustedRootJSON opts = []
      then Inl (Err ''TrustedRootJSON is required; fetch via TUF or embed a static root JSON'')
      else and_then (wrap_err ''load trusted root'' (ss_trusted_root ss (fv_TrustedRootJSON opts)))
             (\<lambda>tm. Inr (opts, tm)))"

definition FulcioVerify ::
  "('pb, 'tm) sigstore \<Rightarrow> fulcio_verifier_opts \<times> 'tm \<Rightarrow> verifier" where
  "FulcioVerify ss v payload b =
     (case v of (opts, tm) \<Rightarrow>
      if sb_SignerType b \<noteq> ''fulcio'' then Inl (Err (''expected fulcio bundle, got '' @ go_quote (sb_SignerType b)))
      else if sb_BundleJSON b = [] then Inl (Err ''BundleJSON is required for Fulcio verification'')
      else
        and_then (wrap_err ''parse bundle'' (ParseFulcioBundle ss (sb_BundleJSON b))) (\<lambda>sb.
        and_then (wrap_err ''create verifier'' (ss_verifier ss tm (fv_RequireTlog opts))) (\<lambda>_.
        let pinned = fv_ExpectedOIDCIssuer opts \<noteq> [] \<and> fv_ExpectedSAN opts \<noteq> [];
            policy = (if pinned then Some (fv_ExpectedOIDCIssuer opts, fv_ExpectedSAN opts) else None)
        in and_then (if pinned then wrap_err ''build SAN matcher'' (ss_san_matcher ss (fv_ExpectedSAN opts)) else Inr ()) (\<lambda>_.
           and_then (if pinned then wrap_err ''build certificate identity''
                       (ss_cert_identity ss (fv_ExpectedSAN opts) (fv_ExpectedOIDCIssuer opts)) else Inr ()) (\<lambda>_.
           wrap_err ''bundle verification failed'' (ss_verify ss tm (fv_RequireTlog opts) policy payload sb))))))"

end
