(* ===== verification/GoFloat.thy ===== *)
theory GoFloat
  imports GoJson Complex_Main
begin

text \<open>
  The \<^verbatim>\<open>float64\<close> of Go: IEEE 754 binary64 with round-half-to-even, its arithmetic and comparisons,
  the shortest decimal that \<^verbatim>\<open>encoding/json\<close> prints for a value, and the reading of a JSON number.
  A finite value is the rational it denotes; the rationals that occur are the results of the rounding
  function \<open>fl\<close>.
\<close>

section \<open>Values and rounding\<close>

datatype f64 = Fin rat | NegZero | PInf | NInf | NaN

definition pow2r :: "int \<Rightarrow> rat" where
  "pow2r e = (if 0 \<le> e then 2 ^ nat e else 1 / 2 ^ nat (- e))"

definition pow10r :: "int \<Rightarrow> rat" where
  "pow10r e = (if 0 \<le> e then 10 ^ nat e else 1 / 10 ^ nat (- e))"

function bitlen :: "int \<Rightarrow> int" where
  "bitlen n = (if n \<le> 0 then 0 else bitlen (n div 2) + 1)"
  by pat_completeness auto
termination by (relation "measure nat") auto

declare bitlen.simps [simp del]

definition round_half_even :: "rat \<Rightarrow> int" where
  "round_half_even q =
     (let k = \<lfloor>q\<rfloor>; r = q - of_int k
      in if r < 1 / 2 then k else if r > 1 / 2 then k + 1 else if even k then k else k + 1)"

text \<open>The exponent that gives a 53-bit significand, not below the subnormal one.\<close>

definition fl_exp :: "rat \<Rightarrow> int" where
  "fl_exp q =
     (case quotient_of q of (a, b) \<Rightarrow>
        let e = bitlen a - bitlen b - 53;
            e' = (if q / pow2r e \<ge> 2 ^ 53 then e + 1 else e)
        in max (- 1074) e')"

definition fl :: "rat \<Rightarrow> f64" where
  "fl q =
     (if q = 0 then Fin 0
      else let e = fl_exp \<bar>q\<bar>; v = of_int (round_half_even (\<bar>q\<bar> / pow2r e)) * pow2r e
           in if v \<ge> 2 ^ 1024 then (if q < 0 then NInf else PInf)
              else if v = 0 then (if q < 0 then NegZero else Fin 0)
              else Fin (if q < 0 then - v else v))"

text \<open>A finite value the machine can hold.\<close>

definition is_f64 :: "f64 \<Rightarrow> bool" where
  "is_f64 x = (case x of Fin q \<Rightarrow> fl q = Fin q | _ \<Rightarrow> True)"

definition is_finite :: "f64 \<Rightarrow> bool" where
  "is_finite x = (case x of Fin _ \<Rightarrow> True | NegZero \<Rightarrow> True | _ \<Rightarrow> False)"

section \<open>Arithmetic\<close>

definition neg_bit :: "f64 \<Rightarrow> bool" where
  "neg_bit x = (case x of Fin q \<Rightarrow> q < 0 | NegZero \<Rightarrow> True | NInf \<Rightarrow> True | _ \<Rightarrow> False)"

text \<open>The absolute value of a finite number, \<open>None\<close> for an infinity.\<close>

definition magnitude :: "f64 \<Rightarrow> rat option" where
  "magnitude x = (case x of Fin q \<Rightarrow> Some \<bar>q\<bar> | NegZero \<Rightarrow> Some 0 | _ \<Rightarrow> None)"

definition fneg :: "f64 \<Rightarrow> f64" where
  "fneg x = (case x of Fin q \<Rightarrow> (if q = 0 then NegZero else Fin (- q)) | NegZero \<Rightarrow> Fin 0 | PInf \<Rightarrow> NInf
             | NInf \<Rightarrow> PInf | NaN \<Rightarrow> NaN)"

definition with_sign :: "bool \<Rightarrow> f64 \<Rightarrow> f64" where
  "with_sign s x = (if s then fneg x else x)"

definition fabs :: "f64 \<Rightarrow> f64" where
  "fabs x = with_sign (neg_bit x) x"

definition f_of_int :: "int \<Rightarrow> f64" where
  "f_of_int i = fl (of_int i)"

definition fval :: "f64 \<Rightarrow> rat" where
  "fval x = (case x of Fin q \<Rightarrow> q | _ \<Rightarrow> 0)"

definition fadd :: "f64 \<Rightarrow> f64 \<Rightarrow> f64" where
  "fadd x y =
     (if x = NaN \<or> y = NaN then NaN
      else if \<not> is_finite x then (if \<not> is_finite y \<and> y \<noteq> x then NaN else x)
      else if \<not> is_finite y then y
      else if fval x + fval y = 0 then (if neg_bit x \<and> neg_bit y then NegZero else Fin 0)
      else fl (fval x + fval y))"

definition fsub :: "f64 \<Rightarrow> f64 \<Rightarrow> f64" where
  "fsub x y = fadd x (fneg y)"

definition fmul :: "f64 \<Rightarrow> f64 \<Rightarrow> f64" where
  "fmul x y =
     (if x = NaN \<or> y = NaN then NaN
      else with_sign (neg_bit x \<noteq> neg_bit y)
        (case (magnitude x, magnitude y) of
           (Some p, Some q) \<Rightarrow> fl (p * q)
         | (None, Some q) \<Rightarrow> (if q = 0 then NaN else PInf)
         | (Some p, None) \<Rightarrow> (if p = 0 then NaN else PInf)
         | (None, None) \<Rightarrow> PInf))"

definition fdiv :: "f64 \<Rightarrow> f64 \<Rightarrow> f64" where
  "fdiv x y =
     (if x = NaN \<or> y = NaN then NaN
      else with_sign (neg_bit x \<noteq> neg_bit y)
        (case (magnitude x, magnitude y) of
           (Some p, Some q) \<Rightarrow> (if q = 0 then (if p = 0 then NaN else PInf) else fl (p / q))
         | (None, Some q) \<Rightarrow> PInf
         | (Some p, None) \<Rightarrow> Fin 0
         | (None, None) \<Rightarrow> NaN))"

definition flt :: "f64 \<Rightarrow> f64 \<Rightarrow> bool" where
  "flt x y =
     (if x = NaN \<or> y = NaN then False
      else if x = NInf then y \<noteq> NInf
      else if x = PInf then False
      else if y = PInf then True
      else if y = NInf then False
      else fval x < fval y)"

definition feq :: "f64 \<Rightarrow> f64 \<Rightarrow> bool" where
  "feq x y =
     (if x = NaN \<or> y = NaN then False
      else if is_finite x \<and> is_finite y then fval x = fval y else x = y)"

definition fle :: "f64 \<Rightarrow> f64 \<Rightarrow> bool" where
  "fle x y = (flt x y \<or> feq x y)"

text \<open>The comparison operators of \<^verbatim>\<open>float64\<close>. They are no order: \<^verbatim>\<open>NaN\<close> compares to nothing, itself included.\<close>

instantiation f64 :: ord
begin

definition less_f64 :: "f64 \<Rightarrow> f64 \<Rightarrow> bool" where
  "less_f64 = flt"

definition less_eq_f64 :: "f64 \<Rightarrow> f64 \<Rightarrow> bool" where
  "less_eq_f64 = fle"

instance ..

end

lemma NaN_unordered [simp]: "\<not> NaN < x" "\<not> x < NaN" "\<not> NaN \<le> x" "\<not> x \<le> NaN"
  by (simp_all add: less_f64_def less_eq_f64_def flt_def fle_def feq_def)

section \<open>The shortest decimal\<close>

text \<open>A positive decimal \<open>k * 10 ^ e\<close>.\<close>

definition dec_val :: "int \<times> int \<Rightarrow> rat" where
  "dec_val d = of_int (fst d) * pow10r (snd d)"

function strip10 :: "int \<times> int \<Rightarrow> int \<times> int" where
  "strip10 (k, e) = (if 0 < k \<and> k mod 10 = 0 then strip10 (k div 10, e + 1) else (k, e))"
  by pat_completeness auto
termination by (relation "measure (\<lambda>(k, e). nat k)") auto

declare strip10.simps [simp del]

text \<open>The finite decimal expansion of a binary64 value.\<close>

definition exact_decimal :: "rat \<Rightarrow> int \<times> int" where
  "exact_decimal q =
     (let e = fl_exp q; m = round_half_even (q / pow2r e)
      in if 0 \<le> e then (m * 2 ^ nat e, 0) else (m * 5 ^ nat (- e), e))"

text \<open>The power of ten \<open>p\<close> with \<open>10 ^ (p - 1) \<le> q < 10 ^ p\<close>.\<close>

definition dec_exp :: "rat \<Rightarrow> int" where
  "dec_exp q =
     (case quotient_of q of (a, b) \<Rightarrow>
        let e = int (length (itoa a)) - int (length (itoa b))
        in if q \<ge> pow10r e then e + 1 else e)"

text \<open>
  The decimal with \<open>n\<close> digits closest to \<open>q\<close> among the two around it that round to \<open>q\<close>; more digits
  are tried up to 17, which are always enough for a binary64 value.
\<close>

definition closest_with :: "rat \<Rightarrow> nat \<Rightarrow> (int \<times> int) option" where
  "closest_with q n =
     (let e = dec_exp q - int n; k = \<lfloor>q / pow10r e\<rfloor>;
          lo = (k, e); hi = (k + 1, e);
          okl = (fl (dec_val lo) = Fin q); okh = (fl (dec_val hi) = Fin q)
      in if okl \<and> okh then
           (if dec_val hi - q < q - dec_val lo \<or> (dec_val hi - q = q - dec_val lo \<and> odd k)
            then Some hi else Some lo)
         else if okl then Some lo else if okh then Some hi else None)"

definition shortest :: "rat \<Rightarrow> int \<times> int" where
  "shortest q =
     strip10 (case List.find (\<lambda>d. d \<noteq> None) (map (closest_with q) [1..<18]) of
                Some (Some d) \<Rightarrow> d | _ \<Rightarrow> exact_decimal q)"

text \<open>\<^verbatim>\<open>'f'\<close> between \<open>1e-6\<close> and \<open>1e21\<close>, otherwise \<^verbatim>\<open>'e'\<close> without a leading zero in the
  exponent.\<close>

definition fmt_f :: "int \<times> int \<Rightarrow> bytes" where
  "fmt_f d =
     (case d of (k, e) \<Rightarrow>
        if 0 \<le> e then itoa (k * 10 ^ nat e)
        else itoa (k div 10 ^ nat (- e)) @ ''.'' @ pad_zero (nat (- e)) (itoa (k mod 10 ^ nat (- e))))"

definition fmt_e :: "int \<times> int \<Rightarrow> bytes" where
  "fmt_e d =
     (case d of (k, e) \<Rightarrow>
        let ds = itoa k; x = e + int (length ds) - 1
        in take 1 ds @ (if length ds > 1 then ''.'' @ drop 1 ds else []) @ ''e'' @
           (if x < 0 then ''-'' else ''+'') @ itoa \<bar>x\<bar>)"

definition fmt_pos :: "rat \<Rightarrow> bytes" where
  "fmt_pos q = (if q < 1 / 10 ^ 6 \<or> q \<ge> 10 ^ 21 then fmt_e (shortest q) else fmt_f (shortest q))"

definition json_float :: "f64 \<Rightarrow> bytes res" where
  "json_float x =
     (case x of
        Fin q \<Rightarrow> Inr (if q = 0 then ''0'' else if q < 0 then ''-'' @ fmt_pos (- q) else fmt_pos q)
      | NegZero \<Rightarrow> Inr ''-0''
      | _ \<Rightarrow> Inl (Foreign ''json: unsupported value''))"

section \<open>Reading a JSON number\<close>

definition lit_exp :: "bytes \<Rightarrow> int" where
  "lit_exp s =
     (case s of c # g # t \<Rightarrow>
        (if g = CHR ''-'' then - int (digits_val t)
         else if g = CHR ''+'' then int (digits_val t) else int (digits_val (g # t)))
      | _ \<Rightarrow> 0)"

text \<open>\<^verbatim>\<open>strconv.ParseFloat(literal, 64)\<close>: an error when the value rounds to an infinity.\<close>

definition parse_float :: "bytes \<Rightarrow> f64 option" where
  "parse_float s =
     (case scan_sign s of (g, s1) \<Rightarrow>
      case scan_int s1 of None \<Rightarrow> None | Some (i, s2) \<Rightarrow>
      case scan_frac s2 of None \<Rightarrow> None | Some (f, s3) \<Rightarrow>
      case scan_exp s3 of None \<Rightarrow> None | Some (e, s4) \<Rightarrow>
        if s4 \<noteq> [] then None
        else let fd = drop 1 f; m = digits_val (i @ fd);
                 x = fl (of_nat m * pow10r (lit_exp e - int (length fd)))
             in if x = PInf then None else Some (with_sign (g \<noteq> []) x))"

definition dec_float64 :: "jval \<Rightarrow> f64 res" where
  "dec_float64 v = (case v of JNum n \<Rightarrow> or_fail json_type (parse_float n) | _ \<Rightarrow> Inl json_type)"

section \<open>Printing and reading back\<close>

lemma pow2r_pos [simp]: "0 < pow2r e"
  by (simp add: pow2r_def)

lemma pow10r_pos [simp]: "0 < pow10r e"
  by (simp add: pow10r_def)

lemma pow10r_Suc: "pow10r (e + 1) = 10 * pow10r e"
proof -
  consider "0 \<le> e" | "e = - 1" | "e < - 1" by linarith
  then show ?thesis
  proof cases
    case 1
    then show ?thesis by (simp add: pow10r_def nat_add_distrib)
  next
    case 3
    then have "nat (- e) = Suc (nat (- (e + 1)))" by linarith
    with 3 show ?thesis by (simp add: pow10r_def)
  qed (simp add: pow10r_def)
qed

lemma pow10r_add_nat: "pow10r (e + int n) = pow10r e * 10 ^ n"
proof (induction n)
  case (Suc n)
  have "pow10r (e + int (Suc n)) = pow10r (e + int n + 1)" by (simp add: algebra_simps)
  with Suc show ?case by (simp only: pow10r_Suc) simp
qed simp

lemma dec_val_strip10: "dec_val (strip10 d) = dec_val d"
proof (induction d rule: strip10.induct)
  case (1 k e)
  show ?case
  proof (cases "0 < k \<and> k mod 10 = 0")
    case True
    then have "k = 10 * (k div 10)" by presburger
    then have "of_int k = (10 :: rat) * of_int (k div 10)" by (metis of_int_mult of_int_numeral)
    with True 1 show ?thesis by (subst strip10.simps) (simp add: dec_val_def pow10r_Suc)
  next
    case False
    then have "strip10 (k, e) = (k, e)" by (subst strip10.simps) auto
    then show ?thesis by simp
  qed
qed

lemma strip10_pos: "0 < fst d \<Longrightarrow> 0 < fst (strip10 d)"
proof (induction d rule: strip10.induct)
  case (1 k e)
  show ?case
  proof (cases "0 < k \<and> k mod 10 = 0")
    case True
    then have "0 < k div 10" by presburger
    with True 1 show ?thesis by (subst strip10.simps) simp
  next
    case False
    then have "strip10 (k, e) = (k, e)" by (subst strip10.simps) auto
    with 1 show ?thesis by simp
  qed
qed

lemma fl_value:
  assumes "fl q = Fin q" and "0 < q"
  shows "q = of_int (round_half_even (q / pow2r (fl_exp q))) * pow2r (fl_exp q)"
  using assms by (auto simp: fl_def Let_def split: if_splits)

lemma exact_decimal_value:
  assumes "fl q = Fin q" and "0 < q"
  shows "dec_val (exact_decimal q) = q"
proof -
  define e where "e = fl_exp q"
  define m where "m = round_half_even (q / pow2r e)"
  have q: "q = of_int m * pow2r e" using fl_value [OF assms] by (simp add: e_def m_def)
  show ?thesis
  proof (cases "0 \<le> e")
    case True
    have "dec_val (exact_decimal q) = of_int (m * 2 ^ nat e)"
      using True by (simp add: exact_decimal_def Let_def e_def [symmetric] m_def [symmetric] dec_val_def pow10r_def)
    also have "\<dots> = q" using q True by (simp add: pow2r_def)
    finally show ?thesis .
  next
    case False
    have "(10 :: rat) ^ nat (- e) = 5 ^ nat (- e) * 2 ^ nat (- e)"
      by (metis mult_2 numeral_Bit0 numeral_times_numeral power_mult_distrib semiring_norm(12) mult.commute num_double)
    then have "dec_val (exact_decimal q) = of_int m / 2 ^ nat (- e)"
      using False by (simp add: exact_decimal_def Let_def e_def [symmetric] m_def [symmetric] dec_val_def pow10r_def)
    also have "\<dots> = q" using False by (subst q) (simp add: pow2r_def)
    finally show ?thesis .
  qed
qed

lemma closest_with_sound: "closest_with q n = Some d \<Longrightarrow> fl (dec_val d) = Fin q"
  by (auto simp: closest_with_def Let_def split: if_splits)

lemma find_member: "List.find p xs = Some x \<Longrightarrow> x \<in> set xs \<and> p x"
  by (auto simp: find_Some_iff)

lemma shortest_sound:
  assumes "fl q = Fin q" and "0 < q"
  shows "fl (dec_val (shortest q)) = Fin q"
proof (cases "List.find (\<lambda>d. d \<noteq> None) (map (closest_with q) [1..<18])")
  case None
  then show ?thesis using exact_decimal_value [OF assms] assms(1)
    by (simp add: shortest_def dec_val_strip10)
next
  case (Some x)
  then have "x \<in> set (map (closest_with q) [1..<18]) \<and> x \<noteq> None"
    by (rule find_member)
  then obtain n where "x = closest_with q n" "x \<noteq> None" by auto
  then obtain d where "x = Some d" "fl (dec_val d) = Fin q" using closest_with_sound by fastforce
  with Some show ?thesis by (simp add: shortest_def dec_val_strip10)
qed

lemma fl_nonpos: "q \<le> 0 \<Longrightarrow> fl q = Fin r \<Longrightarrow> r \<le> 0"
proof -
  assume q: "q \<le> 0" "fl q = Fin r"
  have "0 \<le> round_half_even x" if "0 \<le> x" for x
    using that by (auto simp: round_half_even_def Let_def)
  then have "0 \<le> of_int (round_half_even (\<bar>q\<bar> / pow2r (fl_exp \<bar>q\<bar>))) * pow2r (fl_exp \<bar>q\<bar>)"
    by (intro mult_nonneg_nonneg) (simp_all add: less_imp_le)
  with q show "r \<le> 0" by (auto simp: fl_def Let_def split: if_splits)
qed

lemma shortest_pos:
  assumes "fl q = Fin q" and "0 < q"
  shows "0 < fst (shortest q)"
proof (rule ccontr)
  assume "\<not> 0 < fst (shortest q)"
  then have "dec_val (shortest q) \<le> 0" by (simp add: dec_val_def mult_nonpos_nonneg less_imp_le)
  with fl_nonpos shortest_sound [OF assms] assms(2) show False by fastforce
qed

lemma fl_minus: "q \<noteq> 0 \<Longrightarrow> fl (- q) = fneg (fl q)"
  by (auto simp: fl_def fneg_def Let_def)

text \<open>Scanning the parts of a printed number.\<close>

definition digit_stop :: "bytes \<Rightarrow> bool" where
  "digit_stop s = (s = [] \<or> \<not> is_digit (hd s))"

lemma digits_prefix_stop:
  "list_all is_digit s \<Longrightarrow> s \<noteq> [] \<Longrightarrow> digit_stop r \<Longrightarrow> digits_prefix (s @ r) = Some (s, r)"
  by (simp add: digits_prefix_def digit_stop_def takeWhile_stop takeWhile_all)

lemma scan_int_nat: "digit_stop r \<Longrightarrow> scan_int (itoa_nat n @ r) = Some (itoa_nat n, r)"
proof -
  assume r: "digit_stop r"
  obtain d ds where d: "itoa_nat n = d # ds" by (cases "itoa_nat n") (use itoa_nat_nonempty in auto)
  show ?thesis
  proof (cases "d = CHR ''0''")
    case True
    with scan_int_itoa_nat [of n] d show ?thesis by (simp add: scan_int_def)
  next
    case False
    with digits_prefix_stop [OF itoa_nat_digits itoa_nat_nonempty r, of n] d show ?thesis
      by (simp add: scan_int_def)
  qed
qed

lemma itoa_nonneg: "0 \<le> i \<Longrightarrow> itoa i = itoa_nat (nat i)"
  by (simp add: itoa_def)

lemma digit_zero [simp]: "is_digit CHR ''0''"
  by (simp add: is_digit_def)

lemma pad_zero_props:
  assumes "n < 10 ^ j" and "0 < j"
  shows "length (pad_zero j (itoa_nat n)) = j" "list_all is_digit (pad_zero j (itoa_nat n))"
    "digits_val (pad_zero j (itoa_nat n)) = n"
  using itoa_nat_len [OF assms] itoa_nat_digits [of n]
  by (auto simp: pad_zero_def digits_val_zero_prefix list_all_iff)

lemma scan_sign_itoa_nat: "scan_sign (itoa_nat n @ r) = ([], itoa_nat n @ r)"
  using itoa_nat_hd [of n] itoa_nat_nonempty [of n]
  by (cases "itoa_nat n") (auto simp: scan_sign_def dest: is_digit_not_sign)

text \<open>Both formats of a positive decimal read back as its value.\<close>

definition reads :: "bytes \<Rightarrow> int \<times> int \<Rightarrow> bool" where
  "reads s d = (\<exists>i f e. scan_sign s = ([], s) \<and> is_digit (hd s) \<and> s \<noteq> [] \<and> s = i @ f @ e \<and>
                 scan_int s = Some (i, f @ e) \<and> scan_frac (f @ e) = Some (f, e) \<and> scan_exp e = Some (e, []) \<and>
                 of_nat (digits_val (i @ drop 1 f)) * pow10r (lit_exp e - int (length (drop 1 f))) = dec_val d)"

lemma reads_number: "reads s d \<Longrightarrow> scan_number s = Some (s, []) \<and> scan_number (CHR ''-'' # s) = Some (CHR ''-'' # s, [])"
  by (auto simp: reads_def scan_number_def scan_sign_def split: list.splits)

lemma reads_parse:
  "reads s d \<Longrightarrow> fl (dec_val d) = Fin q \<Longrightarrow>
     parse_float s = Some (Fin q) \<and> parse_float (CHR ''-'' # s) = Some (fneg (Fin q))"
  by (auto simp: reads_def parse_float_def scan_sign_def with_sign_def split: list.splits)

lemma hd_itoa_append: "hd (itoa_nat n @ r) = hd (itoa_nat n)"
  by (cases "itoa_nat n") (use itoa_nat_nonempty in auto)

lemma reads_fmt_f:
  assumes "0 < fst d"
  shows "reads (fmt_f d) d"
proof (cases d)
  case (Pair k e)
  show ?thesis
  proof (cases "0 \<le> e")
    case True
    define n where "n = nat (k * 10 ^ nat e)"
    have txt1: "fmt_f d = itoa_nat n" using Pair True assms by (simp add: fmt_f_def itoa_nonneg n_def)
    have "of_nat n * pow10r (lit_exp [] - int (length (drop 1 []))) = dec_val d"
      using Pair True assms by (simp add: lit_exp_def pow10r_def dec_val_def n_def)
    then show ?thesis
      unfolding reads_def txt1 using scan_int_itoa_nat [of n] scan_sign_itoa_nat [of n "[]"] itoa_nat_hd [of n]
      by (intro exI [of _ "itoa_nat n"] exI [of _ "[]"]) (simp add: scan_frac_def scan_exp_def)
  next
    case False
    define j where "j = nat (- e)"
    define m where "m = nat k"
    define a where "a = m div 10 ^ j"
    define p where "p = pad_zero j (itoa_nat (m mod 10 ^ j))"
    have j: "0 < j" "e = - int j" using False by (simp_all add: j_def)
    have k: "k = int m" using assms Pair by (simp add: m_def)
    have txt1: "fmt_f d = itoa_nat a @ CHR ''.'' # p"
    proof -
      have "k div 10 ^ j = int a" "k mod 10 ^ j = int (m mod 10 ^ j)"
        unfolding a_def k by (simp_all add: zdiv_int zmod_int)
      then show ?thesis using Pair False by (simp add: fmt_f_def p_def itoa_def flip: j_def)
    qed
    have p: "length p = j" "list_all is_digit p" "digits_val p = m mod 10 ^ j" "p \<noteq> []"
      using pad_zero_props [of "m mod 10 ^ j" j] j by (auto simp: p_def)
    have "digits_val (itoa_nat a @ p) = m" using p div_mult_mod_eq [of m "10 ^ j"]
      by (simp only: digits_val_app a_def itoa_nat_val)
    then have v: "of_nat (digits_val (itoa_nat a @ drop 1 (CHR ''.'' # p))) *
        pow10r (lit_exp [] - int (length (drop 1 (CHR ''.'' # p)))) = dec_val d"
      using p j Pair k by (simp add: lit_exp_def dec_val_def)
    have "digits_prefix p = Some (p, [])"
      using digits_prefix_stop [OF p(2,4), of "[]"] by (simp add: digit_stop_def)
    moreover have "scan_int (itoa_nat a @ CHR ''.'' # p) = Some (itoa_nat a, CHR ''.'' # p)"
      by (rule scan_int_nat) (simp add: digit_stop_def is_digit_def)
    ultimately show ?thesis
      unfolding reads_def txt1
      by (intro exI [of _ "itoa_nat a"] exI [of _ "CHR ''.'' # p"] exI [of _ "[]"])
        (use v scan_sign_itoa_nat itoa_nat_hd in \<open>simp add: scan_frac_def scan_exp_def hd_itoa_append\<close>)
  qed
qed

lemma lit_exp_itoa: "lit_exp (CHR ''e'' # (if x < 0 then CHR ''-'' else CHR ''+'') # itoa \<bar>x\<bar>) = x"
  by (auto simp: lit_exp_def itoa_def)

lemma scan_exp_itoa:
  "scan_exp (CHR ''e'' # (if x < 0 then CHR ''-'' else CHR ''+'') # itoa \<bar>x\<bar>) =
     Some (CHR ''e'' # (if x < 0 then CHR ''-'' else CHR ''+'') # itoa \<bar>x\<bar>, [])"
proof -
  have "digits_prefix (itoa \<bar>x\<bar>) = Some (itoa \<bar>x\<bar>, [])"
    using digits_prefix_stop [OF itoa_nat_digits itoa_nat_nonempty, of "[]" "nat \<bar>x\<bar>"]
    by (simp add: digit_stop_def itoa_def)
  then show ?thesis by (simp add: scan_exp_def)
qed

lemma itoa_nat_first: "0 < n \<Longrightarrow> hd (itoa_nat n) \<noteq> CHR ''0''"
proof
  assume n: "0 < n" "hd (itoa_nat n) = CHR ''0''"
  obtain ds where d: "itoa_nat n = CHR ''0'' # ds" using n(2) itoa_nat_nonempty [of n] by (cases "itoa_nat n") auto
  with scan_int_itoa_nat [of n] have "ds = []" by (simp add: scan_int_def)
  with d itoa_nat_val [of n] n(1) show False by (simp add: digits_val_def digit_val_def)
qed

lemma reads_fmt_e:
  assumes "0 < fst d"
  shows "reads (fmt_e d) d"
proof (cases d)
  case (Pair k e)
  define n where "n = nat k"
  have k: "k = int n" "0 < n" using assms Pair by (simp_all add: n_def)
  obtain c ds where cds: "itoa_nat n = c # ds" using itoa_nat_nonempty [of n] by (cases "itoa_nat n") auto
  have c: "is_digit c" "list_all is_digit ds" "c \<noteq> CHR ''0''"
    using itoa_nat_digits [of n] itoa_nat_first [OF k(2)] cds by simp_all
  define x where "x = e + int (length ds)"
  define f where "f = (if ds = [] then [] else CHR ''.'' # ds)"
  define ex where "ex = CHR ''e'' # (if x < 0 then CHR ''-'' else CHR ''+'') # itoa \<bar>x\<bar>"
  have txt1: "fmt_e d = [c] @ f @ ex"
    using Pair k cds by (auto simp: fmt_e_def itoa_def Let_def x_def f_def ex_def)
  have stop: "digit_stop ex" "digit_stop (f @ ex)"
    by (simp_all add: ex_def f_def digit_stop_def is_digit_def)
  have fr: "scan_frac (f @ ex) = Some (f, ex)"
    using digits_prefix_stop [OF c(2) _ stop(1)] by (simp add: scan_frac_def f_def) (simp add: ex_def)
  have i: "scan_int ([c] @ f @ ex) = Some ([c], f @ ex)"
    using digits_prefix_stop [of "[c]" "f @ ex"] c stop(2) by (simp add: scan_int_def)
  have e: "scan_exp ex = Some (ex, [])" unfolding ex_def by (rule scan_exp_itoa)
  have "drop 1 f = ds" by (simp add: f_def)
  moreover have "digits_val (c # ds) = n" using cds itoa_nat_val [of n] by simp
  moreover have "lit_exp ex = x" unfolding ex_def by (rule lit_exp_itoa)
  ultimately have "of_nat (digits_val ([c] @ drop 1 f)) * pow10r (lit_exp ex - int (length (drop 1 f))) = dec_val d"
    using Pair k by (simp add: dec_val_def x_def)
  moreover have "scan_sign ([c] @ f @ ex) = ([], [c] @ f @ ex)"
    using c(1) by (auto simp: scan_sign_def dest: is_digit_not_sign)
  ultimately show ?thesis
    unfolding reads_def txt1 using fr i e c(1) by (intro exI [of _ "[c]"] exI [of _ f] exI [of _ ex]) simp
qed

lemma reads_fmt_pos:
  assumes "fl q = Fin q" and "0 < q"
  shows "reads (fmt_pos q) (shortest q)"
  using shortest_pos [OF assms] by (simp add: fmt_pos_def reads_fmt_e reads_fmt_f)

lemma is_f64_neg: "is_f64 (Fin q) \<Longrightarrow> q < 0 \<Longrightarrow> fl (- q) = Fin (- q)"
  using fl_minus [of q] by (simp add: is_f64_def fneg_def)

lemma fl_0 [simp]: "fl 0 = Fin 0"
  by (simp add: fl_def)

lemma json_float_zero: "parse_float ''0'' = Some (Fin 0)" "num_ok ''0''" "parse_float ''-0'' = Some NegZero" "num_ok ''-0''"
  by (simp_all add: parse_float_def scan_sign_def scan_int_def scan_frac_def scan_exp_def lit_exp_def digits_val_def
      digit_val_def with_sign_def fneg_def num_ok_def scan_number_def)

text \<open>What \<^verbatim>\<open>json.Marshal\<close> prints for a finite value, \<^verbatim>\<open>json.Unmarshal\<close> reads back.\<close>

lemma json_float_finite: "is_finite x \<longleftrightarrow> (\<exists>s. json_float x = Inr s)"
  by (cases x) (simp_all add: is_finite_def json_float_def)

lemma parse_json_float:
  assumes "is_f64 x" and "json_float x = Inr s"
  shows "parse_float s = Some x \<and> num_ok s"
proof (cases x)
  case (Fin q)
  consider "q = 0" | "0 < q" | "q < 0" by linarith
  then show ?thesis
  proof cases
    case 2
    then have f: "fl q = Fin q" using assms(1) Fin by (simp add: is_f64_def)
    have s: "s = fmt_pos q" using assms(2) Fin 2 by (simp add: json_float_def)
    note r = reads_fmt_pos [OF f 2]
    have "is_digit (hd s)" "s \<noteq> []" using r s by (auto simp: reads_def)
    with reads_parse [OF r shortest_sound [OF f 2]] reads_number [OF r] Fin s show ?thesis by (simp add: num_ok_def)
  next
    case 3
    then have f: "fl (- q) = Fin (- q)" and p: "0 < - q" using assms(1) Fin is_f64_neg by simp_all
    have s: "s = CHR ''-'' # fmt_pos (- q)" using assms(2) Fin 3 by (simp add: json_float_def)
    note r = reads_fmt_pos [OF f p]
    have "fneg (Fin (- q)) = Fin q" using 3 by (simp add: fneg_def)
    with reads_parse [OF r shortest_sound [OF f p]] reads_number [OF r] Fin s show ?thesis by (simp add: num_ok_def)
  qed (use assms Fin in \<open>auto simp: json_float_def json_float_zero\<close>)
qed (use assms in \<open>auto simp: json_float_def json_float_zero\<close>)

definition float_text :: "f64 \<Rightarrow> bytes" where
  "float_text x = (case json_float x of Inl _ \<Rightarrow> [] | Inr s \<Rightarrow> s)"

lemma float_text_Inr: "is_finite x \<Longrightarrow> json_float x = Inr (float_text x)"
  by (auto simp: json_float_finite float_text_def)

interpretation float: codec float_text parse_float "\<lambda>x. is_f64 x \<and> is_finite x"
  by unfold_locales (metis parse_json_float float_text_Inr)

lemma num_ok_float: "is_f64 x \<Longrightarrow> is_finite x \<Longrightarrow> num_ok (float_text x)"
  using parse_json_float float_text_Inr by blast

lemma dec_float64_text [go_dec]: "is_f64 x \<Longrightarrow> is_finite x \<Longrightarrow> dec_float64 (JNum (float_text x)) = Inr x"
  by (simp add: dec_float64_def float.dec_enc)

end
