(* ===== verification/GoTime.thy ===== *)
theory GoTime
  imports GoJson
begin

text \<open>
  The part of Go's \<^verbatim>\<open>time\<close> the repository uses: an instant with its zone offset, the proleptic
  Gregorian date, the two RFC 3339 formats (\<^verbatim>\<open>time.Time.MarshalJSON\<close> and the layout of the canonical
  receipt) and the parser behind \<^verbatim>\<open>UnmarshalJSON\<close>.
\<close>

section \<open>Instants and dates\<close>

record gotime =
  t_sec :: int
  t_nsec :: int
  t_off :: int

text \<open>\<^verbatim>\<open>time.Unix(s, 0).UTC()\<close>, and the zero \<^verbatim>\<open>time.Time\<close>: January 1 of year 1.\<close>

definition unix_time :: "int \<Rightarrow> gotime" where
  "unix_time s = \<lparr>t_sec = s, t_nsec = 0, t_off = 0\<rparr>"

definition zero_time :: gotime where
  "zero_time = unix_time (- 62135596800)"

definition utc :: "gotime \<Rightarrow> gotime" where
  "utc t = t\<lparr>t_off := 0\<rparr>"

definition leap_year :: "int \<Rightarrow> bool" where
  "leap_year y = (y mod 4 = 0 \<and> (y mod 100 \<noteq> 0 \<or> y mod 400 = 0))"

definition month_lengths :: "bool \<Rightarrow> int list" where
  "month_lengths l = [31, if l then 29 else 28, 31, 30, 31, 30, 31, 31, 30, 31, 30, 31]"

text \<open>The month and the day of the month, both from 1, of a day of the year from 0.\<close>

fun split_month :: "int list \<Rightarrow> int \<Rightarrow> int \<Rightarrow> int \<times> int" where
  "split_month [] m d = (m, d + 1)"
| "split_month (l # ls) m d = (if d < l then (m, d + 1) else split_month ls (m + 1) (d - l))"

text \<open>The year and the day of the year of a day counted from January 1 of year 1.\<close>

definition year_day :: "int \<Rightarrow> int \<times> int" where
  "year_day d =
     (let a = d div 146097; r = d mod 146097;
          b = min (r div 36524) 3; r2 = r - 36524 * b;
          c = r2 div 1461; r3 = r2 - 1461 * c;
          e = min (r3 div 365) 3
      in (400 * a + 100 * b + 4 * c + e + 1, r3 - 365 * e))"

definition civil :: "int \<Rightarrow> int \<times> int \<times> int" where
  "civil d = (case year_day d of (y, n) \<Rightarrow>
     case split_month (month_lengths (leap_year y)) 1 n of (m, k) \<Rightarrow> (y, m, k))"

definition days_before_year :: "int \<Rightarrow> int" where
  "days_before_year y = (let p = y - 1 in 365 * p + p div 4 - p div 100 + p div 400)"

definition days_civil :: "int \<Rightarrow> int \<Rightarrow> int \<Rightarrow> int" where
  "days_civil y m k =
     days_before_year y + sum_list (take (nat (m - 1)) (month_lengths (leap_year y))) + k - 1"

text \<open>The days from January 1 of year 1 to the Unix epoch.\<close>

definition epoch_days :: int where
  "epoch_days = 719162"

section \<open>Formatting\<close>

definition pad_int :: "nat \<Rightarrow> int \<Rightarrow> bytes" where
  "pad_int n i = (if i < 0 then CHR ''-'' # pad_zero n (itoa (- i)) else pad_zero n (itoa i))"

definition fraction :: "int \<Rightarrow> bytes" where
  "fraction n = (if n = 0 then [] else ''.'' @ trim_right_char (CHR ''0'') (pad_int 9 n))"

text \<open>The date and time of the instant at the given offset, without the zone.\<close>

definition date_time :: "int \<Rightarrow> int \<Rightarrow> bytes" where
  "date_time s n =
     (case civil (s div 86400 + epoch_days) of (y, m, k) \<Rightarrow>
        let r = s mod 86400
        in pad_int 4 y @ ''-'' @ pad_int 2 m @ ''-'' @ pad_int 2 k @ ''T'' @
           pad_int 2 (r div 3600) @ '':'' @ pad_int 2 (r mod 3600 div 60) @ '':'' @ pad_int 2 (r mod 60) @
           fraction n)"

text \<open>\<^verbatim>\<open>t.UTC().Format("2006-01-02T15:04:05.999999999Z")\<close>.\<close>

definition canonical_time :: "gotime \<Rightarrow> bytes" where
  "canonical_time t = date_time (t_sec t) (t_nsec t) @ ''Z''"

definition zone_text :: "int \<Rightarrow> bytes" where
  "zone_text off =
     (if off = 0 then ''Z''
      else let z = \<bar>off\<bar> div 60
           in (if off < 0 then ''-'' else ''+'') @ pad_int 2 (z div 60) @ '':'' @ pad_int 2 (z mod 60))"

text \<open>\<^verbatim>\<open>MarshalJSON\<close>: an error when the year does not have four digits or the offset a day.\<close>

definition year_of :: "gotime \<Rightarrow> int" where
  "year_of t = fst (civil ((t_sec t + t_off t) div 86400 + epoch_days))"

definition marshal_time :: "gotime \<Rightarrow> bytes res" where
  "marshal_time t =
     (if year_of t < 0 \<or> year_of t > 9999 \<or> \<bar>t_off t\<bar> \<ge> 86400
      then Inl (Foreign ''Time.MarshalJSON: out of range'')
      else Inr (date_time (t_sec t + t_off t) (t_nsec t) @ zone_text (t_off t)))"

section \<open>Parsing\<close>

text \<open>\<open>num w s\<close>: exactly \<open>w\<close> digits.\<close>

definition num :: "nat \<Rightarrow> bytes \<Rightarrow> (int \<times> bytes) option" where
  "num w s =
     (if w \<le> length s \<and> list_all is_digit (take w s) then Some (int (digits_val (take w s)), drop w s) else None)"

definition lit_char :: "char \<Rightarrow> bytes \<Rightarrow> bytes option" where
  "lit_char c s = (case s of [] \<Rightarrow> None | d # t \<Rightarrow> if d = c then Some t else None)"

text \<open>The hour may have one digit.\<close>

definition hour_num :: "bytes \<Rightarrow> (int \<times> bytes) option" where
  "hour_num s = (case num 2 s of Some x \<Rightarrow> Some x | None \<Rightarrow> num 1 s)"

text \<open>Digits after a point or a comma: the first nine count.\<close>

definition nanos :: "bytes \<Rightarrow> int \<times> bytes" where
  "nanos s =
     (case s of [] \<Rightarrow> (0, s)
      | c # t \<Rightarrow>
          (let ds = takeWhile is_digit t
           in if (c = CHR ''.'' \<or> c = CHR '','') \<and> ds \<noteq> []
              then (int (digits_val (take 9 ds)) * 10 ^ (9 - length (take 9 ds)), dropWhile is_digit t)
              else (0, s)))"

definition zone_offset :: "bytes \<Rightarrow> int option" where
  "zone_offset s =
     (if s = ''Z'' then Some 0
      else case s of [] \<Rightarrow> None
        | g # t \<Rightarrow>
            Option.bind (num 2 t) (\<lambda>(h, u). Option.bind (lit_char (CHR '':'') u) (\<lambda>v.
            Option.bind (num 2 v) (\<lambda>(m, w).
              if w = [] \<and> h \<le> 24 \<and> m \<le> 60 \<and> (g = CHR ''+'' \<or> g = CHR ''-'')
              then Some ((if g = CHR ''-'' then - 1 else 1) * ((h * 60 + m) * 60)) else None))))"

definition parse_time :: "bytes \<Rightarrow> gotime option" where
  "parse_time s =
     Option.bind (num 4 s) (\<lambda>(y, s). Option.bind (lit_char (CHR ''-'') s) (\<lambda>s.
     Option.bind (num 2 s) (\<lambda>(mo, s). Option.bind (lit_char (CHR ''-'') s) (\<lambda>s.
     Option.bind (num 2 s) (\<lambda>(dy, s). Option.bind (lit_char (CHR ''T'') s) (\<lambda>s.
     Option.bind (hour_num s) (\<lambda>(h, s). Option.bind (lit_char (CHR '':'') s) (\<lambda>s.
     Option.bind (num 2 s) (\<lambda>(mi, s). Option.bind (lit_char (CHR '':'') s) (\<lambda>s.
     Option.bind (num 2 s) (\<lambda>(sc, s).
     case nanos s of (ns, s) \<Rightarrow>
     Option.bind (zone_offset s) (\<lambda>off.
       if 1 \<le> mo \<and> mo \<le> 12 \<and> 1 \<le> dy \<and> dy \<le> month_lengths (leap_year y) ! nat (mo - 1) \<and>
          h < 24 \<and> mi < 60 \<and> sc < 60
       then Some \<lparr>t_sec = (days_civil y mo dy - epoch_days) * 86400 + h * 3600 + mi * 60 + sc - off,
                  t_nsec = ns, t_off = off\<rparr>
       else None))))))))))))"

text \<open>\<^verbatim>\<open>UnmarshalJSON\<close> parses the raw body of the string.\<close>

definition dec_time :: "jval \<Rightarrow> gotime res" where
  "dec_time v =
     (case v of JStr s \<Rightarrow> or_fail (Foreign ''parsing time'') (parse_time s)
      | _ \<Rightarrow> Inl (Foreign ''Time.UnmarshalJSON: input is not a JSON string''))"

text \<open>A UTC instant whose year has four digits.\<close>

definition time_ok :: "gotime \<Rightarrow> bool" where
  "time_ok t = (t_off t = 0 \<and> 0 \<le> t_nsec t \<and> t_nsec t < 10 ^ 9 \<and> 0 \<le> year_of t \<and> year_of t \<le> 9999)"

section \<open>The calendar\<close>

lemma year_day_parts:
  fixes d :: int
  defines "a \<equiv> d div 146097" and "r \<equiv> d mod 146097"
  defines "b \<equiv> min (r div 36524) 3"
  defines "c \<equiv> (r - 36524 * b) div 1461"
  defines "e \<equiv> min ((r - 36524 * b - 1461 * c) div 365) 3"
  shows "0 \<le> b" "b \<le> 3" "0 \<le> c" "c \<le> 24" "0 \<le> e" "e \<le> 3"
    "year_day d = (400 * a + 100 * b + 4 * c + e + 1, r - 36524 * b - 1461 * c - 365 * e)"
    "0 \<le> r - 36524 * b - 1461 * c - 365 * e"
    "r - 36524 * b - 1461 * c - 365 * e \<le> 364 \<or> (e = 3 \<and> (c < 24 \<or> b = 3) \<and> r - 36524 * b - 1461 * c - 365 * e = 365)"
proof -
  have r: "0 \<le> r" "r < 146097" by (simp_all add: r_def)
  define r2 where "r2 = r - 36524 * b"
  define r3 where "r3 = r2 - 1461 * c"
  have b: "0 \<le> b" "b \<le> 3" using r by (simp_all add: b_def)
  have r2: "0 \<le> r2" "r2 < 36524 \<or> (b = 3 \<and> r2 \<le> 36524)"
    using r by (auto simp: r2_def b_def min_def)
  have c: "c = r2 div 1461" by (simp add: c_def r2_def)
  have r3: "0 \<le> r3" "r3 < 1461" unfolding r3_def c by (simp_all add: minus_mult_div_eq_mod)
  have c24: "0 \<le> c" "c \<le> 24" using r2 c by auto
  have e: "e = min (r3 div 365) 3" by (simp add: e_def r3_def r2_def)
  have e3: "0 \<le> e" "e \<le> 3" using r3 e by auto
  show "0 \<le> b" "b \<le> 3" "0 \<le> c" "c \<le> 24" "0 \<le> e" "e \<le> 3" by fact+
  show "year_day d = (400 * a + 100 * b + 4 * c + e + 1, r - 36524 * b - 1461 * c - 365 * e)"
    unfolding year_day_def Let_def e_def c_def b_def a_def r_def by (rule refl)
  have n: "r - 36524 * b - 1461 * c - 365 * e = r3 - 365 * e" by (simp add: r3_def r2_def)
  show "0 \<le> r - 36524 * b - 1461 * c - 365 * e" unfolding n using r3 e by (auto simp: min_def)
  have "c = 24 \<and> b \<noteq> 3 \<Longrightarrow> r3 \<le> 1459" using r2 by (simp add: r3_def)
  moreover have "r3 - 365 * e \<le> 364 \<or> (e = 3 \<and> r3 = 1460)" using r3 e by (auto simp: min_def)
  ultimately show "r - 36524 * b - 1461 * c - 365 * e \<le> 364 \<or>
      (e = 3 \<and> (c < 24 \<or> b = 3) \<and> r - 36524 * b - 1461 * c - 365 * e = 365)"
    unfolding n using c24(2) by (auto simp: le_less)
qed

lemma year_day_inverse: "days_before_year (fst (year_day d)) + snd (year_day d) = d"
proof -
  note p = year_day_parts [of d]
  define a b c e where "a = d div 146097" and "b = min (d mod 146097 div 36524) 3"
    and "c = (d mod 146097 - 36524 * b) div 1461"
    and "e = min ((d mod 146097 - 36524 * b - 1461 * c) div 365) 3"
  have q: "0 \<le> b" "b \<le> 3" "0 \<le> c" "c \<le> 24" "0 \<le> e" "e \<le> 3"
    "year_day d = (400 * a + 100 * b + 4 * c + e + 1, d mod 146097 - 36524 * b - 1461 * c - 365 * e)"
    using p unfolding a_def b_def c_def e_def by blast+
  define y where "y = 400 * a + 100 * b + 4 * c + e"
  have "y div 4 = 100 * a + 25 * b + c" "y div 100 = 4 * a + b" "y div 400 = a"
    unfolding y_def using q(1-6) by linarith+
  moreover have "d = 146097 * a + d mod 146097" unfolding a_def by simp
  ultimately show ?thesis using q(7) by (simp add: days_before_year_def y_def [symmetric] Let_def) (simp add: y_def)
qed

lemma year_day_bounds:
  "0 \<le> snd (year_day d) \<and> snd (year_day d) < (if leap_year (fst (year_day d)) then 366 else 365)"
proof -
  define a b c e where "a = d div 146097" and "b = min (d mod 146097 div 36524) 3"
    and "c = (d mod 146097 - 36524 * b) div 1461"
    and "e = min ((d mod 146097 - 36524 * b - 1461 * c) div 365) 3"
  define n where "n = d mod 146097 - 36524 * b - 1461 * c - 365 * e"
  have q: "0 \<le> b" "b \<le> 3" "0 \<le> c" "c \<le> 24"
    "year_day d = (400 * a + 100 * b + 4 * c + e + 1, n)" "0 \<le> n"
    "n \<le> 364 \<or> (e = 3 \<and> (c < 24 \<or> b = 3) \<and> n = 365)"
    using year_day_parts [of d] unfolding a_def b_def c_def e_def n_def by blast+
  have "leap_year (400 * a + 100 * b + 4 * c + e + 1)" if "e = 3" "c < 24 \<or> b = 3"
  proof -
    have y: "400 * a + 100 * b + 4 * c + e + 1 = 4 * (100 * a + 25 * b + c + 1)" using that by simp
    show ?thesis
    proof (cases "c < 24")
      case True
      then have "(100 * (4 * a + b) + (4 * c + 4)) mod 100 \<noteq> 0" using q(3)
        by (subst mod_mult_self4) simp
      with y show ?thesis by (simp add: leap_year_def algebra_simps)
    next
      case False
      then have "400 * a + 100 * b + 4 * c + e + 1 = 400 * (a + 1)" using that q(4) by simp
      then show ?thesis by (simp only: leap_year_def) simp
    qed
  qed
  with q show ?thesis by auto
qed

lemma split_month_inverse:
  "0 \<le> d \<Longrightarrow> d < sum_list ls \<Longrightarrow> split_month ls m d = (m', k) \<Longrightarrow>
     m \<le> m' \<and> m' < m + int (length ls) \<and> 1 \<le> k \<and> k \<le> ls ! nat (m' - m) \<and>
     sum_list (take (nat (m' - m)) ls) + k - 1 = d"
proof (induction ls m d rule: split_month.induct)
  case (2 l ls m d)
  show ?case
  proof (cases "d < l")
    case True
    with 2 show ?thesis by auto
  next
    case False
    with 2 have "m + 1 \<le> m' \<and> m' < m + 1 + int (length ls) \<and> 1 \<le> k \<and> k \<le> ls ! nat (m' - (m + 1)) \<and>
        sum_list (take (nat (m' - (m + 1))) ls) + k - 1 = d - l"
      by auto
    moreover from this have "nat (m' - m) = Suc (nat (m' - (m + 1)))" by linarith
    ultimately show ?thesis by simp
  qed
qed simp

lemma month_lengths_sum: "sum_list (month_lengths l) = (if l then 366 else 365)"
  by (simp add: month_lengths_def)

lemma civil_inverse:
  assumes "civil d = (y, m, k)"
  shows "days_civil y m k = d \<and> 1 \<le> m \<and> m \<le> 12 \<and> 1 \<le> k \<and> k \<le> month_lengths (leap_year y) ! nat (m - 1)"
proof -
  obtain n where y: "year_day d = (y, n)" "split_month (month_lengths (leap_year y)) 1 n = (m, k)"
    using assms by (auto simp: civil_def split: prod.splits)
  have "0 \<le> n" "n < sum_list (month_lengths (leap_year y))"
    using year_day_bounds [of d] y(1) by (auto simp: month_lengths_sum split: if_splits)
  from split_month_inverse [OF this y(2)] year_day_inverse [of d] y(1)
  show ?thesis by (simp add: days_civil_def month_lengths_def)
qed

lemma month_length_bounds: "1 \<le> m \<Longrightarrow> m \<le> 12 \<Longrightarrow> month_lengths l ! nat (m - 1) \<le> 31"
proof -
  assume "1 \<le> m" "m \<le> 12"
  then have "nat (m - 1) < length (month_lengths l)" by (simp add: month_lengths_def)
  moreover have "list_all (\<lambda>x. x \<le> 31) (month_lengths l)" by (simp add: month_lengths_def)
  ultimately show ?thesis by (simp add: list_all_length)
qed

section \<open>Printing and reading back\<close>

lemma pad_int_props:
  assumes "0 \<le> i" and "i < 10 ^ w" and "0 < w"
  shows "length (pad_int w i) = w" "list_all is_digit (pad_int w i)" "digits_val (pad_int w i) = nat i"
proof -
  have "nat i < 10 ^ w" using assms by (simp add: nat_less_iff)
  then have "length (itoa_nat (nat i)) \<le> w" using itoa_nat_len assms(3) by blast
  with assms(1) itoa_nat_digits [of "nat i"]
  show "length (pad_int w i) = w" "list_all is_digit (pad_int w i)" "digits_val (pad_int w i) = nat i"
    by (auto simp: pad_int_def pad_zero_def itoa_def digits_val_zero_prefix list_all_iff is_digit_def)
qed

lemma num_pad [go_dec]: "0 \<le> i \<Longrightarrow> i < 10 ^ w \<Longrightarrow> 0 < w \<Longrightarrow> num w (pad_int w i @ s) = Some (i, s)"
  using pad_int_props [of i w] by (simp add: num_def)

lemma lit_char_Cons [go_dec]: "lit_char c (c # s) = Some s"
  by (simp add: lit_char_def)

lemma trim_zeros:
  "\<exists>k. s = trim_right_char (CHR ''0'') s @ replicate k (CHR ''0'')"
proof -
  have "rev s = takeWhile (\<lambda>x. x = CHR ''0'') (rev s) @ dropWhile (\<lambda>x. x = CHR ''0'') (rev s)" by simp
  moreover have "takeWhile (\<lambda>x. x = CHR ''0'') (rev s) =
      replicate (length (takeWhile (\<lambda>x. x = CHR ''0'') (rev s))) (CHR ''0'')"
    by (rule replicate_length_same [symmetric]) (auto dest: set_takeWhileD)
  ultimately have "s = rev (dropWhile (\<lambda>x. x = CHR ''0'') (rev s)) @
      rev (replicate (length (takeWhile (\<lambda>x. x = CHR ''0'') (rev s))) (CHR ''0''))"
    by (metis rev_append rev_rev_ident)
  then show ?thesis unfolding trim_right_char_def by (metis rev_replicate)
qed

lemma digits_val_zeros_only [simp]: "digits_val (replicate k CHR ''0'') = 0"
  using digits_val_zero_prefix [of k "[]"] by (simp add: digits_val_def)

lemma nanos_fraction [go_dec]:
  assumes "0 \<le> n" and "n < 10 ^ 9" and "s = [] \<or> \<not> is_digit (hd s)" and "s = [] \<or> hd s \<noteq> CHR ''.'' \<and> hd s \<noteq> CHR '',''"
  shows "nanos (fraction n @ s) = (n, s)"
proof (cases "n = 0")
  case True
  with assms(4) show ?thesis by (cases s) (auto simp: nanos_def fraction_def)
next
  case False
  define p where "p = pad_int 9 n"
  define t where "t = trim_right_char (CHR ''0'') p"
  obtain k where k: "p = t @ replicate k (CHR ''0'')" using trim_zeros [of p] t_def by blast
  have p: "length p = 9" "list_all is_digit p" "digits_val p = nat n"
    using pad_int_props [of n 9] assms(1,2) by (simp_all add: p_def)
  have t: "list_all is_digit t" "length t + k = 9" using p k by (simp_all add: list_all_iff)
  have v: "digits_val t * 10 ^ k = nat n" using p(3) k by (simp add: digits_val_app)
  have "t \<noteq> []" using v False assms(1) by (auto simp: digits_val_def)
  moreover have "takeWhile is_digit (t @ s) = t" "dropWhile is_digit (t @ s) = s"
    using t(1) assms(3) by (simp_all add: takeWhile_stop takeWhile_all)
  moreover have "int (digits_val t) * 10 ^ (9 - length t) = n"
  proof -
    have "9 - length t = k" using t(2) by simp
    then have "int (digits_val t) * 10 ^ (9 - length t) = int (digits_val t * 10 ^ k)" by simp
    with v assms(1) show ?thesis by simp
  qed
  ultimately show ?thesis using False t(2) by (simp add: nanos_def fraction_def p_def [symmetric] t_def [symmetric])
qed

lemma hour_num_pad [go_dec]: "0 \<le> i \<Longrightarrow> i < 100 \<Longrightarrow> hour_num (pad_int 2 i @ s) = Some (i, s)"
  by (simp add: hour_num_def num_pad)

lemma regroup: "x + r = s \<Longrightarrow> a + b + c = r \<Longrightarrow> x + a + b + c = (s :: int)"
  by simp

lemma parse_fields:
  assumes "0 \<le> y" "y \<le> 9999" and mo: "1 \<le> mo" "mo \<le> 12"
    and dy: "1 \<le> dy" "dy \<le> month_lengths (leap_year y) ! nat (mo - 1)"
    and "0 \<le> h" "h < 24" "0 \<le> mi" "mi < 60" "0 \<le> sc" "sc < 60" "0 \<le> n" "n < 10 ^ 9"
  shows "parse_time (pad_int 4 y @ ''-'' @ pad_int 2 mo @ ''-'' @ pad_int 2 dy @ ''T'' @ pad_int 2 h @ '':'' @
           pad_int 2 mi @ '':'' @ pad_int 2 sc @ fraction n @ ''Z'') =
         Some \<lparr>t_sec = (days_civil y mo dy - epoch_days) * 86400 + h * 3600 + mi * 60 + sc,
               t_nsec = n, t_off = 0\<rparr>"
proof -
  have "dy \<le> 31" using dy month_length_bounds [OF mo, of "leap_year y"] by linarith
  then show ?thesis
    using assms by (simp add: parse_time_def num_pad lit_char_Cons hour_num_pad nanos_fraction zone_offset_def is_digit_def)
qed

text \<open>A marshalled UTC time is read back.\<close>

lemma parse_date_time:
  assumes "0 \<le> n" "n < 10 ^ 9" "0 \<le> fst (civil (s div 86400 + epoch_days))" "fst (civil (s div 86400 + epoch_days)) \<le> 9999"
  shows "parse_time (date_time s n @ ''Z'') = Some \<lparr>t_sec = s, t_nsec = n, t_off = 0\<rparr>"
proof -
  obtain y m k where c: "civil (s div 86400 + epoch_days) = (y, m, k)" by (metis prod.exhaust)
  note ci = civil_inverse [OF c]
  define r where "r = s mod 86400"
  have r: "0 \<le> r" "r < 86400" by (simp_all add: r_def)
  have hms: "0 \<le> r div 3600" "r div 3600 < 24" "0 \<le> r mod 3600 div 60" "r mod 3600 div 60 < 60"
    "0 \<le> r mod 60" "r mod 60 < 60"
    using r by linarith+
  have sum: "r div 3600 * 3600 + r mod 3600 div 60 * 60 + r mod 60 = r"
  proof -
    have "r mod 3600 mod 60 = r mod 60" by (rule mod_mod_cancel) simp
    then show ?thesis using div_mult_mod_eq [of "r mod 3600" 60] div_mult_mod_eq [of r 3600] by linarith
  qed
  have "(days_civil y m k - epoch_days) * 86400 + r div 3600 * 3600 + r mod 3600 div 60 * 60 + r mod 60 = s"
  proof -
    have "days_civil y m k - epoch_days = s div 86400" using ci by simp
    moreover have "s div 86400 * 86400 + r = s" unfolding r_def by (rule div_mult_mod_eq)
    ultimately show ?thesis using regroup sum by metis
  qed
  then show ?thesis
    using parse_fields [of y m k "r div 3600" "r mod 3600 div 60" "r mod 60" n] assms c ci hms
    by (simp only: date_time_def Let_def r_def [symmetric] prod.case append_assoc fst_conv)
qed

lemma parse_marshal_time:
  assumes "time_ok t" and "marshal_time t = Inr s"
  shows "parse_time s = Some t"
  using assms parse_date_time [of "t_nsec t" "t_sec t"]
  by (auto simp: marshal_time_def time_ok_def year_of_def zone_text_def split: if_splits)

end
