(* ===== verification/Receipt.thy ===== *)
theory Receipt
  imports Signing GoFloat GoTime
begin

text \<open>
  \<^verbatim>\<open>pkg/vur\<close>: the receipt, its JSON (\<^verbatim>\<open>json.Marshal\<close> and \<^verbatim>\<open>json.Unmarshal\<close> of the struct), the
  canonical bytes that are signed, and the signing and verifying of a receipt with a key or with a
  \<^verbatim>\<open>signing.Signer\<close> and \<^verbatim>\<open>signing.Verifier\<close>.
\<close>

section \<open>The receipt\<close>

record receipt =
  r_ID :: bytes
  r_Version :: bytes
  r_Tenant :: bytes
  r_Provider :: bytes
  r_Model :: bytes
  r_ModelDigest :: bytes
  r_TokenizerID :: bytes
  r_TokenizerHash :: bytes
  r_InputTokens :: int
  r_OutputTokens :: int
  r_ReasoningTokens :: int
  r_VerifiedInputTokens :: int
  r_VerifiedOutputTokens :: int
  r_RequestHash :: bytes
  r_ResponseHash :: bytes
  r_TokenBoundaryRoot :: bytes
  r_RequestID :: bytes
  r_Timestamp :: gotime
  r_SignerIdentity :: bytes
  r_SignerType :: bytes
  r_SignatureHex :: bytes
  r_CertificatePEM :: bytes
  r_RekorLogIndex :: int
  r_Verified :: bool
  r_DiscrepancyPct :: f64
  r_ModelSignerIdentity :: bytes
  r_ModelSignatureVerified :: bool
  r_EnergyEstimateJoules :: f64
  r_EnergySource :: bytes
  r_CarbonIntensityGCO2ePerKWh :: f64
  r_InferenceRegion :: bytes

definition zero_receipt :: receipt where
  "zero_receipt =
     \<lparr>r_ID = [],
       r_Version = [],
       r_Tenant = [],
       r_Provider = [],
       r_Model = [],
       r_ModelDigest = [],
       r_TokenizerID = [],
       r_TokenizerHash = [],
       r_InputTokens = 0,
       r_OutputTokens = 0,
       r_ReasoningTokens = 0,
       r_VerifiedInputTokens = 0,
       r_VerifiedOutputTokens = 0,
       r_RequestHash = [],
       r_ResponseHash = [],
       r_TokenBoundaryRoot = [],
       r_RequestID = [],
       r_Timestamp = zero_time,
       r_SignerIdentity = [],
       r_SignerType = [],
       r_SignatureHex = [],
       r_CertificatePEM = [],
       r_RekorLogIndex = 0,
       r_Verified = False,
       r_DiscrepancyPct = Fin 0,
       r_ModelSignerIdentity = [],
       r_ModelSignatureVerified = False,
       r_EnergyEstimateJoules = Fin 0,
       r_EnergySource = [],
       r_CarbonIntensityGCO2ePerKWh = Fin 0,
       r_InferenceRegion = []\<rparr>"

definition m_float :: "bytes \<Rightarrow> f64 \<Rightarrow> member" where
  "m_float k x = (k, True, map_sum id JNum (json_float x))"

definition m_float_opt :: "bytes \<Rightarrow> f64 \<Rightarrow> member" where
  "m_float_opt k x = (k, \<not> feq x (Fin 0), map_sum id JNum (json_float x))"

definition m_time :: "bytes \<Rightarrow> gotime \<Rightarrow> member" where
  "m_time k t = (k, True, map_sum id JStr (marshal_time t))"

text \<open>The struct tags, in the order of the declaration.\<close>

definition receipt_members :: "receipt \<Rightarrow> member list" where
  "receipt_members r =
     [m_str ''id'' (r_ID r),
      m_str ''version'' (r_Version r),
      m_str ''tenant'' (r_Tenant r),
      m_str ''provider'' (r_Provider r),
      m_str ''model'' (r_Model r),
      m_str ''model_digest'' (r_ModelDigest r),
      m_str ''tokenizer_id'' (r_TokenizerID r),
      m_str ''tokenizer_hash'' (r_TokenizerHash r),
      m_int ''input_tokens'' (r_InputTokens r),
      m_int ''output_tokens'' (r_OutputTokens r),
      m_int ''reasoning_tokens'' (r_ReasoningTokens r),
      m_int ''verified_input_tokens'' (r_VerifiedInputTokens r),
      m_int ''verified_output_tokens'' (r_VerifiedOutputTokens r),
      m_str ''request_hash'' (r_RequestHash r),
      m_str ''response_hash'' (r_ResponseHash r),
      m_str ''token_boundary_root'' (r_TokenBoundaryRoot r),
      m_str ''request_id'' (r_RequestID r),
      m_time ''timestamp'' (r_Timestamp r),
      m_str ''signer_identity'' (r_SignerIdentity r),
      m_str ''signer_type'' (r_SignerType r),
      m_str ''signature_hex'' (r_SignatureHex r),
      m_str_opt ''certificate_pem'' (r_CertificatePEM r),
      m_int_opt ''rekor_log_index'' (r_RekorLogIndex r),
      m_bool ''verified'' (r_Verified r),
      m_float ''discrepancy_pct'' (r_DiscrepancyPct r),
      m_str_opt ''model_signer_identity'' (r_ModelSignerIdentity r),
      m_bool_opt ''model_signature_verified'' (r_ModelSignatureVerified r),
      m_float_opt ''energy_estimate_joules'' (r_EnergyEstimateJoules r),
      m_str_opt ''energy_source'' (r_EnergySource r),
      m_float_opt ''carbon_intensity_gco2e_per_kwh'' (r_CarbonIntensityGCO2ePerKWh r),
      m_str_opt ''inference_region'' (r_InferenceRegion r)]"

definition receipt_fields :: "receipt fields" where
  "receipt_fields =
     [(''id'', set_field dec_str (\<lambda>x r. r\<lparr>r_ID := x\<rparr>)),
      (''version'', set_field dec_str (\<lambda>x r. r\<lparr>r_Version := x\<rparr>)),
      (''tenant'', set_field dec_str (\<lambda>x r. r\<lparr>r_Tenant := x\<rparr>)),
      (''provider'', set_field dec_str (\<lambda>x r. r\<lparr>r_Provider := x\<rparr>)),
      (''model'', set_field dec_str (\<lambda>x r. r\<lparr>r_Model := x\<rparr>)),
      (''model_digest'', set_field dec_str (\<lambda>x r. r\<lparr>r_ModelDigest := x\<rparr>)),
      (''tokenizer_id'', set_field dec_str (\<lambda>x r. r\<lparr>r_TokenizerID := x\<rparr>)),
      (''tokenizer_hash'', set_field dec_str (\<lambda>x r. r\<lparr>r_TokenizerHash := x\<rparr>)),
      (''input_tokens'', set_field dec_int64 (\<lambda>x r. r\<lparr>r_InputTokens := x\<rparr>)),
      (''output_tokens'', set_field dec_int64 (\<lambda>x r. r\<lparr>r_OutputTokens := x\<rparr>)),
      (''reasoning_tokens'', set_field dec_int64 (\<lambda>x r. r\<lparr>r_ReasoningTokens := x\<rparr>)),
      (''verified_input_tokens'', set_field dec_int64 (\<lambda>x r. r\<lparr>r_VerifiedInputTokens := x\<rparr>)),
      (''verified_output_tokens'', set_field dec_int64 (\<lambda>x r. r\<lparr>r_VerifiedOutputTokens := x\<rparr>)),
      (''request_hash'', set_field dec_str (\<lambda>x r. r\<lparr>r_RequestHash := x\<rparr>)),
      (''response_hash'', set_field dec_str (\<lambda>x r. r\<lparr>r_ResponseHash := x\<rparr>)),
      (''token_boundary_root'', set_field dec_str (\<lambda>x r. r\<lparr>r_TokenBoundaryRoot := x\<rparr>)),
      (''request_id'', set_field dec_str (\<lambda>x r. r\<lparr>r_RequestID := x\<rparr>)),
      (''timestamp'', set_field dec_time (\<lambda>x r. r\<lparr>r_Timestamp := x\<rparr>)),
      (''signer_identity'', set_field dec_str (\<lambda>x r. r\<lparr>r_SignerIdentity := x\<rparr>)),
      (''signer_type'', set_field dec_str (\<lambda>x r. r\<lparr>r_SignerType := x\<rparr>)),
      (''signature_hex'', set_field dec_str (\<lambda>x r. r\<lparr>r_SignatureHex := x\<rparr>)),
      (''certificate_pem'', set_field dec_str (\<lambda>x r. r\<lparr>r_CertificatePEM := x\<rparr>)),
      (''rekor_log_index'', set_field dec_int64 (\<lambda>x r. r\<lparr>r_RekorLogIndex := x\<rparr>)),
      (''verified'', set_field dec_bool (\<lambda>x r. r\<lparr>r_Verified := x\<rparr>)),
      (''discrepancy_pct'', set_field dec_float64 (\<lambda>x r. r\<lparr>r_DiscrepancyPct := x\<rparr>)),
      (''model_signer_identity'', set_field dec_str (\<lambda>x r. r\<lparr>r_ModelSignerIdentity := x\<rparr>)),
      (''model_signature_verified'', set_field dec_bool (\<lambda>x r. r\<lparr>r_ModelSignatureVerified := x\<rparr>)),
      (''energy_estimate_joules'', set_field dec_float64 (\<lambda>x r. r\<lparr>r_EnergyEstimateJoules := x\<rparr>)),
      (''energy_source'', set_field dec_str (\<lambda>x r. r\<lparr>r_EnergySource := x\<rparr>)),
      (''carbon_intensity_gco2e_per_kwh'', set_field dec_float64 (\<lambda>x r. r\<lparr>r_CarbonIntensityGCO2ePerKWh := x\<rparr>)),
      (''inference_region'', set_field dec_str (\<lambda>x r. r\<lparr>r_InferenceRegion := x\<rparr>))]"

definition marshal_receipt :: "receipt \<Rightarrow> bytes res" where
  "marshal_receipt r = marshal_struct (receipt_members r)"

definition unmarshal_receipt :: "bytes \<Rightarrow> receipt res" where
  "unmarshal_receipt s = unmarshal_struct receipt_fields s zero_receipt"

section \<open>The canonical bytes\<close>

text \<open>\<^verbatim>\<open>canonicalReceipt\<close>: the fields in alphabetical order of their names, without the signature.\<close>

definition canonical_members :: "receipt \<Rightarrow> member list" where
  "canonical_members r =
     [m_float_opt ''carbon_intensity_gco2e_per_kwh'' (r_CarbonIntensityGCO2ePerKWh r),
      m_str_opt ''certificate_pem'' (r_CertificatePEM r),
      m_float ''discrepancy_pct'' (r_DiscrepancyPct r),
      m_float_opt ''energy_estimate_joules'' (r_EnergyEstimateJoules r),
      m_str_opt ''energy_source'' (r_EnergySource r),
      m_str ''id'' (r_ID r),
      m_str_opt ''inference_region'' (r_InferenceRegion r),
      m_int ''input_tokens'' (r_InputTokens r),
      m_str ''model'' (r_Model r),
      m_str ''model_digest'' (r_ModelDigest r),
      m_bool_opt ''model_signature_verified'' (r_ModelSignatureVerified r),
      m_str_opt ''model_signer_identity'' (r_ModelSignerIdentity r),
      m_int ''output_tokens'' (r_OutputTokens r),
      m_str ''provider'' (r_Provider r),
      m_int ''reasoning_tokens'' (r_ReasoningTokens r),
      m_int_opt ''rekor_log_index'' (r_RekorLogIndex r),
      m_str ''request_hash'' (r_RequestHash r),
      m_str ''request_id'' (r_RequestID r),
      m_str ''response_hash'' (r_ResponseHash r),
      m_str ''signer_identity'' (r_SignerIdentity r),
      m_str ''signer_type'' (r_SignerType r),
      m_str ''tenant'' (r_Tenant r),
      m_str ''timestamp'' (canonical_time (r_Timestamp r)),
      m_str ''token_boundary_root'' (r_TokenBoundaryRoot r),
      m_str ''tokenizer_hash'' (r_TokenizerHash r),
      m_str ''tokenizer_id'' (r_TokenizerID r),
      m_bool ''verified'' (r_Verified r),
      m_int ''verified_input_tokens'' (r_VerifiedInputTokens r),
      m_int ''verified_output_tokens'' (r_VerifiedOutputTokens r),
      m_str ''version'' (r_Version r)]"

definition CanonicalBytes :: "receipt \<Rightarrow> bytes res" where
  "CanonicalBytes r = wrap_err ''canonical serialization'' (marshal_struct (canonical_members r))"

section \<open>Signing and verifying\<close>

definition ReceiptSchemaVersion :: bytes where
  "ReceiptSchemaVersion = ''1.1.0''"

text \<open>A method on \<^verbatim>\<open>*Receipt\<close> returns the changed receipt beside its error.\<close>

definition SignReceiptWithSigner :: "receipt \<Rightarrow> signer \<Rightarrow> receipt \<times> unit res" where
  "SignReceiptWithSigner r s =
     (let r1 = r\<lparr>r_SignerType := s_Type s, r_SignerIdentity := s_Identity s, r_SignatureHex := [],
                r_CertificatePEM := [], r_RekorLogIndex := 0\<rparr>
      in case CanonicalBytes r1 of
           Inl e \<Rightarrow> (r1, Inl (Wrap ''sign'' e))
         | Inr b \<Rightarrow>
             (case s_Sign s b of
                Inl e \<Rightarrow> (r1, Inl (Wrap ''sign'' e))
              | Inr bd \<Rightarrow>
                  (let r2 = r1\<lparr>r_SignatureHex := sb_SignatureHex bd, r_CertificatePEM := sb_CertificatePEM bd\<rparr>
                   in (if sb_RekorLogIndex bd \<ge> 0 then r2\<lparr>r_RekorLogIndex := sb_RekorLogIndex bd\<rparr> else r2,
                       Inr ()))))"

text \<open>\<^verbatim>\<open>SignatureHex\<close> is cleared for the canonical bytes and restored.\<close>

definition VerifyReceiptWithVerifier :: "receipt \<Rightarrow> verifier \<Rightarrow> unit res" where
  "VerifyReceiptWithVerifier r v =
     (if r_SignatureHex r = [] then Inl (Err ''verify: receipt has no signature'')
      else case CanonicalBytes (r\<lparr>r_SignatureHex := []\<rparr>) of
          Inl e \<Rightarrow> Inl (Wrap ''verify'' e)
        | Inr b \<Rightarrow> v b \<lparr>sb_SignatureHex = r_SignatureHex r, sb_CertificatePEM = r_CertificatePEM r,
                       sb_RekorLogIndex = r_RekorLogIndex r, sb_SignerIdentity = r_SignerIdentity r,
                       sb_SignerType = r_SignerType r, sb_BundleJSON = []\<rparr>)"

definition SignReceipt :: "ed25519 \<Rightarrow> receipt \<Rightarrow> bytes \<Rightarrow> receipt \<times> unit res" where
  "SignReceipt c r sk =
     (let r1 = (if r_SignerType r = [] then r\<lparr>r_SignerType := ''ed25519''\<rparr> else r)\<lparr>r_SignatureHex := []\<rparr>
      in case CanonicalBytes r1 of
           Inl e \<Rightarrow> (r1, Inl (Wrap ''sign'' e))
         | Inr b \<Rightarrow> (r1\<lparr>r_SignatureHex := hex_encode (ed_sign c sk b)\<rparr>, Inr ()))"

definition VerifyReceipt :: "ed25519 \<Rightarrow> receipt \<Rightarrow> bytes \<Rightarrow> unit res" where
  "VerifyReceipt c r pk =
     (if r_SignatureHex r = [] then Inl (Err ''verify: receipt has no signature'')
      else case hex_decode (r_SignatureHex r) of
          None \<Rightarrow> Inl (Wrap ''verify: invalid signature hex'' (Foreign ''encoding/hex''))
        | Some sig \<Rightarrow>
            (case CanonicalBytes (r\<lparr>r_SignatureHex := []\<rparr>) of
               Inl e \<Rightarrow> Inl (Wrap ''verify'' e)
             | Inr b \<Rightarrow>
                 (if \<not> ed_verify c pk b sig then Inl (Err ''verify: signature mismatch'') else Inr ())))"

section \<open>Well-formed receipts\<close>

text \<open>Field values the Go types hold and JSON carries unchanged: valid UTF-8, 64-bit integers,
  finite floats (negative zero is dropped from an \<^verbatim>\<open>omitempty\<close> field), a UTC time.\<close>

definition float_ok :: "f64 \<Rightarrow> bool" where
  "float_ok x = (is_f64 x \<and> is_finite x \<and> x \<noteq> NegZero)"

definition receipt_ok :: "receipt \<Rightarrow> bool" where
  "receipt_ok r =
     (valid_utf8 (r_ID r) \<and>
      valid_utf8 (r_Version r) \<and>
      valid_utf8 (r_Tenant r) \<and>
      valid_utf8 (r_Provider r) \<and>
      valid_utf8 (r_Model r) \<and>
      valid_utf8 (r_ModelDigest r) \<and>
      valid_utf8 (r_TokenizerID r) \<and>
      valid_utf8 (r_TokenizerHash r) \<and>
      int64 (r_InputTokens r) \<and>
      int64 (r_OutputTokens r) \<and>
      int64 (r_ReasoningTokens r) \<and>
      int64 (r_VerifiedInputTokens r) \<and>
      int64 (r_VerifiedOutputTokens r) \<and>
      valid_utf8 (r_RequestHash r) \<and>
      valid_utf8 (r_ResponseHash r) \<and>
      valid_utf8 (r_TokenBoundaryRoot r) \<and>
      valid_utf8 (r_RequestID r) \<and>
      time_ok (r_Timestamp r) \<and>
      valid_utf8 (r_SignerIdentity r) \<and>
      valid_utf8 (r_SignerType r) \<and>
      valid_utf8 (r_SignatureHex r) \<and>
      valid_utf8 (r_CertificatePEM r) \<and>
      int64 (r_RekorLogIndex r) \<and>
      is_f64 (r_DiscrepancyPct r) \<and> is_finite (r_DiscrepancyPct r) \<and>
      valid_utf8 (r_ModelSignerIdentity r) \<and>
      float_ok (r_EnergyEstimateJoules r) \<and>
      valid_utf8 (r_EnergySource r) \<and>
      float_ok (r_CarbonIntensityGCO2ePerKWh r) \<and>
      valid_utf8 (r_InferenceRegion r))"

section \<open>Reading a marshalled receipt\<close>

lemma receipt_plain: "list_all (\<lambda>(n, d). plain_key n) receipt_fields"
  by (simp add: receipt_fields_def plain_key_def plain_char_def)

lemma receipt_lookup [simp]:
  "lookup_field receipt_fields ''id'' = Some (set_field dec_str (\<lambda>x r. r\<lparr>r_ID := x\<rparr>))"
  "lookup_field receipt_fields ''version'' = Some (set_field dec_str (\<lambda>x r. r\<lparr>r_Version := x\<rparr>))"
  "lookup_field receipt_fields ''tenant'' = Some (set_field dec_str (\<lambda>x r. r\<lparr>r_Tenant := x\<rparr>))"
  "lookup_field receipt_fields ''provider'' = Some (set_field dec_str (\<lambda>x r. r\<lparr>r_Provider := x\<rparr>))"
  "lookup_field receipt_fields ''model'' = Some (set_field dec_str (\<lambda>x r. r\<lparr>r_Model := x\<rparr>))"
  "lookup_field receipt_fields ''model_digest'' = Some (set_field dec_str (\<lambda>x r. r\<lparr>r_ModelDigest := x\<rparr>))"
  "lookup_field receipt_fields ''tokenizer_id'' = Some (set_field dec_str (\<lambda>x r. r\<lparr>r_TokenizerID := x\<rparr>))"
  "lookup_field receipt_fields ''tokenizer_hash'' = Some (set_field dec_str (\<lambda>x r. r\<lparr>r_TokenizerHash := x\<rparr>))"
  "lookup_field receipt_fields ''input_tokens'' = Some (set_field dec_int64 (\<lambda>x r. r\<lparr>r_InputTokens := x\<rparr>))"
  "lookup_field receipt_fields ''output_tokens'' = Some (set_field dec_int64 (\<lambda>x r. r\<lparr>r_OutputTokens := x\<rparr>))"
  "lookup_field receipt_fields ''reasoning_tokens'' = Some (set_field dec_int64 (\<lambda>x r. r\<lparr>r_ReasoningTokens := x\<rparr>))"
  "lookup_field receipt_fields ''verified_input_tokens'' = Some (set_field dec_int64 (\<lambda>x r. r\<lparr>r_VerifiedInputTokens := x\<rparr>))"
  "lookup_field receipt_fields ''verified_output_tokens'' = Some (set_field dec_int64 (\<lambda>x r. r\<lparr>r_VerifiedOutputTokens := x\<rparr>))"
  "lookup_field receipt_fields ''request_hash'' = Some (set_field dec_str (\<lambda>x r. r\<lparr>r_RequestHash := x\<rparr>))"
  "lookup_field receipt_fields ''response_hash'' = Some (set_field dec_str (\<lambda>x r. r\<lparr>r_ResponseHash := x\<rparr>))"
  "lookup_field receipt_fields ''token_boundary_root'' = Some (set_field dec_str (\<lambda>x r. r\<lparr>r_TokenBoundaryRoot := x\<rparr>))"
  "lookup_field receipt_fields ''request_id'' = Some (set_field dec_str (\<lambda>x r. r\<lparr>r_RequestID := x\<rparr>))"
  "lookup_field receipt_fields ''timestamp'' = Some (set_field dec_time (\<lambda>x r. r\<lparr>r_Timestamp := x\<rparr>))"
  "lookup_field receipt_fields ''signer_identity'' = Some (set_field dec_str (\<lambda>x r. r\<lparr>r_SignerIdentity := x\<rparr>))"
  "lookup_field receipt_fields ''signer_type'' = Some (set_field dec_str (\<lambda>x r. r\<lparr>r_SignerType := x\<rparr>))"
  "lookup_field receipt_fields ''signature_hex'' = Some (set_field dec_str (\<lambda>x r. r\<lparr>r_SignatureHex := x\<rparr>))"
  "lookup_field receipt_fields ''certificate_pem'' = Some (set_field dec_str (\<lambda>x r. r\<lparr>r_CertificatePEM := x\<rparr>))"
  "lookup_field receipt_fields ''rekor_log_index'' = Some (set_field dec_int64 (\<lambda>x r. r\<lparr>r_RekorLogIndex := x\<rparr>))"
  "lookup_field receipt_fields ''verified'' = Some (set_field dec_bool (\<lambda>x r. r\<lparr>r_Verified := x\<rparr>))"
  "lookup_field receipt_fields ''discrepancy_pct'' = Some (set_field dec_float64 (\<lambda>x r. r\<lparr>r_DiscrepancyPct := x\<rparr>))"
  "lookup_field receipt_fields ''model_signer_identity'' = Some (set_field dec_str (\<lambda>x r. r\<lparr>r_ModelSignerIdentity := x\<rparr>))"
  "lookup_field receipt_fields ''model_signature_verified'' = Some (set_field dec_bool (\<lambda>x r. r\<lparr>r_ModelSignatureVerified := x\<rparr>))"
  "lookup_field receipt_fields ''energy_estimate_joules'' = Some (set_field dec_float64 (\<lambda>x r. r\<lparr>r_EnergyEstimateJoules := x\<rparr>))"
  "lookup_field receipt_fields ''energy_source'' = Some (set_field dec_str (\<lambda>x r. r\<lparr>r_EnergySource := x\<rparr>))"
  "lookup_field receipt_fields ''carbon_intensity_gco2e_per_kwh'' = Some (set_field dec_float64 (\<lambda>x r. r\<lparr>r_CarbonIntensityGCO2ePerKWh := x\<rparr>))"
  "lookup_field receipt_fields ''inference_region'' = Some (set_field dec_str (\<lambda>x r. r\<lparr>r_InferenceRegion := x\<rparr>))"
  by (subst lookup_field_plain [OF receipt_plain], simp add: plain_key_def plain_char_def,
      simp add: receipt_fields_def)+

end
