(* ===== verification/ReceiptProofs.thy ===== *)
theory ReceiptProofs
  imports Receipt
begin

text \<open>
  The facts about \<^verbatim>\<open>pkg/vur\<close>: a marshalled receipt is read back unchanged, the canonical bytes
  determine every field but the signature, signing and verifying agree, and the two ways in which they
  do not.
\<close>

section \<open>Marshalling and decoding a struct\<close>

definition redecode :: "'r fields \<Rightarrow> member list \<Rightarrow> 'r \<Rightarrow> 'r res" where
  "redecode fs ms r = (case marshal_members ms of Inl e \<Rightarrow> Inl e | Inr xs \<Rightarrow> decode_members fs xs r)"

lemma redecode_Nil: "redecode fs [] r = Inr r"
  by (simp add: redecode_def)

lemma redecode_step:
  assumes "lookup_field fs k = Some d" and "keep \<Longrightarrow> v = Inr x \<and> x \<noteq> JNull \<and> d x r = Inr r'" and "\<not> keep \<Longrightarrow> r' = r"
  shows "redecode fs ((k, keep, v) # ms) r = redecode fs ms r'"
  using assms by (cases keep) (auto simp: redecode_def split: sum.splits)

lemma redecode_str:
  "lookup_field fs k = Some (set_field dec_str upd) \<Longrightarrow> valid_utf8 s \<Longrightarrow>
     redecode fs (m_str k s # ms) r = redecode fs ms (upd s r)"
  unfolding m_str_def by (rule redecode_step) (auto simp: set_field_def dec_str_jstr sanitize_valid)

lemma redecode_str_opt:
  "lookup_field fs k = Some (set_field dec_str upd) \<Longrightarrow> valid_utf8 s \<Longrightarrow> upd [] r = r \<Longrightarrow>
     redecode fs (m_str_opt k s # ms) r = redecode fs ms (upd s r)"
  unfolding m_str_opt_def by (rule redecode_step) (auto simp: set_field_def dec_str_jstr sanitize_valid)

lemma redecode_int:
  "lookup_field fs k = Some (set_field dec_int64 upd) \<Longrightarrow> int64 i \<Longrightarrow>
     redecode fs (m_int k i # ms) r = redecode fs ms (upd i r)"
  unfolding m_int_def by (rule redecode_step) (auto simp: set_field_def dec_int64_jint, simp add: jint_def)

lemma redecode_int_opt:
  "lookup_field fs k = Some (set_field dec_int64 upd) \<Longrightarrow> int64 i \<Longrightarrow> upd 0 r = r \<Longrightarrow>
     redecode fs (m_int_opt k i # ms) r = redecode fs ms (upd i r)"
  unfolding m_int_opt_def by (rule redecode_step) (auto simp: set_field_def dec_int64_jint, simp add: jint_def)

lemma redecode_bool:
  "lookup_field fs k = Some (set_field dec_bool upd) \<Longrightarrow>
     redecode fs (m_bool k b # ms) r = redecode fs ms (upd b r)"
  unfolding m_bool_def by (rule redecode_step) (auto simp: set_field_def dec_bool_def)

lemma redecode_bool_opt:
  "lookup_field fs k = Some (set_field dec_bool upd) \<Longrightarrow> upd False r = r \<Longrightarrow>
     redecode fs (m_bool_opt k b # ms) r = redecode fs ms (upd b r)"
  unfolding m_bool_opt_def by (rule redecode_step) (auto simp: set_field_def dec_bool_def)

lemma redecode_float:
  "lookup_field fs k = Some (set_field dec_float64 upd) \<Longrightarrow> is_f64 x \<and> is_finite x \<Longrightarrow>
     redecode fs (m_float k x # ms) r = redecode fs ms (upd x r)"
  unfolding m_float_def
  by (rule redecode_step) (auto simp: set_field_def dec_float64_text float_text_Inr)

lemma feq_zero: "is_finite x \<Longrightarrow> feq x (Fin 0) \<longleftrightarrow> x = Fin 0 \<or> x = NegZero"
  by (cases x) (simp_all add: feq_def is_finite_def fval_def)

lemma redecode_float_opt:
  "lookup_field fs k = Some (set_field dec_float64 upd) \<Longrightarrow> float_ok x \<Longrightarrow> upd (Fin 0) r = r \<Longrightarrow>
     redecode fs (m_float_opt k x # ms) r = redecode fs ms (upd x r)"
  unfolding m_float_opt_def
  by (rule redecode_step) (auto simp: set_field_def dec_float64_text float_text_Inr float_ok_def feq_zero)

lemma marshal_time_ok: "time_ok t \<Longrightarrow> marshal_time t = Inr (canonical_time t)"
  by (simp add: marshal_time_def time_ok_def canonical_time_def zone_text_def)

lemma redecode_time:
  assumes "lookup_field fs k = Some (set_field dec_time upd)" and "time_ok t"
  shows "redecode fs (m_time k t # ms) r = redecode fs ms (upd t r)"
  unfolding m_time_def
proof (rule redecode_step [OF assms(1)])
  show "map_sum id JStr (marshal_time t) = Inr (JStr (canonical_time t)) \<and> JStr (canonical_time t) \<noteq> JNull \<and>
      set_field dec_time upd (JStr (canonical_time t)) r = Inr (upd t r)"
    using marshal_time_ok [OF assms(2)] parse_marshal_time [OF assms(2)]
    by (simp add: set_field_def dec_time_def)
qed simp

text \<open>The characters of a time: safe in a JSON string.\<close>

definition time_char :: "char \<Rightarrow> bool" where
  "time_char c = (is_digit c \<or> c \<in> set ''-:.TZ'')"

lemma itoa_chars: "list_all time_char (itoa i)"
  using itoa_nat_digits by (auto simp: itoa_def list_all_iff time_char_def)

lemma pad_int_chars: "list_all time_char (pad_int n i)"
  using itoa_chars by (auto simp: pad_int_def pad_zero_def list_all_iff time_char_def is_digit_def)

lemma trim_right_subset: "set (trim_right_char c s) \<subseteq> set s"
  by (auto simp: trim_right_char_def dest: set_dropWhileD)

lemma canonical_time_chars: "list_all time_char (canonical_time t)"
proof -
  have "list_all time_char (trim_right_char (CHR ''0'') (pad_int 9 n))" for n
    using pad_int_chars [of 9 n] trim_right_subset by (fastforce simp: list_all_iff)
  then have "list_all time_char (fraction n)" for n by (simp add: fraction_def time_char_def)
  then show ?thesis
    using pad_int_chars by (auto simp: canonical_time_def date_time_def Let_def time_char_def split: prod.splits)
qed

lemma time_char_safe: "time_char c \<Longrightarrow> html_safe c \<and> code c < 128"
  by (auto simp: time_char_def html_safe_def is_digit_def)

lemma json_escape_time: "list_all time_char s \<Longrightarrow> json_escape s = s"
  by (induction s) (auto dest: time_char_safe simp: escape_ascii_def)

lemma redecode_canonical_time:
  assumes "lookup_field fs k = Some (set_field dec_time upd)" and "time_ok t"
  shows "redecode fs (m_str k (canonical_time t) # ms) r = redecode fs ms (upd t r)"
  unfolding m_str_def
proof (rule redecode_step [OF assms(1)])
  show "Inr (jstr (canonical_time t)) = Inr (JStr (canonical_time t)) \<and> JStr (canonical_time t) \<noteq> JNull \<and>
      set_field dec_time upd (JStr (canonical_time t)) r = Inr (upd t r)"
    using marshal_time_ok [OF assms(2)] parse_marshal_time [OF assms(2)] json_escape_time [OF canonical_time_chars]
    by (simp add: set_field_def dec_time_def)
qed simp

lemmas redecodes = redecode_Nil redecode_str redecode_str_opt redecode_int redecode_int_opt redecode_bool
  redecode_bool_opt redecode_float redecode_float_opt redecode_time

lemma receipt_redecode:
  assumes "receipt_ok r"
  shows "redecode receipt_fields (receipt_members r) zero_receipt = Inr r"
proof -
  note ok = assms [unfolded receipt_ok_def]
  show ?thesis
    by (cases r) (use ok in \<open>simp add: receipt_members_def zero_receipt_def redecodes\<close>)
qed

text \<open>The text of a struct parses.\<close>

definition member_ok :: "member \<Rightarrow> bool" where
  "member_ok m = (case m of (k, keep, v) \<Rightarrow>
     plain_key k \<and> (keep \<longrightarrow> (case v of Inl _ \<Rightarrow> True | Inr x \<Rightarrow> jwf x \<and> jdepth x = 0)))"

lemma plain_char_escape: "plain_char c \<Longrightarrow> code c < 128 \<and> escape_ascii c = [c]"
  by (auto simp: plain_char_def escape_ascii_def html_safe_def)

lemma plain_escape: "plain_key k \<Longrightarrow> json_escape k = k"
  by (induction k) (simp_all add: plain_key_def plain_char_escape)

lemma plain_raw_ok: "plain_key k \<Longrightarrow> raw_ok k"
  using raw_ok_escape [of k] by (simp add: plain_escape)

lemma marshal_members_wf:
  "list_all member_ok ms \<Longrightarrow> marshal_members ms = Inr xs \<Longrightarrow>
     list_all (\<lambda>(k, v). raw_ok k \<and> jwf v \<and> jdepth v = 0) xs"
proof (induction ms arbitrary: xs)
  case (Cons m ms)
  obtain k keep v where m: "m = (k, keep, v)" by (metis prod.exhaust)
  show ?case
  proof (cases keep)
    case True
    with Cons.prems(2) m obtain x ys where "v = Inr x" "marshal_members ms = Inr ys" "xs = (k, x) # ys"
      by (auto split: sum.splits)
    with Cons m True show ?thesis by (simp add: member_ok_def plain_raw_ok)
  next
    case False
    with Cons m show ?thesis by simp
  qed
qed simp

lemma foldr_max_zero: "list_all (\<lambda>(k, v). P k v \<and> jdepth v = 0) xs \<Longrightarrow> foldr max (map (\<lambda>(k, v). jdepth v) xs) 0 = 0"
  by (induction xs) auto

lemma parse_marshal:
  assumes "list_all member_ok ms" and "marshal_struct ms = Inr s"
  obtains xs where "marshal_members ms = Inr xs" "json_parse s = Some (JObj xs)"
proof -
  obtain xs where xs: "marshal_members ms = Inr xs" "s = jtext (JObj xs)"
    using assms(2) by (auto simp: marshal_struct_def split: sum.splits)
  note wf = marshal_members_wf [OF assms(1) xs(1)]
  have "jwf (JObj xs)" using wf by (auto simp: list_all_iff)
  moreover have "jdepth (JObj xs) \<le> 10000"
    using foldr_max_zero [of "\<lambda>k v. raw_ok k \<and> jwf v" xs] wf by (simp add: conj_assoc)
  ultimately have "json_parse s = Some (JObj xs)" unfolding xs(2) by (rule json_parse_jtext)
  with xs(1) show ?thesis by (rule that)
qed

lemma unmarshal_marshal:
  assumes "list_all member_ok ms" and "marshal_struct ms = Inr s" and "redecode fs ms r = Inr r'"
  shows "unmarshal_struct fs s r = Inr r'"
proof -
  obtain xs where xs: "marshal_members ms = Inr xs" "json_parse s = Some (JObj xs)"
    by (rule parse_marshal [OF assms(1,2)])
  with assms(3) show ?thesis by (simp add: unmarshal_struct_def redecode_def)
qed

lemma json_float_value: "is_f64 x \<Longrightarrow> map_sum id JNum (json_float x) = Inr v \<Longrightarrow> jwf v \<and> jdepth v = 0"
  using parse_json_float [of x] by (cases "json_float x") auto

lemma member_oks:
  "plain_key k \<Longrightarrow> member_ok (m_str k s)" "plain_key k \<Longrightarrow> member_ok (m_str_opt k s)"
  "plain_key k \<Longrightarrow> member_ok (m_int k i)" "plain_key k \<Longrightarrow> member_ok (m_int_opt k i)"
  "plain_key k \<Longrightarrow> member_ok (m_bool k b)" "plain_key k \<Longrightarrow> member_ok (m_bool_opt k b)"
  "plain_key k \<Longrightarrow> is_f64 x \<Longrightarrow> member_ok (m_float k x)" "plain_key k \<Longrightarrow> is_f64 x \<Longrightarrow> member_ok (m_float_opt k x)"
  using json_float_value [of x]
  by (auto simp: member_ok_def member_defs m_float_def m_float_opt_def jint_def split: sum.splits)

lemma member_ok_time: "plain_key k \<Longrightarrow> time_ok t \<Longrightarrow> member_ok (m_time k t)"
  using raw_ok_escape [of "canonical_time t"] json_escape_time [OF canonical_time_chars, of t]
  by (simp add: member_ok_def m_time_def marshal_time_ok)

lemma is_f64_parts: "float_ok x \<Longrightarrow> is_f64 x" "is_f64 x \<and> is_finite x \<Longrightarrow> is_f64 x"
  by (simp_all add: float_ok_def)

lemma receipt_members_ok: "receipt_ok r \<Longrightarrow> list_all member_ok (receipt_members r)"
  unfolding receipt_members_def receipt_ok_def
  by (simp add: member_oks member_ok_time is_f64_parts plain_key_def plain_char_def)

lemma canonical_members_ok:
  "is_f64 (r_DiscrepancyPct r) \<Longrightarrow> is_f64 (r_EnergyEstimateJoules r) \<Longrightarrow> is_f64 (r_CarbonIntensityGCO2ePerKWh r) \<Longrightarrow>
     list_all member_ok (canonical_members r)"
  unfolding canonical_members_def
  by (simp add: member_oks plain_key_def plain_char_def)

lemma marshal_members_ok: "is_ok (marshal_members ms) \<longleftrightarrow> list_all (\<lambda>(k, keep, v). keep \<longrightarrow> is_ok v) ms"
proof (induction ms)
  case (Cons m ms)
  obtain k keep v where m: "m = (k, keep, v)" by (metis prod.exhaust)
  with Cons show ?case by (cases v; cases "marshal_members ms") auto
qed simp

lemma json_float_ok: "is_ok (map_sum id JNum (json_float x)) \<longleftrightarrow> is_finite x"
  by (cases x) (simp_all add: json_float_def is_finite_def)

lemma not_finite_nonzero: "\<not> is_finite x \<Longrightarrow> \<not> feq x (Fin 0)"
  by (cases x) (simp_all add: is_finite_def feq_def)

text \<open>The canonical bytes exist exactly when the three floats are finite.\<close>

lemma canonical_ok:
  "is_ok (marshal_struct (canonical_members r)) \<longleftrightarrow>
     is_finite (r_DiscrepancyPct r) \<and> is_finite (r_EnergyEstimateJoules r) \<and>
     is_finite (r_CarbonIntensityGCO2ePerKWh r)"
proof -
  have "is_ok (marshal_struct ms) = is_ok (marshal_members ms)" for ms
    by (simp add: marshal_struct_def split: sum.splits)
  moreover have "list_all (\<lambda>(k, keep, v). keep \<longrightarrow> is_ok v) (canonical_members r) \<longleftrightarrow>
      is_finite (r_DiscrepancyPct r) \<and> is_finite (r_EnergyEstimateJoules r) \<and> is_finite (r_CarbonIntensityGCO2ePerKWh r)"
    using not_finite_nonzero
    by (auto simp: canonical_members_def member_defs m_float_def m_float_opt_def json_float_ok)
  ultimately show ?thesis by (simp only: marshal_members_ok)
qed

lemma redecode_marshals: "redecode fs ms r = Inr r' \<Longrightarrow> \<exists>s. marshal_struct ms = Inr s"
  by (auto simp: redecode_def marshal_struct_def split: sum.splits)

lemma unmarshal_receipt_marshal:
  assumes "receipt_ok r"
  shows "\<exists>s. marshal_receipt r = Inr s \<and> unmarshal_receipt s = Inr r"
proof -
  obtain s where s: "marshal_struct (receipt_members r) = Inr s"
    using redecode_marshals [OF receipt_redecode [OF assms]] by blast
  from unmarshal_marshal [OF receipt_members_ok [OF assms] s receipt_redecode [OF assms]] s
  show ?thesis by (simp add: marshal_receipt_def unmarshal_receipt_def)
qed

text \<open>The canonical bytes of a receipt decode to it without its signature.\<close>

lemma canonical_redecode:
  assumes "receipt_ok r"
  shows "redecode receipt_fields (canonical_members r) zero_receipt = Inr (r\<lparr>r_SignatureHex := []\<rparr>)"
proof -
  note ok = assms [unfolded receipt_ok_def]
  show ?thesis
    by (cases r) (use ok in \<open>simp add: canonical_members_def zero_receipt_def redecodes redecode_canonical_time\<close>)
qed

lemma unmarshal_canonical:
  assumes "receipt_ok r"
  shows "\<exists>s. CanonicalBytes r = Inr s \<and> unmarshal_receipt s = Inr (r\<lparr>r_SignatureHex := []\<rparr>)"
proof -
  obtain s where s: "marshal_struct (canonical_members r) = Inr s"
    using redecode_marshals [OF canonical_redecode [OF assms]] by blast
  have "list_all member_ok (canonical_members r)"
    using assms by (intro canonical_members_ok) (simp_all add: receipt_ok_def float_ok_def)
  from unmarshal_marshal [OF this s canonical_redecode [OF assms]] s
  show ?thesis by (simp add: CanonicalBytes_def unmarshal_receipt_def)
qed

text \<open>Both texts are codecs for the decoder of \<^verbatim>\<open>json.Unmarshal\<close>.\<close>

definition res_opt :: "'a res \<Rightarrow> 'a option" where
  "res_opt r = (case r of Inl _ \<Rightarrow> None | Inr x \<Rightarrow> Some x)"

definition text_or_empty :: "bytes res \<Rightarrow> bytes" where
  "text_or_empty r = (case r of Inl _ \<Rightarrow> [] | Inr s \<Rightarrow> s)"

interpretation receipt_json: codec "\<lambda>r. text_or_empty (marshal_receipt r)" "\<lambda>s. res_opt (unmarshal_receipt s)" receipt_ok
  using unmarshal_receipt_marshal by unfold_locales (fastforce simp: text_or_empty_def res_opt_def)

interpretation canonical: codec "\<lambda>r. text_or_empty (CanonicalBytes r)" "\<lambda>s. res_opt (unmarshal_receipt s)"
    "\<lambda>r. receipt_ok r \<and> r_SignatureHex r = []"
  using unmarshal_canonical by unfold_locales (fastforce simp: text_or_empty_def res_opt_def)

lemma CanonicalBytes_signature [simp]: "CanonicalBytes (r\<lparr>r_SignatureHex := s\<rparr>) = CanonicalBytes r"
  by (simp add: CanonicalBytes_def canonical_members_def)

lemma receipt_ok_clear: "receipt_ok r \<Longrightarrow> receipt_ok (r\<lparr>r_SignatureHex := []\<rparr>)"
  by (simp add: receipt_ok_def)

lemma canonical_eq:
  assumes "receipt_ok r" and "receipt_ok q" and "CanonicalBytes r = CanonicalBytes q"
  shows "r\<lparr>r_SignatureHex := []\<rparr> = q\<lparr>r_SignatureHex := []\<rparr>"
  using canonical.enc_inj [of "r\<lparr>r_SignatureHex := []\<rparr>" "q\<lparr>r_SignatureHex := []\<rparr>"] assms
  by (simp add: receipt_ok_clear)

section \<open>Signing\<close>

definition sane_floats :: "receipt \<Rightarrow> bool" where
  "sane_floats r = (is_finite (r_DiscrepancyPct r) \<and> is_finite (r_EnergyEstimateJoules r) \<and>
     is_finite (r_CarbonIntensityGCO2ePerKWh r))"

lemma CanonicalBytes_ok: "is_ok (CanonicalBytes r) \<longleftrightarrow> sane_floats r"
  using canonical_ok [of r] by (cases "marshal_struct (canonical_members r)") (auto simp: CanonicalBytes_def sane_floats_def)

lemma CanonicalBytes_Inr: "sane_floats r \<Longrightarrow> \<exists>b. CanonicalBytes r = Inr b"
  using CanonicalBytes_ok [of r] by (auto elim: is_ok_E)

lemma SignReceipt_parts:
  assumes "sane_floats r"
  shows "\<exists>r1 b. SignReceipt c r sk = (r1\<lparr>r_SignatureHex := hex_encode (ed_sign c sk b)\<rparr>, Inr ()) \<and>
           CanonicalBytes r1 = Inr b \<and>
           r1 = (if r_SignerType r = [] then r\<lparr>r_SignerType := ''ed25519''\<rparr> else r)\<lparr>r_SignatureHex := []\<rparr>"
proof -
  define r1 where "r1 = (if r_SignerType r = [] then r\<lparr>r_SignerType := ''ed25519''\<rparr> else r)\<lparr>r_SignatureHex := []\<rparr>"
  have "sane_floats r1" using assms by (simp add: r1_def sane_floats_def)
  then obtain b where "CanonicalBytes r1 = Inr b" using CanonicalBytes_Inr by blast
  then show ?thesis by (auto simp: SignReceipt_def r1_def [symmetric] Let_def)
qed

lemma hex_encode_nonempty: "hex_encode s = [] \<longleftrightarrow> s = []"
  by (cases s) simp_all

text \<open>A receipt signed through a signer whose certificate is empty and whose log index is not positive
  is accepted by the verifier of the pair.\<close>

context signing_pair
begin

lemma signed_receipt_verifies:
  assumes "lawful" and "SignReceiptWithSigner r s = (r', Inr ())" and "s_Sign s = sign"
    and "\<And>p b. sign p = Inr b \<Longrightarrow> sb_CertificatePEM b = [] \<and> sb_RekorLogIndex b \<le> 0 \<and> sb_SignatureHex b \<noteq> []"
  shows "VerifyReceiptWithVerifier r' verify = Inr ()"
proof -
  define r1 where "r1 = r\<lparr>r_SignerType := s_Type s, r_SignerIdentity := s_Identity s, r_SignatureHex := [],
                r_CertificatePEM := [], r_RekorLogIndex := 0\<rparr>"
  obtain b bd where b: "CanonicalBytes r1 = Inr b" "sign b = Inr bd"
    using assms(2,3) by (auto simp: SignReceiptWithSigner_def r1_def [symmetric] Let_def split: sum.splits)
  note bd = assms(4) [OF b(2)]
  have "r' = r1\<lparr>r_SignatureHex := sb_SignatureHex bd\<rparr>"
    using assms(2,3) b bd
    by (auto simp: SignReceiptWithSigner_def r1_def [symmetric] Let_def split: if_splits) (simp_all add: r1_def)
  with b bd verify_sign [OF assms(1) b(2)] show ?thesis by (simp add: VerifyReceiptWithVerifier_def)
qed

end

text \<open>A scheme whose signature is the message itself, and a receipt, for the examples.\<close>

definition toy_scheme :: ed25519 where
  "toy_scheme = \<lparr>ed_sign = (\<lambda>sk m. sk @ m), ed_verify = (\<lambda>pk m s. s = pk @ m \<and> s \<noteq> []), ed_public = (\<lambda>sk. sk)\<rparr>"

definition sample_receipt :: receipt where
  "sample_receipt = zero_receipt\<lparr>r_ID := ''rec-1'', r_Tenant := ''acme'', r_InputTokens := 100,
     r_Timestamp := unix_time 1768473000\<rparr>"

lemma toy_correct: "sk \<noteq> [] \<Longrightarrow> ed_correct toy_scheme sk m"
  by (simp add: toy_scheme_def ed_correct_def)

lemma valid_utf8_ascii: "list_all (\<lambda>c. code c < 128) s \<Longrightarrow> valid_utf8 s"
  by (induction s) (simp_all add: seq_width_ascii)

lemma hex_digit_ascii: "n < 16 \<Longrightarrow> code (hex_digit n) < 128"
  by (simp add: hex_digit_def)

lemma valid_utf8_hex: "valid_utf8 (hex_encode s)"
proof (rule valid_utf8_ascii, induction s)
  case (Cons c s)
  have "code c div 16 < 16" "code c mod 16 < 16" using of_char_less [of c] by (simp_all del: of_char_less)
  with Cons show ?case by (simp add: hex_digit_ascii)
qed simp

lemma sample_receipt_ok: "receipt_ok sample_receipt"
proof -
  have "time_ok (unix_time 1768473000)" by code_simp
  then show ?thesis
    by (simp add: receipt_ok_def sample_receipt_def zero_receipt_def valid_utf8_ascii int64_def float_ok_def
        is_f64_def is_finite_def del: valid_utf8.simps)
qed

section \<open>Properties\<close>

text \<open>C10. A receipt that satisfies \<open>receipt_ok\<close> (its strings are valid UTF-8, its counts and indices are
  \<^verbatim>\<open>int64\<close> values, its floats are finite doubles, not \<open>-0\<close> in the two that are \<^verbatim>\<open>omitempty\<close>, its time is in
  UTC in the years 0 to 9999) is marshalled by \<^verbatim>\<open>json.Marshal\<close> to a text that \<^verbatim>\<open>json.Unmarshal\<close> reads back
  as the same receipt. Without these conditions it need not be: \<^verbatim>\<open>NaN\<close> is an error of \<^verbatim>\<open>Marshal\<close>, and
  invalid UTF-8 comes back as U+FFFD.\<close>

theorem receipt_roundtrip:
  "receipt_ok r \<Longrightarrow> \<exists>s. marshal_receipt r = Inr s \<and> unmarshal_receipt s = Inr r"
  by (rule unmarshal_receipt_marshal)

theorem receipt_roundtrip_witness:
  "\<exists>s. marshal_receipt sample_receipt = Inr s \<and> unmarshal_receipt s = Inr sample_receipt"
  by (rule receipt_roundtrip [OF sample_receipt_ok])

text \<open>C9. One signature accepted for two receipts binds every field: if no signature is valid for two
  messages under the key, the receipts are equal.\<close>

theorem signature_binds:
  assumes "VerifyReceipt c r pk = Inr ()" and "VerifyReceipt c q pk = Inr ()"
    and "r_SignatureHex r = r_SignatureHex q" and "receipt_ok r" and "receipt_ok q"
    and "\<And>m m' sig. ed_verify c pk m sig \<Longrightarrow> ed_verify c pk m' sig \<Longrightarrow> m = m'"
  shows "r = q"
proof -
  obtain sig b where r: "hex_decode (r_SignatureHex r) = Some sig" "CanonicalBytes r = Inr b" "ed_verify c pk b sig"
    using assms(1) by (auto simp: VerifyReceipt_def split: if_splits option.splits sum.splits)
  obtain b' where q: "CanonicalBytes q = Inr b'" "ed_verify c pk b' sig"
    using assms(2,3) r(1) by (auto simp: VerifyReceipt_def split: if_splits option.splits sum.splits)
  have "CanonicalBytes r = CanonicalBytes q" using assms(6) [OF r(3) q(2)] r(2) q(1) by simp
  then have "r\<lparr>r_SignatureHex := []\<rparr> = q\<lparr>r_SignatureHex := []\<rparr>" by (rule canonical_eq [OF assms(4,5)])
  with assms(3) show ?thesis by (cases r; cases q) simp
qed

theorem signature_binds_witness:
  "sample_receipt\<lparr>r_SignerType := ''ed25519'', r_SignatureHex := ''6b''\<rparr> =
   sample_receipt\<lparr>r_SignerType := ''ed25519'', r_SignatureHex := ''6b''\<rparr>"
proof (rule signature_binds [where c = "\<lparr>ed_sign = (\<lambda>sk m. sk), ed_verify = (\<lambda>pk m s. m = text_or_empty (CanonicalBytes
      (sample_receipt\<lparr>r_SignerType := ''ed25519''\<rparr>)) \<and> s = pk), ed_public = (\<lambda>sk. sk)\<rparr>" and pk = "''k''"])
  let ?r = "sample_receipt\<lparr>r_SignerType := ''ed25519''\<rparr>"
  have "sane_floats ?r" by (simp add: sane_floats_def sample_receipt_def zero_receipt_def is_finite_def)
  then obtain b where b: "CanonicalBytes ?r = Inr b" using CanonicalBytes_Inr by blast
  have "hex_decode ''6b'' = Some ''k''" by code_simp
  with b show "VerifyReceipt \<lparr>ed_sign = (\<lambda>sk m. sk), ed_verify = (\<lambda>pk m s. m = text_or_empty (CanonicalBytes ?r) \<and> s = pk),
      ed_public = (\<lambda>sk. sk)\<rparr> (?r\<lparr>r_SignatureHex := ''6b''\<rparr>) ''k'' = Inr ()"
    "VerifyReceipt \<lparr>ed_sign = (\<lambda>sk m. sk), ed_verify = (\<lambda>pk m s. m = text_or_empty (CanonicalBytes ?r) \<and> s = pk),
      ed_public = (\<lambda>sk. sk)\<rparr> (?r\<lparr>r_SignatureHex := ''6b''\<rparr>) ''k'' = Inr ()"
    by (simp_all add: VerifyReceipt_def text_or_empty_def)
  show "receipt_ok (?r\<lparr>r_SignatureHex := ''6b''\<rparr>)" "receipt_ok (?r\<lparr>r_SignatureHex := ''6b''\<rparr>)"
    using sample_receipt_ok by (simp_all add: receipt_ok_def valid_utf8_ascii del: valid_utf8.simps)
qed simp_all

text \<open>C11. \<^verbatim>\<open>SignReceipt\<close> succeeds on every receipt with finite floats, and \<^verbatim>\<open>VerifyReceipt\<close> accepts the
  result under the public key of the signing key.\<close>

theorem sign_verify:
  assumes "sane_floats r" and "\<And>m. ed_correct c sk m"
  shows "snd (SignReceipt c r sk) = Inr () \<and> VerifyReceipt c (fst (SignReceipt c r sk)) (ed_public c sk) = Inr ()"
proof -
  obtain r1 b where s: "SignReceipt c r sk = (r1\<lparr>r_SignatureHex := hex_encode (ed_sign c sk b)\<rparr>, Inr ())"
    "CanonicalBytes r1 = Inr b"
    using SignReceipt_parts [OF assms(1)] by blast
  have "hex_encode (ed_sign c sk b) \<noteq> []" using assms(2) by (simp add: hex_encode_nonempty ed_correct_def)
  with s assms(2) show ?thesis by (simp add: VerifyReceipt_def hex_decode_encode ed_correct_def)
qed

theorem sign_verify_witness:
  "snd (SignReceipt toy_scheme sample_receipt ''k'') = Inr () \<and>
   VerifyReceipt toy_scheme (fst (SignReceipt toy_scheme sample_receipt ''k'')) (ed_public toy_scheme ''k'') = Inr ()"
  by (rule sign_verify) (simp_all add: toy_correct sane_floats_def sample_receipt_def zero_receipt_def is_finite_def)

text \<open>A receipt signed with \<^verbatim>\<open>SignReceiptWithSigner\<close> and the Ed25519 signer is accepted by
  \<^verbatim>\<open>VerifyReceiptWithVerifier\<close> with the Ed25519 verifier of the key.\<close>

theorem ed25519_signer_verifies:
  assumes "SignReceiptWithSigner r (NewEd25519Signer c sk) = (r', Inr ())" and "\<And>m. ed_correct c sk m"
  shows "VerifyReceiptWithVerifier r' (Ed25519Verify c (ed_public c sk)) = Inr ()"
proof (rule ed.signed_receipt_verifies [OF _ assms(1)])
  show "\<forall>m. ed_correct c sk m" using assms(2) by blast
  show "sb_CertificatePEM b = [] \<and> sb_RekorLogIndex b \<le> 0 \<and> sb_SignatureHex b \<noteq> []"
    if "Ed25519Sign c sk p = Inr b" for p b
    using that assms(2) by (auto simp: Ed25519Sign_def ed_correct_def hex_encode_nonempty)
qed (simp add: NewEd25519Signer_def)

lemma signer_succeeds:
  "sane_floats r \<Longrightarrow> (\<And>p. \<exists>b. s_Sign s p = Inr b) \<Longrightarrow> \<exists>r'. SignReceiptWithSigner r s = (r', Inr ())"
proof -
  assume r: "sane_floats r" and s: "\<And>p. \<exists>b. s_Sign s p = Inr b"
  let ?r1 = "r\<lparr>r_SignerType := s_Type s, r_SignerIdentity := s_Identity s, r_SignatureHex := [],
                r_CertificatePEM := [], r_RekorLogIndex := 0\<rparr>"
  have "sane_floats ?r1" using r by (simp add: sane_floats_def)
  then obtain b where b: "CanonicalBytes ?r1 = Inr b" using CanonicalBytes_Inr by blast
  obtain bd where "s_Sign s b = Inr bd" using s by blast
  with b show ?thesis by (auto simp: SignReceiptWithSigner_def Let_def)
qed

theorem ed25519_signer_verifies_witness:
  "\<exists>r'. SignReceiptWithSigner sample_receipt (NewEd25519Signer toy_scheme ''k'') = (r', Inr ()) \<and>
        VerifyReceiptWithVerifier r' (Ed25519Verify toy_scheme (ed_public toy_scheme ''k'')) = Inr ()"
proof -
  have "\<exists>r'. SignReceiptWithSigner sample_receipt (NewEd25519Signer toy_scheme ''k'') = (r', Inr ())"
    by (rule signer_succeeds)
      (simp_all add: sane_floats_def sample_receipt_def zero_receipt_def is_finite_def NewEd25519Signer_def Ed25519Sign_def)
  then obtain r' where r': "SignReceiptWithSigner sample_receipt (NewEd25519Signer toy_scheme ''k'') = (r', Inr ())" ..
  with ed25519_signer_verifies [OF r'] toy_correct show ?thesis by blast
qed

text \<open>No receipt is ever accepted by \<^verbatim>\<open>VerifyReceiptWithVerifier\<close> with the Fulcio verifier: the
  bundle it rebuilds from the receipt has no bundle JSON.\<close>

theorem fulcio_never_verifies: "VerifyReceiptWithVerifier r (FulcioVerify ss v) \<noteq> Inr ()"
  by (cases v) (auto simp: VerifyReceiptWithVerifier_def FulcioVerify_def split: sum.splits)

text \<open>C12. The bytes signed by a signer that returns a certificate are not the canonical bytes of the
  signed receipt: the certificate is set after signing and is part of the canonical bytes.\<close>

theorem certificate_breaks_signature:
  assumes "SignReceiptWithSigner r s = (r', Inr ())" and "r_CertificatePEM r' \<noteq> []"
    and "receipt_ok r'"
  shows "\<exists>b b' bd. s_Sign s b = Inr bd \<and> r_SignatureHex r' = sb_SignatureHex bd \<and>
           CanonicalBytes r' = Inr b' \<and> b \<noteq> b'"
proof -
  define r1 where "r1 = r\<lparr>r_SignerType := s_Type s, r_SignerIdentity := s_Identity s, r_SignatureHex := [],
                r_CertificatePEM := [], r_RekorLogIndex := 0\<rparr>"
  obtain b bd where b: "CanonicalBytes r1 = Inr b" "s_Sign s b = Inr bd"
    using assms(1) by (auto simp: SignReceiptWithSigner_def r1_def [symmetric] Let_def split: sum.splits)
  have r': "r_SignatureHex r' = sb_SignatureHex bd" "r1 = r'\<lparr>r_SignatureHex := [], r_CertificatePEM := [], r_RekorLogIndex := 0\<rparr>"
    using assms(1) b by (auto simp: SignReceiptWithSigner_def r1_def [symmetric] Let_def split: if_splits)
      (simp_all add: r1_def)
  have "receipt_ok r1" unfolding r'(2) using assms(3) by (simp add: receipt_ok_def int64_def)
  obtain b' where b': "CanonicalBytes r' = Inr b'" using unmarshal_canonical [OF assms(3)] by blast
  have "b \<noteq> b'"
  proof
    assume "b = b'"
    then have "CanonicalBytes r1 = CanonicalBytes r'" using b(1) b' by simp
    from canonical_eq [OF \<open>receipt_ok r1\<close> assms(3) this]
    have "r_CertificatePEM (r1\<lparr>r_SignatureHex := []\<rparr>) = r_CertificatePEM (r'\<lparr>r_SignatureHex := []\<rparr>)" by simp
    with assms(2) show False by (simp add: r1_def)
  qed
  with b r' b' show ?thesis by blast
qed

definition cert_signer :: signer where
  "cert_signer = \<lparr>s_Sign = (\<lambda>b. Inr \<lparr>sb_SignatureHex = ''00'', sb_CertificatePEM = ''pem'', sb_RekorLogIndex = - 1,
     sb_SignerIdentity = ''id'', sb_SignerType = ''fulcio'', sb_BundleJSON = ''{}''\<rparr>),
     s_Identity = ''fulcio:url'', s_Type = ''fulcio''\<rparr>"

theorem certificate_breaks_signature_witness:
  "\<exists>r' b b' bd. SignReceiptWithSigner sample_receipt cert_signer = (r', Inr ()) \<and> s_Sign cert_signer b = Inr bd \<and>
     CanonicalBytes r' = Inr b' \<and> b \<noteq> b'"
proof -
  let ?r' = "sample_receipt\<lparr>r_SignerType := ''fulcio'', r_SignerIdentity := ''fulcio:url'', r_SignatureHex := ''00'',
                r_CertificatePEM := ''pem'', r_RekorLogIndex := 0\<rparr>"
  have "\<exists>r'. SignReceiptWithSigner sample_receipt cert_signer = (r', Inr ())"
    by (rule signer_succeeds)
      (simp_all add: sane_floats_def sample_receipt_def zero_receipt_def is_finite_def cert_signer_def)
  then have s: "SignReceiptWithSigner sample_receipt cert_signer = (?r', Inr ())"
    by (auto simp: SignReceiptWithSigner_def cert_signer_def Let_def split: sum.splits)
  have "receipt_ok ?r'"
    using sample_receipt_ok by (simp add: receipt_ok_def valid_utf8_ascii int64_def del: valid_utf8.simps)
  from certificate_breaks_signature [OF s _ this] s show ?thesis by auto
qed

end
