(* ===== verification/Store.thy ===== *)
theory Store
  imports ReceiptProofs "HOL-Library.AList"
begin

text \<open>
  \<^verbatim>\<open>internal/store\<close>: the SQLite store. The tables of \<^verbatim>\<open>Migrate\<close> are lists of rows in the order of
  their \<^verbatim>\<open>AUTOINCREMENT\<close> key, with the counter of the last key; each SQL statement of the source is one
  step on the tables. The list \<open>db_faults\<close> says which of the coming database calls fail, and with what
  error, so that every error path of the code is an execution of the model. A statement that SQLite refuses is
  such a fault: among them an \<^verbatim>\<open>IN\<close> list of \<^verbatim>\<open>MarkBatched\<close> beyond its limit of bound variables.
\<close>

section \<open>Rows and tables\<close>

record store_checkpoint =
  cp_ID :: int
  cp_BatchStart :: int
  cp_BatchEnd :: int
  cp_TreeSize :: int
  cp_RootHex :: bytes
  cp_PreviousRootHex :: bytes
  cp_IssuedAt :: gotime
  cp_OperatorSigHex :: bytes
  cp_RekorLogIndex :: int

record store_stats =
  st_TotalReceipts :: int
  st_TotalCheckpoints :: int
  st_PendingBatch :: int
  st_TotalWitnessSigs :: int

record stored_receipt =
  sr_RowID :: int
  sr_Receipt :: receipt

record receipt_row =
  rr_id :: int
  rr_json :: bytes
  rr_batched :: bool

record checkpoint_row =
  ck_id :: int
  ck_batch_start :: int
  ck_batch_end :: int
  ck_tree_size :: int
  ck_root_hex :: bytes
  ck_previous_root_hex :: bytes
  ck_issued_at :: int
  ck_operator_sig_hex :: bytes
  ck_rekor_log_index :: int

record witness_row =
  wr_id :: int
  wr_checkpoint_id :: int
  wr_witness_id :: bytes
  wr_sig_hex :: bytes

record cosig_row =
  cr_id :: int
  cr_root_hex :: bytes
  cr_note_text :: bytes

record db =
  receipts :: "receipt_row list"
  receipts_seq :: int
  checkpoints :: "checkpoint_row list"
  checkpoints_seq :: int
  witness_sigs :: "witness_row list"
  witness_seq :: int
  cosignatures :: "cosig_row list"
  cosig_seq :: int
  db_faults :: "goerr option list"

text \<open>The tables \<^verbatim>\<open>Migrate\<close> creates in a new file.\<close>

definition empty_db :: db where
  "empty_db = \<lparr>receipts = [], receipts_seq = 0, checkpoints = [], checkpoints_seq = 0, witness_sigs = [],
     witness_seq = 0, cosignatures = [], cosig_seq = 0, db_faults = []\<rparr>"

definition isDuplicateColumn :: "goerr \<Rightarrow> bool" where
  "isDuplicateColumn e = (str_contains (err_text e) ''duplicate column'' \<or> str_contains (err_text e) ''already exists'')"

text \<open>One database call: it fails with the next fault, or runs.\<close>

definition sql :: "(db \<Rightarrow> 'a \<times> db) \<Rightarrow> (db, 'a) op" where
  "sql f st =
     (case db_faults st of
        [] \<Rightarrow> (case f st of (x, st') \<Rightarrow> (Inr x, st'))
      | fault # rest \<Rightarrow>
          (case fault of
             Some e \<Rightarrow> (Inl e, st\<lparr>db_faults := rest\<rparr>)
           | None \<Rightarrow> (case f (st\<lparr>db_faults := rest\<rparr>) of (x, st') \<Rightarrow> (Inr x, st'))))"

definition query :: "(db \<Rightarrow> 'a) \<Rightarrow> (db, 'a) op" where
  "query f = sql (\<lambda>st. (f st, st))"

text \<open>\<^verbatim>\<open>rows.Err()\<close> after a cursor has been read.\<close>

definition rows_err :: "(db, unit) op" where
  "rows_err = query (\<lambda>_. ())"

text \<open>\<^verbatim>\<open>LIMIT n\<close> (a negative one is no limit) and \<^verbatim>\<open>OFFSET n\<close> (a negative one is 0).\<close>

definition sql_limit :: "int \<Rightarrow> 'a list \<Rightarrow> 'a list" where
  "sql_limit n xs = (if n < 0 then xs else take (nat n) xs)"

definition sql_offset :: "int \<Rightarrow> 'a list \<Rightarrow> 'a list" where
  "sql_offset n xs = drop (nat n) xs"

section \<open>Receipts\<close>

definition insert_receipt :: "bytes \<Rightarrow> db \<Rightarrow> int \<times> db" where
  "insert_receipt js st =
     (let n = receipts_seq st + 1
      in (n, st\<lparr>receipts := receipts st @ [\<lparr>rr_id = n, rr_json = js, rr_batched = False\<rparr>],
               receipts_seq := n\<rparr>))"

definition AppendReceipt :: "receipt \<Rightarrow> (db, int) op" where
  "AppendReceipt r = bind_op (lift_op (marshal_receipt r)) (\<lambda>js. sql (insert_receipt js))"

text \<open>The loop of the batch; the caller rolls back when it returns an error.\<close>

fun append_loop :: "receipt list \<Rightarrow> (db, int list) op" where
  "append_loop [] = ret_op []"
| "append_loop (r # rs) =
     bind_op (wrap_op ''marshal receipt'' (lift_op (marshal_receipt r))) (\<lambda>js.
     bind_op (wrap_op ''insert receipt'' (sql (insert_receipt js))) (\<lambda>n.
     bind_op (append_loop rs) (\<lambda>ns. ret_op (n # ns))))"

text \<open>The tables are those of before \<^verbatim>\<open>BEGIN\<close>; the faults already met stay met.\<close>

definition rollback_to :: "db \<Rightarrow> (db, 'a) op \<Rightarrow> (db, 'a) op" where
  "rollback_to st0 m st =
     (case m st of (r, st') \<Rightarrow> (case r of Inl e \<Rightarrow> (Inl e, st0\<lparr>db_faults := db_faults st'\<rparr>) | Inr x \<Rightarrow> (Inr x, st')))"

definition AppendReceiptsBatch :: "receipt list \<Rightarrow> (db, int list) op" where
  "AppendReceiptsBatch rs st0 =
     bind_op (wrap_op ''begin transaction'' (query (\<lambda>_. ()))) (\<lambda>_.
     rollback_to st0
       (bind_op (wrap_op ''prepare statement'' (query (\<lambda>_. ()))) (\<lambda>_.
        bind_op (append_loop rs) (\<lambda>ids.
        bind_op (wrap_op ''commit transaction'' (query (\<lambda>_. ()))) (\<lambda>_. ret_op ids))))) st0"

text \<open>\<^verbatim>\<open>json_extract(receipt_json, '$.id')\<close> of the first row that has the text; a row that is not JSON
  stops the statement.\<close>

definition json_extract_id :: "bytes \<Rightarrow> bytes option res" where
  "json_extract_id js =
     (case json_parse js of
        None \<Rightarrow> Inl (Foreign ''malformed JSON'')
      | Some v \<Rightarrow>
          (case v of
             JObj ms \<Rightarrow> (case map_of ms ''id'' of
                Some w \<Rightarrow> (case w of JStr s \<Rightarrow> Inr (Some (unquote s)) | _ \<Rightarrow> Inr None)
              | None \<Rightarrow> Inr None)
           | _ \<Rightarrow> Inr None))"

fun find_by_id :: "bytes \<Rightarrow> receipt_row list \<Rightarrow> receipt_row option res" where
  "find_by_id i [] = Inr None"
| "find_by_id i (row # rows) =
     and_then (json_extract_id (rr_json row)) (\<lambda>x. if x = Some i then Inr (Some row) else find_by_id i rows)"

definition GetReceiptByID :: "bytes \<Rightarrow> (db, stored_receipt option) op" where
  "GetReceiptByID i =
     bind_op (query (\<lambda>st. find_by_id i (receipts st))) (\<lambda>found.
     bind_op (lift_op found) (\<lambda>row.
       case row of
         None \<Rightarrow> ret_op None
       | Some rw \<Rightarrow>
           bind_op (wrap_op ''unmarshal receipt'' (lift_op (unmarshal_receipt (rr_json rw)))) (\<lambda>r.
           ret_op (Some \<lparr>sr_RowID = rr_id rw, sr_Receipt = r\<rparr>))))"

definition unmarshal_row :: "receipt_row \<Rightarrow> receipt res" where
  "unmarshal_row rw = wrap_err (''unmarshal receipt '' @ itoa (rr_id rw)) (unmarshal_receipt (rr_json rw))"

definition scanStoredReceipts :: "receipt_row list \<Rightarrow> (db, stored_receipt list) op" where
  "scanStoredReceipts rows =
     bind_op (lift_op (map_res (\<lambda>rw. and_then (unmarshal_row rw)
                (\<lambda>r. Inr \<lparr>sr_RowID = rr_id rw, sr_Receipt = r\<rparr>)) rows)) (\<lambda>out.
     bind_op rows_err (\<lambda>_. ret_op out))"

definition scanReceipts :: "receipt_row list \<Rightarrow> (db, receipt list) op" where
  "scanReceipts rows =
     bind_op (lift_op (map_res unmarshal_row rows)) (\<lambda>out. bind_op rows_err (\<lambda>_. ret_op out))"

definition ListReceipts :: "int \<Rightarrow> int \<Rightarrow> (db, stored_receipt list) op" where
  "ListReceipts offset limit =
     bind_op (query (\<lambda>st. sql_limit limit (sql_offset offset (rev (receipts st))))) scanStoredReceipts"

definition FetchUnbatched :: "int \<Rightarrow> (db, stored_receipt list) op" where
  "FetchUnbatched limit =
     bind_op (query (\<lambda>st. sql_limit limit (filter (\<lambda>rw. \<not> rr_batched rw) (receipts st)))) scanStoredReceipts"

definition mark_rows :: "int list \<Rightarrow> db \<Rightarrow> unit \<times> db" where
  "mark_rows ids st =
     ((), st\<lparr>receipts := map (\<lambda>rw. if rr_id rw \<in> set ids then rw\<lparr>rr_batched := True\<rparr> else rw) (receipts st)\<rparr>)"

definition MarkBatched :: "int list \<Rightarrow> (db, unit) op" where
  "MarkBatched ids = (if ids = [] then ret_op () else sql (mark_rows ids))"

definition GetReceiptsByRange :: "int \<Rightarrow> int \<Rightarrow> (db, receipt list) op" where
  "GetReceiptsByRange startID endID =
     bind_op (query (\<lambda>st. filter (\<lambda>rw. rr_id rw \<ge> startID \<and> rr_id rw \<le> endID) (receipts st))) scanReceipts"

section \<open>Checkpoints\<close>

definition insert_checkpoint :: "store_checkpoint \<Rightarrow> db \<Rightarrow> int \<times> db" where
  "insert_checkpoint c st =
     (let n = checkpoints_seq st + 1
      in (n, st\<lparr>checkpoints := checkpoints st @
               [\<lparr>ck_id = n, ck_batch_start = cp_BatchStart c, ck_batch_end = cp_BatchEnd c,
                 ck_tree_size = cp_TreeSize c, ck_root_hex = cp_RootHex c,
                 ck_previous_root_hex = cp_PreviousRootHex c, ck_issued_at = t_sec (cp_IssuedAt c),
                 ck_operator_sig_hex = cp_OperatorSigHex c, ck_rekor_log_index = - 1\<rparr>],
               checkpoints_seq := n\<rparr>))"

definition SaveCheckpoint :: "store_checkpoint \<Rightarrow> (db, int) op" where
  "SaveCheckpoint c = sql (insert_checkpoint c)"

definition scanCheckpointRow :: "checkpoint_row \<Rightarrow> store_checkpoint" where
  "scanCheckpointRow k =
     \<lparr>cp_ID = ck_id k, cp_BatchStart = ck_batch_start k, cp_BatchEnd = ck_batch_end k,
      cp_TreeSize = ck_tree_size k, cp_RootHex = ck_root_hex k, cp_PreviousRootHex = ck_previous_root_hex k,
      cp_IssuedAt = unix_time (ck_issued_at k), cp_OperatorSigHex = ck_operator_sig_hex k,
      cp_RekorLogIndex = ck_rekor_log_index k\<rparr>"

text \<open>\<^verbatim>\<open>scanCheckpoint\<close>: \<^verbatim>\<open>sql.ErrNoRows\<close> is \<^verbatim>\<open>nil, nil\<close>.\<close>

definition scanCheckpoint :: "checkpoint_row option \<Rightarrow> store_checkpoint option" where
  "scanCheckpoint k = map_option scanCheckpointRow k"

definition GetCheckpoint :: "int \<Rightarrow> (db, store_checkpoint option) op" where
  "GetCheckpoint i = query (\<lambda>st. scanCheckpoint (List.find (\<lambda>k. ck_id k = i) (checkpoints st)))"

definition GetCheckpointForRow :: "int \<Rightarrow> (db, store_checkpoint option) op" where
  "GetCheckpointForRow rowID =
     query (\<lambda>st. scanCheckpoint (List.find (\<lambda>k. ck_batch_start k \<le> rowID \<and> ck_batch_end k \<ge> rowID) (checkpoints st)))"

definition ListCheckpoints :: "int \<Rightarrow> int \<Rightarrow> (db, store_checkpoint list) op" where
  "ListCheckpoints offset limit =
     bind_op (query (\<lambda>st. sql_limit limit (sql_offset offset (rev (checkpoints st))))) (\<lambda>rows.
     bind_op rows_err (\<lambda>_. ret_op (map scanCheckpointRow rows)))"

definition LatestCheckpoint :: "(db, store_checkpoint option) op" where
  "LatestCheckpoint =
     query (\<lambda>st. scanCheckpoint (case rev (checkpoints st) of [] \<Rightarrow> None | k # _ \<Rightarrow> Some k))"

definition set_rekor :: "int \<Rightarrow> int \<Rightarrow> db \<Rightarrow> unit \<times> db" where
  "set_rekor cpID logIndex st =
     ((), st\<lparr>checkpoints := map (\<lambda>k. if ck_id k = cpID then k\<lparr>ck_rekor_log_index := logIndex\<rparr> else k) (checkpoints st)\<rparr>)"

definition UpdateCheckpointRekorIndex :: "int \<Rightarrow> int \<Rightarrow> (db, unit) op" where
  "UpdateCheckpointRekorIndex cpID logIndex = sql (set_rekor cpID logIndex)"

section \<open>Witness signatures and cosignatures\<close>

text \<open>\<^verbatim>\<open>ON CONFLICT(checkpoint_id, witness_id) DO UPDATE SET sig_hex\<close>.\<close>

definition upsert_witness :: "int \<Rightarrow> bytes \<Rightarrow> bytes \<Rightarrow> db \<Rightarrow> unit \<times> db" where
  "upsert_witness cpID w sig st =
     ((), if \<exists>x \<in> set (witness_sigs st). wr_checkpoint_id x = cpID \<and> wr_witness_id x = w
          then st\<lparr>witness_sigs := map (\<lambda>x. if wr_checkpoint_id x = cpID \<and> wr_witness_id x = w
                                          then x\<lparr>wr_sig_hex := sig\<rparr> else x) (witness_sigs st)\<rparr>
          else st\<lparr>witness_sigs := witness_sigs st @
                    [\<lparr>wr_id = witness_seq st + 1, wr_checkpoint_id = cpID, wr_witness_id = w, wr_sig_hex = sig\<rparr>],
                  witness_seq := witness_seq st + 1\<rparr>)"

definition AddWitnessSignature :: "int \<Rightarrow> bytes \<Rightarrow> bytes \<Rightarrow> (db, unit) op" where
  "AddWitnessSignature cpID w sig = sql (upsert_witness cpID w sig)"

text \<open>The Go map that is returned, as the association list of its insertions.\<close>

definition WitnessSignatures :: "int \<Rightarrow> (db, (bytes \<times> bytes) list) op" where
  "WitnessSignatures cpID =
     bind_op (query (\<lambda>st. filter (\<lambda>x. wr_checkpoint_id x = cpID) (witness_sigs st))) (\<lambda>rows.
     bind_op rows_err (\<lambda>_.
     ret_op (foldl (\<lambda>m x. AList.update (wr_witness_id x) (wr_sig_hex x) m) [] rows)))"

text \<open>\<^verbatim>\<open>INSERT OR IGNORE\<close> under \<^verbatim>\<open>UNIQUE(root_hex, note_text)\<close>.\<close>

definition insert_cosig :: "bytes \<Rightarrow> bytes \<Rightarrow> db \<Rightarrow> unit \<times> db" where
  "insert_cosig rootHex text st =
     ((), if \<exists>x \<in> set (cosignatures st). cr_root_hex x = rootHex \<and> cr_note_text x = text then st
          else st\<lparr>cosignatures := cosignatures st @
                    [\<lparr>cr_id = cosig_seq st + 1, cr_root_hex = rootHex, cr_note_text = text\<rparr>],
                  cosig_seq := cosig_seq st + 1\<rparr>)"

definition StoreCosignature :: "bytes \<Rightarrow> bytes \<Rightarrow> (db, unit) op" where
  "StoreCosignature rootHex text = sql (insert_cosig rootHex text)"

definition GetCosignatures :: "bytes \<Rightarrow> (db, bytes list) op" where
  "GetCosignatures rootHex =
     bind_op (query (\<lambda>st. filter (\<lambda>x. cr_root_hex x = rootHex) (cosignatures st))) (\<lambda>rows.
     bind_op rows_err (\<lambda>_. ret_op (map cr_note_text rows)))"

section \<open>Statistics and what the SQLite backend does not support\<close>

definition Stats :: "(db, store_stats) op" where
  "Stats =
     bind_op (query (\<lambda>st. int (length (receipts st)))) (\<lambda>total.
     bind_op (query (\<lambda>st. int (length (filter (\<lambda>rw. \<not> rr_batched rw) (receipts st))))) (\<lambda>pending.
     bind_op (query (\<lambda>st. int (length (checkpoints st)))) (\<lambda>cps.
     bind_op (query (\<lambda>st. int (length (witness_sigs st)))) (\<lambda>sigs.
     ret_op \<lparr>st_TotalReceipts = total, st_TotalCheckpoints = cps, st_PendingBatch = pending,
             st_TotalWitnessSigs = sigs\<rparr>))))"

definition unsupported :: "bytes \<Rightarrow> 'a res" where
  "unsupported name = Inl (Err (name @ '': not supported by SQLite backend; use Tessera backend''))"

definition ProofHexSlice :: "bytes list \<Rightarrow> bytes list" where
  "ProofHexSlice pf = map hex_encode pf"

end
