(* ===== verification/StoreProofs.thy ===== *)
theory StoreProofs
  imports Store
begin

text \<open>
  What \<^verbatim>\<open>internal/store\<close> promises: the invariant of the tables that every operation keeps, the
  interface \<open>receipt_store\<close> of an append-only collection of receipts with its interpretation on the
  SQLite store, atomic batches, the batching flags, checkpoints, witness signatures and cosignatures.
\<close>

section \<open>The invariant of the tables\<close>

definition ids_ok :: "int list \<Rightarrow> int \<Rightarrow> bool" where
  "ids_ok ids n = (sorted_wrt (<) ids \<and> list_all (\<lambda>i. 1 \<le> i \<and> i \<le> n) ids \<and> 0 \<le> n)"

definition db_inv :: "db \<Rightarrow> bool" where
  "db_inv st =
     (ids_ok (map rr_id (receipts st)) (receipts_seq st) \<and>
      ids_ok (map ck_id (checkpoints st)) (checkpoints_seq st) \<and>
      ids_ok (map wr_id (witness_sigs st)) (witness_seq st) \<and>
      ids_ok (map cr_id (cosignatures st)) (cosig_seq st) \<and>
      distinct (map (\<lambda>x. (wr_checkpoint_id x, wr_witness_id x)) (witness_sigs st)) \<and>
      distinct (map (\<lambda>x. (cr_root_hex x, cr_note_text x)) (cosignatures st)))"

lemma ids_ok_append: "ids_ok ids n \<Longrightarrow> ids_ok (ids @ [n + 1]) (n + 1)"
  by (auto simp: ids_ok_def sorted_wrt_append list_all_iff)

lemma ids_ok_distinct: "ids_ok ids n \<Longrightarrow> distinct ids"
  by (auto simp: ids_ok_def intro: strict_sorted_imp_sorted strict_sorted_iff [THEN iffD1, THEN conjunct2])

lemma ids_ok_le: "ids_ok ids n \<Longrightarrow> i \<in> set ids \<Longrightarrow> 1 \<le> i \<and> i \<le> n"
  by (auto simp: ids_ok_def list_all_iff)

lemma ids_ok_Nil [simp]: "ids_ok [] 0"
  by (simp add: ids_ok_def)

lemma empty_db_inv: "db_inv empty_db"
  by (simp add: db_inv_def empty_db_def)

lemma db_inv_faults [simp]: "db_inv (st\<lparr>db_faults := fs\<rparr>) = db_inv st"
  by (simp add: db_inv_def)

lemma keeps_sql: "(\<And>st. db_inv st \<Longrightarrow> db_inv (snd (f st))) \<Longrightarrow> keeps db_inv (sql f)"
  by (rule keepsI) (auto simp: sql_def split: list.splits option.splits prod.splits, (metis db_inv_faults snd_conv)+)

lemma keeps_query [intro, simp]: "keeps db_inv (query f)"
  unfolding query_def by (rule keeps_sql) simp

lemma keeps_rows_err [intro, simp]: "keeps db_inv rows_err"
  by (simp add: rows_err_def)

lemma insert_receipt_inv: "db_inv st \<Longrightarrow> db_inv (snd (insert_receipt js st))"
  by (simp add: db_inv_def insert_receipt_def Let_def ids_ok_append)

lemma insert_checkpoint_inv: "db_inv st \<Longrightarrow> db_inv (snd (insert_checkpoint c st))"
  by (simp add: db_inv_def insert_checkpoint_def Let_def ids_ok_append)

lemma mark_rows_inv: "db_inv st \<Longrightarrow> db_inv (snd (mark_rows ids st))"
  by (simp add: db_inv_def mark_rows_def comp_def if_distrib [of rr_id] cong: if_cong)

lemma set_rekor_inv: "db_inv st \<Longrightarrow> db_inv (snd (set_rekor cpID i st))"
  by (simp add: db_inv_def set_rekor_def comp_def if_distrib [of ck_id] cong: if_cong)

lemma upsert_witness_inv: "db_inv st \<Longrightarrow> db_inv (snd (upsert_witness cpID w sig st))"
proof -
  assume inv: "db_inv st"
  show ?thesis
  proof (cases "\<exists>x \<in> set (witness_sigs st). wr_checkpoint_id x = cpID \<and> wr_witness_id x = w")
    case True
    let ?g = "\<lambda>x :: witness_row. if wr_checkpoint_id x = cpID \<and> wr_witness_id x = w then x\<lparr>wr_sig_hex := sig\<rparr> else x"
    have "wr_id \<circ> ?g = wr_id" "(\<lambda>x :: witness_row. (wr_checkpoint_id x, wr_witness_id x)) \<circ> ?g = (\<lambda>x. (wr_checkpoint_id x, wr_witness_id x))"
      by (auto intro!: ext)
    with True inv show ?thesis by (simp add: db_inv_def upsert_witness_def)
  next
    case False
    with inv show ?thesis by (auto simp: db_inv_def upsert_witness_def ids_ok_append)
  qed
qed

lemma insert_cosig_inv: "db_inv st \<Longrightarrow> db_inv (snd (insert_cosig h t st))"
  by (auto simp: db_inv_def insert_cosig_def ids_ok_append)

lemma keeps_AppendReceipt: "keeps db_inv (AppendReceipt r)"
  unfolding AppendReceipt_def by (auto intro!: keeps_sql insert_receipt_inv)

lemma keeps_append_loop: "keeps db_inv (append_loop rs)"
  by (induction rs) (auto intro!: keeps_bind keeps_wrap keeps_sql insert_receipt_inv)

lemma keeps_rollback: "db_inv st \<Longrightarrow> keeps db_inv m \<Longrightarrow> keeps db_inv (rollback_to st m)"
proof (rule keepsI)
  fix s assume st: "db_inv st" and m: "keeps db_inv m" and s: "db_inv s"
  obtain r s' where r: "m s = (r, s')" by (metis prod.exhaust)
  then have "db_inv s'" using keepsD [OF m s] by simp
  with r st show "db_inv (snd (rollback_to st m s))" by (cases r) (simp_all add: rollback_to_def)
qed

lemma keeps_AppendReceiptsBatch: "keeps db_inv (AppendReceiptsBatch rs)"
proof (rule keepsI)
  fix st assume inv: "db_inv st"
  let ?m = "bind_op (wrap_op ''prepare statement'' (query (\<lambda>_. ()))) (\<lambda>_.
        bind_op (append_loop rs) (\<lambda>ids.
        bind_op (wrap_op ''commit transaction'' (query (\<lambda>_. ()))) (\<lambda>_. ret_op ids)))"
  have "keeps db_inv ?m" by (intro keeps_bind keeps_wrap keeps_query keeps_append_loop keeps_ret)
  then have "keeps db_inv (rollback_to st ?m)" by (rule keeps_rollback [OF inv])
  then have "keeps db_inv (bind_op (wrap_op ''begin transaction'' (query (\<lambda>_. ()))) (\<lambda>_. rollback_to st ?m))"
    by (intro keeps_bind keeps_wrap keeps_query)
  from keepsD [OF this inv] show "db_inv (snd (AppendReceiptsBatch rs st))"
    by (simp only: AppendReceiptsBatch_def)
qed

lemma keeps_MarkBatched: "keeps db_inv (MarkBatched ids)"
  unfolding MarkBatched_def by (auto intro!: keeps_sql mark_rows_inv)

lemma keeps_SaveCheckpoint: "keeps db_inv (SaveCheckpoint c)"
  unfolding SaveCheckpoint_def by (auto intro!: keeps_sql insert_checkpoint_inv)

lemma keeps_UpdateRekor: "keeps db_inv (UpdateCheckpointRekorIndex i j)"
  unfolding UpdateCheckpointRekorIndex_def by (auto intro!: keeps_sql set_rekor_inv)

lemma keeps_AddWitnessSignature: "keeps db_inv (AddWitnessSignature i w s)"
  unfolding AddWitnessSignature_def by (auto intro!: keeps_sql upsert_witness_inv)

lemma keeps_StoreCosignature: "keeps db_inv (StoreCosignature h t)"
  unfolding StoreCosignature_def by (auto intro!: keeps_sql insert_cosig_inv)

lemmas store_keeps = keeps_AppendReceipt keeps_AppendReceiptsBatch keeps_MarkBatched keeps_SaveCheckpoint
  keeps_UpdateRekor keeps_AddWitnessSignature keeps_StoreCosignature

section \<open>Calls that succeed\<close>

text \<open>The tables without the pending faults.\<close>

definition tables :: "db \<Rightarrow> db" where
  "tables st = st\<lparr>db_faults := []\<rparr>"

lemma tables_faults [simp]: "tables (st\<lparr>db_faults := fs\<rparr>) = tables st"
  by (simp add: tables_def)

lemma tables_sel [simp]:
  "receipts (tables st) = receipts st" "receipts_seq (tables st) = receipts_seq st"
  "checkpoints (tables st) = checkpoints st" "witness_sigs (tables st) = witness_sigs st"
  "cosignatures (tables st) = cosignatures st"
  by (simp_all add: tables_def)

lemma sql_Inr:
  assumes "sql f st = (Inr x, st')"
  shows "\<exists>st0. tables st0 = tables st \<and> f st0 = (x, st')"
  using assms by (auto simp: sql_def split: list.splits option.splits prod.splits intro: exI [of _ st]) (metis tables_faults)

lemma sql_Inl: "sql f st = (Inl e, st') \<Longrightarrow> tables st' = tables st"
  by (auto simp: sql_def split: list.splits option.splits prod.splits)

lemma sql_healthy: "db_faults st = [] \<Longrightarrow> sql f st = (case f st of (x, st') \<Rightarrow> (Inr x, st'))"
  by (simp add: sql_def)

lemma query_healthy [simp]: "db_faults st = [] \<Longrightarrow> query f st = (Inr (f st), st)"
  by (simp add: query_def sql_healthy)

lemma rows_err_healthy [simp]: "db_faults st = [] \<Longrightarrow> rows_err st = (Inr (), st)"
  by (simp add: rows_err_def)

lemma query_tables: "query f st = (x, st') \<Longrightarrow> tables st' = tables st"
  unfolding query_def sql_def by (auto split: list.splits option.splits)

section \<open>Appending a receipt\<close>

lemma AppendReceipt_Inr:
  assumes "AppendReceipt r st = (Inr n, st')"
  shows "\<exists>js. marshal_receipt r = Inr js \<and> n = receipts_seq st + 1 \<and> receipts_seq st' = n \<and>
           receipts st' = receipts st @ [\<lparr>rr_id = n, rr_json = js, rr_batched = False\<rparr>]"
proof -
  obtain js where js: "marshal_receipt r = Inr js" "sql (insert_receipt js) st = (Inr n, st')"
    using assms by (auto simp: AppendReceipt_def bind_op_Inr)
  obtain st0 where st0: "tables st0 = tables st" "insert_receipt js st0 = (n, st')"
    using sql_Inr [OF js(2)] by blast
  have "receipts st0 = receipts st" "receipts_seq st0 = receipts_seq st"
    using st0(1) by (metis tables_sel(1), metis tables_sel(2))
  with js(1) st0(2) show ?thesis by (auto simp: insert_receipt_def Let_def)
qed

text \<open>What a row says, read back.\<close>

definition read_receipt :: "int \<Rightarrow> db \<Rightarrow> receipt option" where
  "read_receipt n st =
     (case List.find (\<lambda>rw. rr_id rw = n) (receipts st) of
        None \<Rightarrow> None
      | Some rw \<Rightarrow> res_opt (unmarshal_receipt (rr_json rw)))"

lemma find_append: "List.find p (xs @ ys) = (case List.find p xs of None \<Rightarrow> List.find p ys | Some x \<Rightarrow> Some x)"
  by (induction xs) auto

lemma find_fresh: "ids_ok (map rr_id xs) n \<Longrightarrow> List.find (\<lambda>rw. rr_id rw = n + 1) xs = None"
  by (auto simp: find_None_iff dest!: ids_ok_le)

text \<open>
  The interface of an append-only collection of receipts: what an append returns can be read back,
  was not in use before, and no append changes what another one stored.
\<close>

locale receipt_store =
  fixes append :: "receipt \<Rightarrow> ('s, int) op"
    and read :: "int \<Rightarrow> 's \<Rightarrow> receipt option"
    and inv :: "'s \<Rightarrow> bool"
    and ok :: "receipt \<Rightarrow> bool"
  assumes append_inv: "inv s \<Longrightarrow> inv (snd (append r s))"
    and append_read: "inv s \<Longrightarrow> ok r \<Longrightarrow> append r s = (Inr n, s') \<Longrightarrow> read n s = None \<and> read n s' = Some r"
    and append_frame: "inv s \<Longrightarrow> append r s = (x, s') \<Longrightarrow> read m s = Some q \<Longrightarrow> read m s' = Some q"
begin

lemma appends_keep:
  "inv s \<Longrightarrow> map_op append rs s = (x, s') \<Longrightarrow> read m s = Some q \<Longrightarrow> inv s' \<and> read m s' = Some q"
proof (induction rs arbitrary: s x)
  case (Cons r rs)
  obtain y s1 where a: "append r s = (y, s1)" by (metis prod.exhaust)
  have i: "inv s1" "read m s1 = Some q"
    using append_inv [OF Cons.prems(1), of r] append_frame [OF Cons.prems(1) a Cons.prems(3)] a by simp_all
  show ?case
  proof (cases y)
    case (Inl e)
    with Cons.prems(2) a i show ?thesis by (auto simp: bind_op_def)
  next
    case (Inr n)
    obtain z s2 where m: "map_op append rs s1 = (z, s2)" by (metis prod.exhaust)
    then have "s' = s2" using Cons.prems(2) a Inr by (auto simp: bind_op_def split: sum.splits)
    with m have "map_op append rs s1 = (z, s')" by simp
    from Cons.IH [OF i(1) this i(2)] show ?thesis .
  qed
qed simp

lemma appends_read:
  "inv s \<Longrightarrow> list_all ok rs \<Longrightarrow> map_op append rs s = (Inr ns, s') \<Longrightarrow>
     length ns = length rs \<and> distinct ns \<and> (\<forall>n \<in> set ns. read n s = None) \<and>
     (\<forall>i < length rs. read (ns ! i) s' = Some (rs ! i))"
proof (induction rs arbitrary: s ns)
  case (Cons r rs)
  then obtain n ms s1 where a: "append r s = (Inr n, s1)" "map_op append rs s1 = (Inr ms, s')" "ns = n # ms"
    by (auto simp: bind_op_Inr)
  have i: "inv s1" using append_inv [OF Cons.prems(1), of r] a(1) by simp
  note r = append_read [OF Cons.prems(1) _ a(1)]
  have IH: "length ms = length rs" "distinct ms" "\<forall>k \<in> set ms. read k s1 = None"
    "\<forall>i < length rs. read (ms ! i) s' = Some (rs ! i)"
    using Cons.IH [OF i _ a(2)] Cons.prems(2) by auto
  have "n \<notin> set ms" using r Cons.prems(2) IH(3) by auto
  moreover have "read k s = None" if "k \<in> set ms" for k
    using IH(3) that append_frame [OF Cons.prems(1) a(1), of k] by (cases "read k s") auto
  moreover have "read n s' = Some r" using r Cons.prems(2) appends_keep [OF i a(2)] by auto
  ultimately show ?case using IH a(3) r Cons.prems(2) by (auto simp: nth_Cons split: nat.splits)
qed simp

end

lemma AppendReceipt_tables:
  assumes "AppendReceipt r st = (x, st')"
  shows "\<exists>extra. receipts st' = receipts st @ extra"
proof (cases x)
  case (Inr n)
  with AppendReceipt_Inr [of r st n st'] assms show ?thesis by auto
next
  case (Inl e)
  with assms have "tables st' = tables st"
    by (auto simp: AppendReceipt_def bind_op_def split: sum.splits dest: sql_Inl)
  then have "receipts st' = receipts st" by (metis tables_sel(1))
  then show ?thesis by simp
qed

interpretation sqlite: receipt_store AppendReceipt read_receipt db_inv receipt_ok
proof unfold_locales
  show "db_inv (snd (AppendReceipt r s))" if "db_inv s" for s r
    using keepsD [OF keeps_AppendReceipt that] .
next
  fix s r n s'
  assume inv: "db_inv s" and ok: "receipt_ok r" and a: "AppendReceipt r s = (Inr n, s')"
  obtain js where js: "marshal_receipt r = Inr js" "n = receipts_seq s + 1"
    "receipts s' = receipts s @ [\<lparr>rr_id = n, rr_json = js, rr_batched = False\<rparr>]"
    using AppendReceipt_Inr [OF a] by blast
  have "List.find (\<lambda>rw. rr_id rw = n) (receipts s) = None"
    using find_fresh [of "receipts s" "receipts_seq s"] inv js(2) by (simp add: db_inv_def)
  moreover have "unmarshal_receipt js = Inr r" using unmarshal_receipt_marshal [OF ok] js(1) by auto
  ultimately show "read_receipt n s = None \<and> read_receipt n s' = Some r"
    using js by (simp add: read_receipt_def find_append res_opt_def)
next
  fix s r x s' m q
  assume "AppendReceipt r s = (x, s')" and "read_receipt m s = Some q"
  then show "read_receipt m s' = Some q"
    using AppendReceipt_tables [of r s x s'] by (auto simp: read_receipt_def find_append split: option.splits)
qed

section \<open>Batches\<close>

lemma append_loop_Inr:
  assumes "append_loop rs st = (Inr ids, st')"
  shows "ids = map (\<lambda>i. receipts_seq st + 1 + int i) [0..<length rs] \<and>
     (\<exists>rows. receipts st' = receipts st @ rows \<and> map rr_id rows = ids \<and>
             map_res marshal_receipt rs = Inr (map rr_json rows) \<and> list_all (\<lambda>rw. \<not> rr_batched rw) rows)"
  using assms
proof (induction rs arbitrary: st ids)
  case (Cons r rs)
  from Cons.prems obtain js n st1 ms where
    js: "marshal_receipt r = Inr js" and ins: "sql (insert_receipt js) st = (Inr n, st1)"
    and rest: "append_loop rs st1 = (Inr ms, st')" and ids: "ids = n # ms"
    by (auto simp: bind_op_Inr wrap_op_Inr)
  obtain st0 where st0: "tables st0 = tables st" "insert_receipt js st0 = (n, st1)"
    using sql_Inr [OF ins] by blast
  have "receipts st0 = receipts st" "receipts_seq st0 = receipts_seq st"
    using st0(1) by (metis tables_sel(1), metis tables_sel(2))
  then have n: "n = receipts_seq st + 1" "receipts_seq st1 = n"
    "receipts st1 = receipts st @ [\<lparr>rr_id = n, rr_json = js, rr_batched = False\<rparr>]"
    using st0(2) by (auto simp: insert_receipt_def Let_def)
  from Cons.IH [OF rest] obtain rows where rows: "ms = map (\<lambda>i. receipts_seq st1 + 1 + int i) [0..<length rs]"
    "receipts st' = receipts st1 @ rows" "map rr_id rows = ms" "map_res marshal_receipt rs = Inr (map rr_json rows)"
    "list_all (\<lambda>rw. \<not> rr_batched rw) rows" by blast
  have "ids = map (\<lambda>i. receipts_seq st + 1 + int i) [0..<length (r # rs)]"
    unfolding ids rows(1) n(2) by (simp add: n(1) upt_rec [of 0] map_Suc_upt [symmetric] del: upt_Suc)
  with rows n js ids show ?case
    by (intro conjI exI [of _ "\<lparr>rr_id = n, rr_json = js, rr_batched = False\<rparr> # rows"]) simp_all
qed auto

lemma AppendReceiptsBatch_cases:
  assumes "AppendReceiptsBatch rs st = (x, st')"
  shows "(\<exists>e. x = Inl e \<and> tables st' = tables st) \<or>
         (\<exists>ids st1 st2. x = Inr ids \<and> tables st1 = tables st \<and> append_loop rs st1 = (Inr ids, st2) \<and>
            tables st' = tables st2)"
proof -
  have q: "wrap_op m (query f) s = (y, s') \<Longrightarrow> tables s' = tables s" for m and f :: "db \<Rightarrow> unit" and s y s'
    by (auto simp: wrap_op_def split: prod.splits dest: query_tables)
  show ?thesis
    using assms unfolding AppendReceiptsBatch_def rollback_to_def bind_op_def
    by (auto split: prod.splits sum.splits dest!: q) blast+
qed

section \<open>Reading what the tables hold\<close>

lemma GetReceiptsByRange_healthy:
  "db_faults st = [] \<Longrightarrow>
     GetReceiptsByRange a b st =
       (map_res unmarshal_row (filter (\<lambda>rw. rr_id rw \<ge> a \<and> rr_id rw \<le> b) (receipts st)), st)"
  by (simp add: GetReceiptsByRange_def scanReceipts_def bind_op_def split: sum.splits)

definition unbatched :: "db \<Rightarrow> receipt_row list" where
  "unbatched st = filter (\<lambda>rw. \<not> rr_batched rw) (receipts st)"

definition stored_row :: "receipt_row \<Rightarrow> stored_receipt res" where
  "stored_row rw = and_then (unmarshal_row rw) (\<lambda>r. Inr \<lparr>sr_RowID = rr_id rw, sr_Receipt = r\<rparr>)"

lemma FetchUnbatched_Inr:
  assumes "FetchUnbatched n st = (Inr out, st')"
  shows "map_res stored_row (sql_limit n (unbatched st)) = Inr out \<and> tables st' = tables st"
proof -
  obtain rows st1 where q: "query (\<lambda>st. sql_limit n (unbatched st)) st = (Inr rows, st1)"
    "scanStoredReceipts rows st1 = (Inr out, st')"
    using assms by (auto simp: FetchUnbatched_def bind_op_Inr unbatched_def)
  obtain st0 where "tables st0 = tables st" "rows = sql_limit n (unbatched st0)"
    using sql_Inr [OF q(1) [unfolded query_def]] by auto
  then have "rows = sql_limit n (unbatched st)" unfolding unbatched_def by (metis tables_sel(1))
  moreover have "map_res stored_row rows = Inr out" "tables st' = tables st1"
    using q(2) by (auto simp: scanStoredReceipts_def bind_op_Inr stored_row_def [abs_def] rows_err_def dest: query_tables)
  ultimately show ?thesis using query_tables [OF q(1)] by simp
qed

lemma FetchUnbatched_healthy:
  "db_faults st = [] \<Longrightarrow> FetchUnbatched n st = (map_res stored_row (sql_limit n (unbatched st)), st)"
  by (simp add: FetchUnbatched_def scanStoredReceipts_def bind_op_def unbatched_def stored_row_def [abs_def] split: sum.splits)

lemma stored_row_id: "stored_row rw = Inr sr \<Longrightarrow> sr_RowID sr = rr_id rw"
  by (auto simp: stored_row_def and_then_Inr)

lemma map_res_ids: "map_res stored_row rows = Inr out \<Longrightarrow> map sr_RowID out = map rr_id rows"
  by (induction rows arbitrary: out) (auto split: sum.splits dest: stored_row_id)

lemma MarkBatched_Inr:
  assumes "MarkBatched ids st = (Inr (), st')"
  shows "receipts st' = map (\<lambda>rw. if rr_id rw \<in> set ids then rw\<lparr>rr_batched := True\<rparr> else rw) (receipts st)"
proof (cases "ids = []")
  case True
  with assms show ?thesis by (simp add: MarkBatched_def)
next
  case False
  with assms obtain st0 where "tables st0 = tables st" "mark_rows ids st0 = ((), st')"
    using sql_Inr [of "mark_rows ids" st "()" st'] by (auto simp: MarkBatched_def)
  moreover from this have "receipts st0 = receipts st" by (metis tables_sel(1))
  ultimately show ?thesis by (auto simp: mark_rows_def)
qed

lemma unbatched_after_mark:
  assumes "db_inv st" and "ids = map rr_id (take k (unbatched st))"
    and "receipts st' = map (\<lambda>rw. if rr_id rw \<in> set ids then rw\<lparr>rr_batched := True\<rparr> else rw) (receipts st)"
  shows "unbatched st' = drop k (unbatched st)"
proof -
  have "distinct (map rr_id (receipts st))" using assms(1) ids_ok_distinct by (auto simp: db_inv_def)
  then have d: "distinct (map rr_id (unbatched st))" by (simp add: unbatched_def distinct_map_filter)
  have "filter (\<lambda>rw. \<not> rr_batched rw) (map (\<lambda>rw. if rr_id rw \<in> S then rw\<lparr>rr_batched := True\<rparr> else rw) rows) =
          filter (\<lambda>rw. rr_id rw \<notin> S) (filter (\<lambda>rw. \<not> rr_batched rw) rows)" for S rows
    by (induction rows) auto
  then have "unbatched st' = filter (\<lambda>rw. rr_id rw \<notin> set ids) (unbatched st)"
    using assms(3) by (simp only: unbatched_def)
  also have "\<dots> = filter (\<lambda>rw. rr_id rw \<notin> set ids) (take k (unbatched st)) @ filter (\<lambda>rw. rr_id rw \<notin> set ids) (drop k (unbatched st))"
    by (metis append_take_drop_id filter_append)
  also have "filter (\<lambda>rw. rr_id rw \<notin> set ids) (take k (unbatched st)) = []" using assms(2) by simp
  also have "filter (\<lambda>rw. rr_id rw \<notin> set ids) (drop k (unbatched st)) = drop k (unbatched st)"
  proof (rule filter_True, rule ballI)
    fix rw assume "rw \<in> set (drop k (unbatched st))"
    moreover have "distinct (map rr_id (take k (unbatched st)) @ map rr_id (drop k (unbatched st)))"
      using d by (metis append_take_drop_id map_append)
    ultimately show "rr_id rw \<notin> set ids" using assms(2) by auto
  qed
  finally show ?thesis by simp
qed

section \<open>Witness signatures\<close>

definition sig_map :: "witness_row list \<Rightarrow> (bytes \<times> bytes) list" where
  "sig_map rows = foldl (\<lambda>m x. AList.update (wr_witness_id x) (wr_sig_hex x) m) [] rows"

lemma WitnessSignatures_healthy:
  "db_faults st = [] \<Longrightarrow>
     WitnessSignatures c st = (Inr (sig_map (filter (\<lambda>x. wr_checkpoint_id x = c) (witness_sigs st))), st)"
  by (simp add: WitnessSignatures_def bind_op_def sig_map_def)

lemma find_absent: "k \<notin> f ` set xs \<Longrightarrow> List.find (\<lambda>x. f x = k) xs = None"
  by (induction xs) auto

lemma map_of_sig_map:
  "distinct (map wr_witness_id rows) \<Longrightarrow>
     map_of (sig_map rows) w = map_option wr_sig_hex (List.find (\<lambda>x. wr_witness_id x = w) rows)"
proof (induction rows rule: rev_induct)
  case (snoc x rows)
  then have "wr_witness_id x = w \<Longrightarrow> List.find (\<lambda>x. wr_witness_id x = w) rows = None"
    by (intro find_absent) auto
  with snoc show ?case
    by (cases "List.find (\<lambda>x. wr_witness_id x = w) rows") (auto simp: sig_map_def update_conv' find_append)
qed (simp add: sig_map_def)

lemma find_update:
  "List.find (\<lambda>x. wr_witness_id x = v) (map (\<lambda>x. if wr_witness_id x = w then x\<lparr>wr_sig_hex := s\<rparr> else x) rows) =
     map_option (\<lambda>x. if wr_witness_id x = w then x\<lparr>wr_sig_hex := s\<rparr> else x) (List.find (\<lambda>x. wr_witness_id x = v) rows)"
  by (induction rows) auto

lemma upsert_filter:
  "filter (\<lambda>x. wr_checkpoint_id x = c) (witness_sigs (snd (upsert_witness c' w s st))) =
     (let rows = filter (\<lambda>x. wr_checkpoint_id x = c) (witness_sigs st)
      in if c \<noteq> c' then rows
         else if \<exists>x \<in> set rows. wr_witness_id x = w
         then map (\<lambda>x. if wr_witness_id x = w then x\<lparr>wr_sig_hex := s\<rparr> else x) rows
         else rows @ [\<lparr>wr_id = witness_seq st + 1, wr_checkpoint_id = c', wr_witness_id = w, wr_sig_hex = s\<rparr>])"
proof -
  have "filter (\<lambda>x. wr_checkpoint_id x = c)
          (map (\<lambda>x. if wr_checkpoint_id x = c' \<and> wr_witness_id x = w then x\<lparr>wr_sig_hex := s\<rparr> else x) xs) =
        (if c \<noteq> c' then filter (\<lambda>x. wr_checkpoint_id x = c) xs
         else map (\<lambda>x. if wr_witness_id x = w then x\<lparr>wr_sig_hex := s\<rparr> else x) (filter (\<lambda>x. wr_checkpoint_id x = c) xs))"
    for xs :: "witness_row list"
    by (induction xs) auto
  then show ?thesis by (auto simp: upsert_witness_def Let_def)
qed

lemma witness_distinct:
  "db_inv st \<Longrightarrow> distinct (map wr_witness_id (filter (\<lambda>x. wr_checkpoint_id x = c) (witness_sigs st)))"
proof -
  have "distinct (map (\<lambda>x. (wr_checkpoint_id x, wr_witness_id x)) xs) \<Longrightarrow>
      distinct (map wr_witness_id (filter (\<lambda>x. wr_checkpoint_id x = c) xs))" for xs :: "witness_row list"
    by (induction xs) (auto simp: image_iff)
  then show "db_inv st \<Longrightarrow> ?thesis" by (simp add: db_inv_def)
qed

lemma sig_map_upsert:
  assumes "db_inv st"
  shows "map_of (sig_map (filter (\<lambda>x. wr_checkpoint_id x = c) (witness_sigs (snd (upsert_witness c' w s st))))) =
           (if c = c' then (map_of (sig_map (filter (\<lambda>x. wr_checkpoint_id x = c) (witness_sigs st))))(w \<mapsto> s)
            else map_of (sig_map (filter (\<lambda>x. wr_checkpoint_id x = c) (witness_sigs st))))"
proof (cases "c' = c")
  case True
  let ?rows = "filter (\<lambda>x. wr_checkpoint_id x = c) (witness_sigs st)"
  have d: "distinct (map wr_witness_id ?rows)"
    "distinct (map wr_witness_id (filter (\<lambda>x. wr_checkpoint_id x = c) (witness_sigs (snd (upsert_witness c' w s st)))))"
    using witness_distinct [OF assms] witness_distinct [OF upsert_witness_inv [OF assms]] by blast+
  show ?thesis
  proof (rule ext)
    fix v
    have new: "(\<not> (\<exists>x \<in> set ?rows. wr_witness_id x = w)) \<Longrightarrow> List.find (\<lambda>x. wr_witness_id x = w) ?rows = None"
      by (simp add: find_None_iff)
    have old: "(\<exists>x \<in> set ?rows. wr_witness_id x = w) \<Longrightarrow> \<exists>x. List.find (\<lambda>x. wr_witness_id x = w) ?rows = Some x \<and> wr_witness_id x = w"
      by (metis (mono_tags, lifting) find_None_iff find_Some_iff not_None_eq)
    have other: "List.find (\<lambda>x. wr_witness_id x = v) ?rows = Some x \<Longrightarrow> wr_witness_id x = v" for x
      by (auto simp: find_Some_iff)
    show "map_of (sig_map (filter (\<lambda>x. wr_checkpoint_id x = c) (witness_sigs (snd (upsert_witness c' w s st))))) v =
        (if c = c' then (map_of (sig_map ?rows))(w \<mapsto> s) else map_of (sig_map ?rows)) v"
      unfolding map_of_sig_map [OF d(2)]
      using True new old other
      by (cases "\<exists>x \<in> set ?rows. wr_witness_id x = w"; cases "List.find (\<lambda>x. wr_witness_id x = v) ?rows")
        (auto simp: upsert_filter Let_def map_of_sig_map [OF d(1)] find_update find_append)
  qed
next
  case False
  then show ?thesis by (simp add: upsert_filter Let_def)
qed

lemma filter_found:
  assumes "List.find (\<lambda>w. f w = (n :: int)) xs = Some x" and "distinct (map f xs)"
  shows "filter (\<lambda>w. n \<le> f w \<and> f w \<le> n) xs = [x]"
  using assms
proof (induction xs)
  case (Cons y xs)
  show ?case
  proof (cases "f y = n")
    case True
    with Cons.prems have "\<forall>w \<in> set xs. \<not> (n \<le> f w \<and> f w \<le> n)" by (auto simp: image_iff)
    then have "filter (\<lambda>w. n \<le> f w \<and> f w \<le> n) xs = []" by (simp add: filter_empty_conv)
    with True Cons.prems show ?thesis by simp
  next
    case False
    with Cons show ?thesis by auto
  qed
qed simp

section \<open>Properties\<close>

lemma range_of_read:
  assumes "db_inv st" and "db_faults st = []" and "read_receipt n st = Some r"
  shows "GetReceiptsByRange n n st = (Inr [r], st)"
proof -
  obtain rw where rw: "List.find (\<lambda>rw. rr_id rw = n) (receipts st) = Some rw" "unmarshal_receipt (rr_json rw) = Inr r"
    using assms(3) by (auto simp: read_receipt_def res_opt_def split: option.splits sum.splits)
  have "distinct (map rr_id (receipts st))" using assms(1) ids_ok_distinct by (auto simp: db_inv_def)
  then have "filter (\<lambda>w. rr_id w \<ge> n \<and> rr_id w \<le> n) (receipts st) = [rw]"
    using rw(1) by (intro filter_found) auto
  with rw(2) show ?thesis by (simp add: GetReceiptsByRange_healthy [OF assms(2)] unmarshal_row_def)
qed

text \<open>C14. A receipt (with \<open>receipt_ok\<close>) that \<^verbatim>\<open>AppendReceipt\<close> stored under a key is what \<^verbatim>\<open>GetReceiptsByRange\<close> returns for that
  key, however many receipts are appended after it.\<close>

theorem appended_receipt_is_read:
  assumes "db_inv st" and "receipt_ok r" and "AppendReceipt r st = (Inr n, st1)"
    and "map_op AppendReceipt rs st1 = (x, st2)" and "db_faults st2 = []"
  shows "GetReceiptsByRange n n st2 = (Inr [r], st2)"
proof -
  have inv1: "db_inv st1" using sqlite.append_inv [OF assms(1), of r] assms(3) by simp
  have "read_receipt n st1 = Some r" using sqlite.append_read [OF assms(1-3)] by simp
  with sqlite.appends_keep [OF inv1 assms(4)] have inv2: "db_inv st2" and r: "read_receipt n st2 = Some r" by auto
  from range_of_read [OF inv2 assms(5) r] show ?thesis .
qed

lemma sample_store:
  obtains st rw where "AppendReceipt sample_receipt empty_db = (Inr 1, st)" "db_faults st = []" "db_inv st"
    "unbatched st = [rw]" "stored_row rw = Inr \<lparr>sr_RowID = 1, sr_Receipt = sample_receipt\<rparr>"
proof -
  obtain js where js: "marshal_receipt sample_receipt = Inr js" "unmarshal_receipt js = Inr sample_receipt"
    using unmarshal_receipt_marshal [OF sample_receipt_ok] by blast
  define st where "st = snd (AppendReceipt sample_receipt empty_db)"
  have st: "AppendReceipt sample_receipt empty_db = (Inr 1, st)" "db_faults st = []"
    "receipts st = [\<lparr>rr_id = 1, rr_json = js, rr_batched = False\<rparr>]"
    using js by (simp_all add: st_def AppendReceipt_def bind_op_def sql_def empty_db_def insert_receipt_def Let_def)
  show ?thesis
  proof (rule that [OF st(1,2)])
    show "db_inv st" using keepsD [OF keeps_AppendReceipt empty_db_inv] by (simp add: st_def)
    show "unbatched st = [\<lparr>rr_id = 1, rr_json = js, rr_batched = False\<rparr>]" using st(3) by (simp add: unbatched_def)
    show "stored_row \<lparr>rr_id = 1, rr_json = js, rr_batched = False\<rparr> = Inr \<lparr>sr_RowID = 1, sr_Receipt = sample_receipt\<rparr>"
      using js(2) by (simp add: stored_row_def unmarshal_row_def)
  qed
qed

theorem appended_receipt_is_read_witness: "\<exists>st. GetReceiptsByRange 1 1 st = (Inr [sample_receipt], st)"
proof -
  obtain st where st: "AppendReceipt sample_receipt empty_db = (Inr 1, st)" "db_faults st = []" by (rule sample_store)
  have "map_op AppendReceipt [] st = (Inr [], st)" by simp
  from appended_receipt_is_read [OF empty_db_inv sample_receipt_ok st(1) this st(2)] show ?thesis ..
qed

text \<open>C15. \<^verbatim>\<open>AppendReceiptsBatch\<close> is atomic: an error at any of its calls leaves the tables as they were, and
  success stores exactly the marshalled receipts, in order, under consecutive keys.\<close>

theorem batch_atomic:
  "case AppendReceiptsBatch rs st of (x, st') \<Rightarrow>
     (case x of
           Inl e \<Rightarrow> tables st' = tables st
         | Inr ids \<Rightarrow> ids = map (\<lambda>i. receipts_seq st + 1 + int i) [0..<length rs] \<and>
             (\<exists>rows. receipts st' = receipts st @ rows \<and> map rr_id rows = ids \<and>
                     map_res marshal_receipt rs = Inr (map rr_json rows)))"
proof -
  obtain x st' where xs: "AppendReceiptsBatch rs st = (x, st')" by (metis prod.exhaust)
  show ?thesis
  using AppendReceiptsBatch_cases [OF xs]
proof (elim disjE exE conjE)
  fix e assume "x = Inl e" "tables st' = tables st"
  with xs show ?thesis by simp
next
  fix ids st1 st2
  assume a: "x = Inr ids" "tables st1 = tables st" "append_loop rs st1 = (Inr ids, st2)" "tables st' = tables st2"
  have eqs: "receipts st1 = receipts st" "receipts_seq st1 = receipts_seq st" "receipts st' = receipts st2"
    using a(2,4) by (metis tables_sel(1), metis tables_sel(2), metis tables_sel(1))
  with append_loop_Inr [OF a(3)] a(1) xs show ?thesis by auto
qed
qed

text \<open>C16. Marking the receipts that \<^verbatim>\<open>FetchUnbatched\<close> returned takes exactly them out of the queue: the rest
  of the queue stays in its order.\<close>

theorem fetch_then_mark:
  assumes "db_inv st" and "FetchUnbatched n st = (Inr out, st1)" and "0 \<le> n"
    and "MarkBatched (map sr_RowID out) st1 = (Inr (), st2)"
  shows "map sr_RowID out = map rr_id (take (length out) (unbatched st)) \<and>
         unbatched st2 = drop (length out) (unbatched st)"
proof -
  note f = FetchUnbatched_Inr [OF assms(2)]
  have ids: "map sr_RowID out = map rr_id (take (nat n) (unbatched st))"
    using map_res_ids [OF conjunct1 [OF f]] assms(3) by (simp add: sql_limit_def)
  then have len: "length out = length (take (nat n) (unbatched st))" by (metis length_map)
  then have k: "take (nat n) (unbatched st) = take (length out) (unbatched st)" by (simp add: min_def)
  have "receipts st1 = receipts st" using f by (metis tables_sel(1))
  then show ?thesis
    using unbatched_after_mark [OF assms(1), of "map sr_RowID out" "length out" st2] ids k MarkBatched_Inr [OF assms(4)]
    by simp
qed

theorem fetch_then_mark_witness:
  "\<exists>st st' rw. unbatched st = [rw] \<and> MarkBatched [1] st = (Inr (), st') \<and> unbatched st' = []"
proof -
  obtain st rw where st: "db_faults st = []" "db_inv st" "unbatched st = [rw]"
    "stored_row rw = Inr \<lparr>sr_RowID = 1, sr_Receipt = sample_receipt\<rparr>" by (rule sample_store)
  have f: "FetchUnbatched 5 st = (Inr [\<lparr>sr_RowID = 1, sr_Receipt = sample_receipt\<rparr>], st)"
    using st by (simp add: FetchUnbatched_healthy sql_limit_def)
  obtain st' where m: "MarkBatched [1] st = (Inr (), st')"
    using st(1) by (simp add: MarkBatched_def sql_healthy mark_rows_def)
  have "unbatched st' = drop 1 (unbatched st)"
    using fetch_then_mark [OF st(2) f, of st'] m by simp
  with m st(3) show ?thesis by auto
qed

text \<open>C17. The latest witness signature wins and no other changes: \<^verbatim>\<open>WitnessSignatures\<close> after
  \<^verbatim>\<open>AddWitnessSignature\<close> is the map of before updated at that witness of that checkpoint.\<close>

theorem witness_signature_upsert:
  assumes "db_inv st" and "AddWitnessSignature c' w s st = (Inr (), st')"
    and "WitnessSignatures c (tables st) = (Inr m0, st0)" and "WitnessSignatures c (tables st') = (Inr m, st1)"
  shows "map_of m = (if c = c' then (map_of m0)(w \<mapsto> s) else map_of m0)"
proof -
  obtain st2 where st2: "tables st2 = tables st" "upsert_witness c' w s st2 = ((), st')"
    using sql_Inr [of "upsert_witness c' w s" st "()" st'] assms(2) by (auto simp: AddWitnessSignature_def)
  have "witness_sigs st2 = witness_sigs st" using st2(1) by (metis tables_sel(4))
  moreover have "db_inv st2" using assms(1) st2(1) by (metis db_inv_faults tables_def)
  moreover have h: "db_faults (tables x) = []" for x by (simp add: tables_def)
  ultimately show ?thesis
    using sig_map_upsert [of st2 c c' w s] st2(2) assms(3,4)
    by (cases "c = c'") (auto simp: WitnessSignatures_healthy [OF h])
qed

theorem witness_signature_upsert_witness:
  "map_of [(''w'', ''s'')] = (if (1 :: int) = 1 then (map_of [])(''w'' \<mapsto> ''s'') else map_of [])"
proof -
  define st where "st = snd (AddWitnessSignature 1 ''w'' ''s'' empty_db)"
  have a: "AddWitnessSignature 1 ''w'' ''s'' empty_db = (Inr (), st)"
    by (simp add: st_def AddWitnessSignature_def sql_def empty_db_def upsert_witness_def)
  have w: "WitnessSignatures 1 (tables empty_db) = (Inr [], tables empty_db)"
    "WitnessSignatures 1 (tables st) = (Inr [(''w'', ''s'')], tables st)"
    by (simp_all add: WitnessSignatures_healthy tables_def)
      (simp_all add: st_def AddWitnessSignature_def sql_def empty_db_def upsert_witness_def sig_map_def)
  from witness_signature_upsert [OF empty_db_inv a w] show ?thesis .
qed

text \<open>C18. A saved checkpoint is the latest one and the one its key selects: the time is kept to the second
  and the Rekor index is \<open>-1\<close>.\<close>

theorem saved_checkpoint_is_latest:
  assumes "db_inv st" and "SaveCheckpoint c st = (Inr n, st')" and "db_faults st' = []"
  shows "LatestCheckpoint st' = (Inr (Some (c\<lparr>cp_ID := n, cp_IssuedAt := unix_time (t_sec (cp_IssuedAt c)),
           cp_RekorLogIndex := - 1\<rparr>)), st') \<and> GetCheckpoint n st' = LatestCheckpoint st'"
proof -
  let ?c = "c\<lparr>cp_ID := n, cp_IssuedAt := unix_time (t_sec (cp_IssuedAt c)), cp_RekorLogIndex := - 1\<rparr>"
  obtain st0 where st0: "tables st0 = tables st" "insert_checkpoint c st0 = (n, st')"
    using sql_Inr [of "insert_checkpoint c" st n st'] assms(2) by (auto simp: SaveCheckpoint_def)
  have inv: "db_inv st0" using assms(1) st0(1) by (metis db_inv_faults tables_def)
  then have "ids_ok (map ck_id (checkpoints st0)) (checkpoints_seq st0)" by (simp add: db_inv_def)
  then have "List.find (\<lambda>k. ck_id k = checkpoints_seq st0 + 1) (checkpoints st0) = None"
    by (intro find_absent) (fastforce dest: ids_ok_le)
  then show ?thesis
    using st0(2) assms(3)
    by (auto simp: LatestCheckpoint_def GetCheckpoint_def insert_checkpoint_def Let_def find_append scanCheckpoint_def
        scanCheckpointRow_def)
qed

definition sample_checkpoint :: store_checkpoint where
  "sample_checkpoint = \<lparr>cp_ID = 0, cp_BatchStart = 1, cp_BatchEnd = 2, cp_TreeSize = 2, cp_RootHex = ''ab'',
     cp_PreviousRootHex = [], cp_IssuedAt = \<lparr>t_sec = 100, t_nsec = 5, t_off = 0\<rparr>, cp_OperatorSigHex = ''cd'',
     cp_RekorLogIndex = 7\<rparr>"

theorem saved_checkpoint_is_latest_witness:
  "\<exists>st. LatestCheckpoint st = (Inr (Some (sample_checkpoint\<lparr>cp_ID := 1, cp_IssuedAt := unix_time 100,
           cp_RekorLogIndex := - 1\<rparr>)), st)"
proof -
  obtain st where st: "SaveCheckpoint sample_checkpoint empty_db = (Inr 1, st)" "db_faults st = []"
    by (simp add: SaveCheckpoint_def sql_def empty_db_def insert_checkpoint_def Let_def)
  from saved_checkpoint_is_latest [OF empty_db_inv st] show ?thesis by (auto simp: sample_checkpoint_def)
qed

end
