(* ===== verification/StoreSpec.thy ===== *)
theory StoreSpec
  imports StoreProofs
begin

text \<open>
  What the SQLite store is for: receipts and checkpoints by their keys, witness signatures by checkpoint
  and witness, a set of cosignatures. The detailed model of \<^verbatim>\<open>internal/store/sqlite.go\<close> refines this
  specification, write by write, whichever of its database calls fail; and its readers return what
  the specification holds.
\<close>

section \<open>The specification\<close>

record store_view =
  sv_receipts :: "int \<rightharpoonup> bytes \<times> bool"
  sv_checkpoints :: "int \<rightharpoonup> store_checkpoint"
  sv_sigs :: "int \<times> bytes \<rightharpoonup> bytes"
  sv_cosigs :: "(bytes \<times> bytes) set"

definition view :: "db \<Rightarrow> store_view" where
  "view st =
     \<lparr>sv_receipts = map_of (map (\<lambda>rw. (rr_id rw, rr_json rw, rr_batched rw)) (receipts st)),
      sv_checkpoints = map_of (map (\<lambda>k. (ck_id k, scanCheckpointRow k)) (checkpoints st)),
      sv_sigs = map_of (map (\<lambda>x. ((wr_checkpoint_id x, wr_witness_id x), wr_sig_hex x)) (witness_sigs st)),
      sv_cosigs = set (map (\<lambda>x. (cr_root_hex x, cr_note_text x)) (cosignatures st))\<rparr>"

text \<open>The writes of a store, with the keys they return.\<close>

datatype store_write =
    Append receipt
  | Append_Batch "receipt list"
  | Mark "int list"
  | Save store_checkpoint
  | Set_Rekor int int
  | Put_Signature int bytes bytes
  | Put_Cosignature bytes bytes

primrec perform :: "store_write \<Rightarrow> (db, int list) op" where
  "perform (Append r) = bind_op (AppendReceipt r) (\<lambda>n. ret_op [n])"
| "perform (Append_Batch rs) = AppendReceiptsBatch rs"
| "perform (Mark ids) = bind_op (MarkBatched ids) (\<lambda>_. ret_op [])"
| "perform (Save c) = bind_op (SaveCheckpoint c) (\<lambda>n. ret_op [n])"
| "perform (Set_Rekor i x) = bind_op (UpdateCheckpointRekorIndex i x) (\<lambda>_. ret_op [])"
| "perform (Put_Signature i w s) = bind_op (AddWitnessSignature i w s) (\<lambda>_. ret_op [])"
| "perform (Put_Cosignature h t) = bind_op (StoreCosignature h t) (\<lambda>_. ret_op [])"

text \<open>What a write that returns the keys \<open>ns\<close> has done: new receipts are not batched and sit under unused
  keys; a mark sets the flag of the listed receipts only; a new checkpoint has an unused key, its time in
  seconds and no Rekor index.\<close>

definition added :: "receipt list \<Rightarrow> int list \<Rightarrow> store_view \<Rightarrow> store_view \<Rightarrow> bool" where
  "added rs ns v v' =
     (\<exists>jss. map_res marshal_receipt rs = Inr jss \<and> length ns = length rs \<and> distinct ns \<and>
            (\<forall>n \<in> set ns. sv_receipts v n = None) \<and>
            v' = v\<lparr>sv_receipts := sv_receipts v ++ map_of (zip ns (map (\<lambda>js. (js, False)) jss))\<rparr>)"

primrec promised :: "store_write \<Rightarrow> int list \<Rightarrow> store_view \<Rightarrow> store_view \<Rightarrow> bool" where
  "promised (Append r) ns v v' = added [r] ns v v'"
| "promised (Append_Batch rs) ns v v' = added rs ns v v'"
| "promised (Mark ids) ns v v' =
     (v' = v\<lparr>sv_receipts := \<lambda>n. map_option (\<lambda>(js, b). (js, b \<or> n \<in> set ids)) (sv_receipts v n)\<rparr>)"
| "promised (Save c) ns v v' =
     (\<exists>n. ns = [n] \<and> sv_checkpoints v n = None \<and>
          v' = v\<lparr>sv_checkpoints := (sv_checkpoints v)
                  (n \<mapsto> c\<lparr>cp_ID := n, cp_IssuedAt := unix_time (t_sec (cp_IssuedAt c)), cp_RekorLogIndex := - 1\<rparr>)\<rparr>)"
| "promised (Set_Rekor i x) ns v v' =
     (v' = v\<lparr>sv_checkpoints := (sv_checkpoints v)
              (i := map_option (\<lambda>c. c\<lparr>cp_RekorLogIndex := x\<rparr>) (sv_checkpoints v i))\<rparr>)"
| "promised (Put_Signature i w s) ns v v' = (v' = v\<lparr>sv_sigs := (sv_sigs v)((i, w) \<mapsto> s)\<rparr>)"
| "promised (Put_Cosignature h t) ns v v' = (v' = v\<lparr>sv_cosigs := insert (h, t) (sv_cosigs v)\<rparr>)"

text \<open>The readers of the store return what the view holds.\<close>

definition served :: "db \<Rightarrow> store_view \<Rightarrow> bool" where
  "served st v =
     ((\<forall>n. GetReceiptsByRange n n st =
         (case sv_receipts v n of
            None \<Rightarrow> Inr []
          | Some (js, b) \<Rightarrow> and_then (wrap_err (''unmarshal receipt '' @ itoa n) (unmarshal_receipt js)) (\<lambda>r. Inr [r]), st)) \<and>
      (\<forall>i. GetCheckpoint i st = (Inr (sv_checkpoints v i), st)) \<and>
      (\<forall>i. \<exists>m. WitnessSignatures i st = (Inr m, st) \<and> (\<forall>w. map_of m w = sv_sigs v (i, w))) \<and>
      (\<forall>h. \<exists>ts. GetCosignatures h st = (Inr ts, st) \<and> set ts = {t. (h, t) \<in> sv_cosigs v}))"

section \<open>The writes refine it\<close>

lemma view_faults [simp]: "view (st\<lparr>db_faults := fs\<rparr>) = view st"
  by (simp add: view_def)

lemma view_tables: "tables st = tables st' \<Longrightarrow> view st = view st' \<and> db_inv st = db_inv st'"
  by (metis tables_def view_faults db_inv_faults)

text \<open>A call that fails has changed nothing; one that succeeds is its statement.\<close>

lemma sql_view_Inl: "sql f st = (Inl e, st') \<Longrightarrow> view st' = view st"
  using view_tables [of st' st] sql_Inl [of f st e st'] by simp

lemma sql_view_Inr:
  assumes "sql f st = (Inr x, st')"
  shows "\<exists>st0. view st0 = view st \<and> db_inv st0 = db_inv st \<and> f st0 = (x, st')"
proof -
  obtain st0 where "tables st0 = tables st" "f st0 = (x, st')" using sql_Inr [OF assms] by blast
  with view_tables [of st0 st] show ?thesis by auto
qed

lemma map_of_fresh: "k \<notin> fst ` set xs \<Longrightarrow> map_of (xs @ [(k, v)]) = (map_of xs)(k \<mapsto> v)"
  by (induction xs) (auto simp: fun_eq_iff)

lemma insert_receipt_view:
  assumes "db_inv st" and "insert_receipt js st = (n, st')"
  shows "sv_receipts (view st) n = None \<and> view st' = view st\<lparr>sv_receipts := (sv_receipts (view st))(n \<mapsto> (js, False))\<rparr>"
proof -
  have n: "n = receipts_seq st + 1"
    and st': "st' = st\<lparr>receipts := receipts st @ [\<lparr>rr_id = n, rr_json = js, rr_batched = False\<rparr>], receipts_seq := n\<rparr>"
    using assms(2) by (auto simp: insert_receipt_def Let_def)
  have "n \<notin> rr_id ` set (receipts st)"
    using assms(1) n by (fastforce simp: db_inv_def dest: ids_ok_le)
  then have "n \<notin> fst ` set (map (\<lambda>rw. (rr_id rw, rr_json rw, rr_batched rw)) (receipts st))" by (auto simp: image_image)
  with map_of_fresh [OF this] show ?thesis unfolding st' by (simp add: view_def map_of_eq_None_iff)
qed

lemma insert_checkpoint_view:
  assumes "db_inv st" and "insert_checkpoint c st = (n, st')"
  shows "promised (Save c) [n] (view st) (view st')"
proof -
  let ?k = "\<lparr>ck_id = n, ck_batch_start = cp_BatchStart c, ck_batch_end = cp_BatchEnd c, ck_tree_size = cp_TreeSize c,
    ck_root_hex = cp_RootHex c, ck_previous_root_hex = cp_PreviousRootHex c, ck_issued_at = t_sec (cp_IssuedAt c),
    ck_operator_sig_hex = cp_OperatorSigHex c, ck_rekor_log_index = - 1\<rparr>"
  have n: "n = checkpoints_seq st + 1" and st': "st' = st\<lparr>checkpoints := checkpoints st @ [?k], checkpoints_seq := n\<rparr>"
    using assms(2) by (auto simp: insert_checkpoint_def Let_def)
  have "n \<notin> ck_id ` set (checkpoints st)"
    using assms(1) n by (fastforce simp: db_inv_def dest: ids_ok_le)
  then have "n \<notin> fst ` set (map (\<lambda>k. (ck_id k, scanCheckpointRow k)) (checkpoints st))" by (auto simp: image_image)
  moreover have "scanCheckpointRow ?k = c\<lparr>cp_ID := n, cp_IssuedAt := unix_time (t_sec (cp_IssuedAt c)), cp_RekorLogIndex := - 1\<rparr>"
    by (cases c) (simp add: scanCheckpointRow_def)
  ultimately show ?thesis using map_of_fresh [of n "map (\<lambda>k. (ck_id k, scanCheckpointRow k)) (checkpoints st)"] unfolding st'
    by (simp add: view_def map_of_eq_None_iff)
qed

lemma mark_rows_view: "promised (Mark ids) [] (view st) (view (snd (mark_rows ids st)))"
proof -
  have "map_of (map (\<lambda>rw. (rr_id rw, rr_json rw, rr_batched rw)) (map (\<lambda>rw. if rr_id rw \<in> set ids then rw\<lparr>rr_batched := True\<rparr> else rw) rows)) =
      (\<lambda>n. map_option (\<lambda>(js, b). (js, b \<or> n \<in> set ids)) (map_of (map (\<lambda>rw. (rr_id rw, rr_json rw, rr_batched rw)) rows) n))"
    for rows :: "receipt_row list"
    by (induction rows) (auto simp: fun_eq_iff)
  then show ?thesis by (simp only: promised.simps) (simp add: view_def mark_rows_def)
qed

lemma set_rekor_view: "promised (Set_Rekor i x) [] (view st) (view (snd (set_rekor i x st)))"
proof -
  have "map_of (map (\<lambda>k. (ck_id k, scanCheckpointRow k)) (map (\<lambda>k. if ck_id k = i then k\<lparr>ck_rekor_log_index := x\<rparr> else k) rows)) =
      (map_of (map (\<lambda>k. (ck_id k, scanCheckpointRow k)) rows))
        (i := map_option (\<lambda>c. c\<lparr>cp_RekorLogIndex := x\<rparr>) (map_of (map (\<lambda>k. (ck_id k, scanCheckpointRow k)) rows) i))"
    for rows :: "checkpoint_row list"
    by (induction rows) (auto simp: fun_eq_iff scanCheckpointRow_def)
  then show ?thesis by (simp only: promised.simps) (simp add: view_def set_rekor_def)
qed

lemma upsert_witness_view: "promised (Put_Signature i w s) [] (view st) (view (snd (upsert_witness i w s st)))"
proof (cases "\<exists>x \<in> set (witness_sigs st). wr_checkpoint_id x = i \<and> wr_witness_id x = w")
  case True
  have "map_of (map (\<lambda>x. ((wr_checkpoint_id x, wr_witness_id x), wr_sig_hex x))
      (map (\<lambda>x. if wr_checkpoint_id x = i \<and> wr_witness_id x = w then x\<lparr>wr_sig_hex := s\<rparr> else x) rows)) =
    (map_of (map (\<lambda>x. ((wr_checkpoint_id x, wr_witness_id x), wr_sig_hex x)) rows))((i, w) \<mapsto> s)"
    if "\<exists>x \<in> set rows. wr_checkpoint_id x = i \<and> wr_witness_id x = w" for rows :: "witness_row list"
    using that
  proof (induction rows)
    case (Cons y rows)
    then show ?case
    proof (cases "\<exists>x \<in> set rows. wr_checkpoint_id x = i \<and> wr_witness_id x = w")
      case False
      then have "map (\<lambda>x. if wr_checkpoint_id x = i \<and> wr_witness_id x = w then x\<lparr>wr_sig_hex := s\<rparr> else x) rows = rows"
        by (intro map_idI) auto
      with Cons.prems False show ?thesis by (auto simp: fun_eq_iff)
    qed (auto simp: fun_eq_iff)
  qed simp
  with True show ?thesis by (simp only: promised.simps) (simp add: view_def upsert_witness_def)
next
  case False
  then have "(i, w) \<notin> fst ` set (map (\<lambda>x. ((wr_checkpoint_id x, wr_witness_id x), wr_sig_hex x)) (witness_sigs st))"
    by auto
  from map_of_fresh [OF this, of s] show ?thesis
    unfolding upsert_witness_def if_not_P [OF False] by (simp add: view_def)
qed

lemma insert_cosig_view: "promised (Put_Cosignature h t) [] (view st) (view (snd (insert_cosig h t st)))"
  by (auto simp: view_def insert_cosig_def)

lemma append_loop_view:
  "db_inv st \<Longrightarrow> append_loop rs st = (Inr ns, st') \<Longrightarrow> added rs ns (view st) (view st')"
proof (induction rs arbitrary: st ns)
  case Nil
  then show ?case by (simp add: added_def)
next
  case (Cons r rs)
  from Cons.prems(2) obtain js n st1 ms where
    js: "marshal_receipt r = Inr js" and ins: "sql (insert_receipt js) st = (Inr n, st1)"
    and rest: "append_loop rs st1 = (Inr ms, st')" and ns: "ns = n # ms"
    by (auto simp: bind_op_Inr wrap_op_Inr)
  obtain st0 where st0: "view st0 = view st" "db_inv st0" "insert_receipt js st0 = (n, st1)"
    using sql_view_Inr [OF ins] Cons.prems(1) by auto
  from insert_receipt_view [OF st0(2,3)] st0(1)
  have v: "sv_receipts (view st) n = None" "view st1 = view st\<lparr>sv_receipts := (sv_receipts (view st))(n \<mapsto> (js, False))\<rparr>" by simp_all
  have "db_inv st1" using insert_receipt_inv [OF st0(2), of js] st0(3) by simp
  from Cons.IH [OF this rest] obtain jss where
    h: "map_res marshal_receipt rs = Inr jss" "length ms = length rs" "distinct ms" "\<forall>m \<in> set ms. sv_receipts (view st1) m = None"
      "view st' = view st1\<lparr>sv_receipts := sv_receipts (view st1) ++ map_of (zip ms (map (\<lambda>js. (js, False)) jss))\<rparr>"
    by (auto simp: added_def)
  have "n \<notin> set ms" using h(4) v(2) by auto
  moreover have "sv_receipts (view st) m = None" if "m \<in> set ms" for m
  proof -
    have "m \<noteq> n" using that \<open>n \<notin> set ms\<close> by blast
    with bspec [OF h(4) that] v(2) show ?thesis by simp
  qed
  ultimately have fresh: "n \<notin> set ms" "\<forall>m \<in> set ms. sv_receipts (view st) m = None" by blast+
  have "n \<notin> dom (map_of (zip ms (map (\<lambda>js. (js, False)) jss)))" using fresh(1) by (auto dest: map_of_SomeD set_zip_leftD)
  then have "(sv_receipts (view st))(n \<mapsto> (js, False)) ++ map_of (zip ms (map (\<lambda>js. (js, False)) jss)) =
      sv_receipts (view st) ++ map_of (zip (n # ms) (map (\<lambda>js. (js, False)) (js # jss)))"
    by (simp add: map_add_upd_left)
  with h js v fresh show ?case by (auto simp: added_def ns intro!: exI [of _ "js # jss"])
qed

lemma Append_view:
  assumes "db_inv st" and "AppendReceipt r st = (x, st')"
  shows "case x of Inl e \<Rightarrow> view st' = view st | Inr n \<Rightarrow> added [r] [n] (view st) (view st')"
proof (cases x)
  case (Inl e)
  with assms(2) show ?thesis by (auto simp: AppendReceipt_def bind_op_def split: sum.splits dest: sql_view_Inl)
next
  case (Inr n)
  with assms(2) obtain js where js: "marshal_receipt r = Inr js" "sql (insert_receipt js) st = (Inr n, st')"
    by (auto simp: AppendReceipt_def bind_op_Inr)
  from sql_view_Inr [OF js(2)] assms(1) obtain st0 where "view st0 = view st" "db_inv st0" "insert_receipt js st0 = (n, st')" by auto
  with insert_receipt_view [of st0 js n st'] js(1) Inr show ?thesis by (auto simp: added_def map_add_def fun_eq_iff)
qed

lemma Batch_view:
  assumes "db_inv st" and "AppendReceiptsBatch rs st = (x, st')"
  shows "case x of Inl e \<Rightarrow> view st' = view st | Inr ns \<Rightarrow> added rs ns (view st) (view st')"
  using AppendReceiptsBatch_cases [OF assms(2)]
proof (elim disjE exE conjE)
  fix e assume "x = Inl e" "tables st' = tables st"
  then show ?thesis using view_tables [of st' st] by simp
next
  fix ns st1 st2
  assume a: "x = Inr ns" "tables st1 = tables st" "append_loop rs st1 = (Inr ns, st2)" "tables st' = tables st2"
  have "view st1 = view st" "db_inv st1" "view st' = view st2" using view_tables [OF a(2)] view_tables [OF a(4)] assms(1) by auto
  with append_loop_view [OF _ a(3)] a(1) show ?thesis by simp
qed

section \<open>The readers\<close>

lemma receipts_served:
  assumes "db_inv st" and "db_faults st = []"
  shows "GetReceiptsByRange n n st =
    (case sv_receipts (view st) n of
       None \<Rightarrow> Inr []
     | Some (js, b) \<Rightarrow> and_then (wrap_err (''unmarshal receipt '' @ itoa n) (unmarshal_receipt js)) (\<lambda>r. Inr [r]), st)"
proof -
  have d: "distinct (map rr_id (receipts st))" using assms(1) ids_ok_distinct by (auto simp: db_inv_def)
  have m: "map_of (map (\<lambda>rw. (rr_id rw, rr_json rw, rr_batched rw)) rows) n =
      map_option (\<lambda>rw. (rr_json rw, rr_batched rw)) (List.find (\<lambda>rw. rr_id rw = n) rows)" for rows :: "receipt_row list"
    by (induction rows) auto
  show ?thesis
  proof (cases "List.find (\<lambda>rw. rr_id rw = n) (receipts st)")
    case None
    then have "filter (\<lambda>rw. n \<le> rr_id rw \<and> rr_id rw \<le> n) (receipts st) = []"
      by (auto simp: find_None_iff filter_empty_conv)
    with None show ?thesis by (simp add: GetReceiptsByRange_healthy [OF assms(2)] view_def m)
  next
    case (Some rw)
    then have "rr_id rw = n" by (auto simp: find_Some_iff)
    with filter_found [OF Some d] Some show ?thesis
      by (simp add: GetReceiptsByRange_healthy [OF assms(2)] view_def m unmarshal_row_def and_then_def split: sum.split)
  qed
qed

lemma checkpoint_served:
  assumes "db_faults st = []"
  shows "GetCheckpoint i st = (Inr (sv_checkpoints (view st) i), st)"
proof -
  have "map_of (map (\<lambda>k. (ck_id k, scanCheckpointRow k)) rows) i =
      map_option scanCheckpointRow (List.find (\<lambda>k. ck_id k = i) rows)" for rows :: "checkpoint_row list"
    by (induction rows) auto
  with assms show ?thesis by (simp add: GetCheckpoint_def scanCheckpoint_def view_def)
qed

lemma signatures_served:
  assumes "db_inv st" and "db_faults st = []"
  shows "\<exists>m. WitnessSignatures i st = (Inr m, st) \<and> (\<forall>w. map_of m w = sv_sigs (view st) (i, w))"
proof -
  have "map_option wr_sig_hex (List.find (\<lambda>x. wr_witness_id x = w) (filter (\<lambda>x. wr_checkpoint_id x = i) rows)) =
      map_of (map (\<lambda>x. ((wr_checkpoint_id x, wr_witness_id x), wr_sig_hex x)) rows) (i, w)" for rows :: "witness_row list" and w
    by (induction rows) auto
  with map_of_sig_map [OF witness_distinct [OF assms(1)], of i] show ?thesis
    by (simp add: WitnessSignatures_healthy [OF assms(2)] view_def)
qed

lemma cosignatures_served:
  "db_faults st = [] \<Longrightarrow> \<exists>ts. GetCosignatures h st = (Inr ts, st) \<and> set ts = {t. (h, t) \<in> sv_cosigs (view st)}"
  by (auto simp: GetCosignatures_def bind_op_def view_def)

lemma view_served: "db_inv st \<Longrightarrow> db_faults st = [] \<Longrightarrow> served st (view st)"
  unfolding served_def using receipts_served checkpoint_served signatures_served cosignatures_served by blast

section \<open>Every write\<close>

lemma perform_inv: "db_inv st \<Longrightarrow> db_inv (snd (perform w st))"
  by (cases w) (auto intro!: keepsD [where P = db_inv] keeps_bind store_keeps)

text \<open>A write that is one statement does what the statement does.\<close>

lemma statement_view:
  assumes "db_inv st" and "bind_op (sql f) (\<lambda>z. ret_op (g z)) st = (x, st')"
    and "\<And>st0 z st1. db_inv st0 \<Longrightarrow> f st0 = (z, st1) \<Longrightarrow> promised w (g z) (view st0) (view st1)"
  shows "case x of Inl e \<Rightarrow> view st' = view st | Inr ns \<Rightarrow> promised w ns (view st) (view st')"
proof -
  obtain y st1 where y: "sql f st = (y, st1)" by fastforce
  show ?thesis
  proof (cases y)
    case (Inl e)
    with y assms(2) sql_view_Inl [of f st e st1] show ?thesis by (auto simp: bind_op_def)
  next
    case (Inr z)
    with y sql_view_Inr [of f st z st1] obtain st0 where s: "view st0 = view st" "db_inv st0 = db_inv st" "f st0 = (z, st1)" by blast
    from assms(3) [OF _ s(3)] assms(1) s have "promised w (g z) (view st) (view st1)" by simp
    with y Inr assms(2) show ?thesis by (auto simp: bind_op_def)
  qed
qed

lemma perform_view:
  assumes "db_inv st" and "perform w st = (x, st')"
  shows "case x of Inl e \<Rightarrow> view st' = view st | Inr ns \<Rightarrow> promised w ns (view st) (view st')"
proof (cases w)
  case (Append r)
  obtain y st1 where y: "AppendReceipt r st = (y, st1)" by fastforce
  with Append_view [OF assms(1) y] assms(2) Append show ?thesis by (cases y) (auto simp: bind_op_def)
next
  case (Append_Batch rs)
  with assms Batch_view [OF assms(1), of rs x st'] show ?thesis by (simp split: sum.splits)
next
  case (Mark ids)
  show ?thesis
  proof (cases "ids = []")
    case True
    have "(\<lambda>n. map_option (\<lambda>(js, b). (js, b)) (sv_receipts v n)) = sv_receipts v" for v :: store_view
      by (simp add: fun_eq_iff option.map_id)
    with True Mark assms(2) show ?thesis by (auto simp: MarkBatched_def bind_op_def)
  next
    case False
    with Mark assms(2) have "bind_op (sql (mark_rows ids)) (\<lambda>_. ret_op []) st = (x, st')" by (simp add: MarkBatched_def)
    then show ?thesis unfolding Mark by (rule statement_view [OF assms(1)]) (metis mark_rows_view snd_conv)
  qed
next
  case (Save c)
  with assms(2) have "bind_op (sql (insert_checkpoint c)) (\<lambda>n. ret_op [n]) st = (x, st')" by (simp add: SaveCheckpoint_def)
  then show ?thesis unfolding Save by (rule statement_view [OF assms(1)]) (rule insert_checkpoint_view)
next
  case (Set_Rekor i z)
  with assms(2) have "bind_op (sql (set_rekor i z)) (\<lambda>_. ret_op []) st = (x, st')" by (simp add: UpdateCheckpointRekorIndex_def)
  then show ?thesis unfolding Set_Rekor by (rule statement_view [OF assms(1)]) (metis set_rekor_view snd_conv)
next
  case (Put_Signature i u s)
  with assms(2) have "bind_op (sql (upsert_witness i u s)) (\<lambda>_. ret_op []) st = (x, st')" by (simp add: AddWitnessSignature_def)
  then show ?thesis unfolding Put_Signature by (rule statement_view [OF assms(1)]) (metis upsert_witness_view snd_conv)
next
  case (Put_Cosignature h t)
  with assms(2) have "bind_op (sql (insert_cosig h t)) (\<lambda>_. ret_op []) st = (x, st')" by (simp add: StoreCosignature_def)
  then show ?thesis unfolding Put_Cosignature by (rule statement_view [OF assms(1)]) (metis insert_cosig_view snd_conv)
qed

section \<open>Properties\<close>

text \<open>C13. The SQLite store refines its specification: a write that returns an error, whichever of its
  database calls failed, has changed nothing that can be read, and a write that succeeds has changed
  exactly what it promises (the new rows under unused keys, the flags of the listed receipts, the Rekor
  index of one checkpoint, one signature, one cosignature). The readers return what the specification holds.\<close>

theorem store_refines_view:
  assumes "db_inv st" and "perform w st = (x, st')"
  shows "(case x of Inl e \<Rightarrow> view st' = view st | Inr ns \<Rightarrow> promised w ns (view st) (view st')) \<and>
         db_inv st' \<and> (db_faults st' = [] \<longrightarrow> served st' (view st'))"
  using perform_view [OF assms] perform_inv [OF assms(1), of w] assms(2) view_served by simp

theorem store_refines_view_witness:
  "\<exists>st st'. GetCheckpoint 1 st = (Inr (Some (sample_checkpoint\<lparr>cp_ID := 1, cp_IssuedAt := unix_time 100, cp_RekorLogIndex := - 1\<rparr>)), st) \<and>
     perform (Set_Rekor 1 9) st = (Inr [], st') \<and>
     GetCheckpoint 1 st' = (Inr (Some (sample_checkpoint\<lparr>cp_ID := 1, cp_IssuedAt := unix_time 100, cp_RekorLogIndex := 9\<rparr>)), st')"
proof -
  obtain st where st: "perform (Save sample_checkpoint) empty_db = (Inr [1], st)" "db_faults st = []"
    by (simp add: SaveCheckpoint_def sql_def empty_db_def insert_checkpoint_def Let_def bind_op_def)
  note s = store_refines_view [OF empty_db_inv st(1)]
  obtain st' where st': "perform (Set_Rekor 1 9) st = (Inr [], st')" "db_faults st' = []"
    using st(2) by (simp add: UpdateCheckpointRekorIndex_def sql_healthy set_rekor_def bind_op_def)
  have "db_inv st" using s by simp
  note s' = store_refines_view [OF this st'(1)]
  have "sv_checkpoints (view st) 1 = Some (sample_checkpoint\<lparr>cp_ID := 1, cp_IssuedAt := unix_time 100, cp_RekorLogIndex := - 1\<rparr>)"
    using s by (auto simp: sample_checkpoint_def)
  moreover from this have "sv_checkpoints (view st') 1 = Some (sample_checkpoint\<lparr>cp_ID := 1, cp_IssuedAt := unix_time 100, cp_RekorLogIndex := 9\<rparr>)"
    using s' by (auto simp: sample_checkpoint_def)
  moreover have "GetCheckpoint 1 st = (Inr (sv_checkpoints (view st) 1), st)" "GetCheckpoint 1 st' = (Inr (sv_checkpoints (view st') 1), st')"
    using s s' st(2) st'(2) by (simp_all add: served_def del: promised.simps)
  ultimately show ?thesis using st'(1) by metis
qed

end
