(* ===== verification/Note.thy ===== *)
theory Note
  imports Merkle Signing
begin

text \<open>
  The signed notes of \<^verbatim>\<open>internal/witness\<close> (\<^verbatim>\<open>checkpoint.go\<close>, \<^verbatim>\<open>cosign.go\<close>, \<^verbatim>\<open>verify.go\<close>,
  \<^verbatim>\<open>endpoint.go\<close>): the C2SP checkpoint body and its parser, the key strings, merging and extracting
  signature lines, and the threshold check. The library \<^verbatim>\<open>golang.org/x/mod/sumdb/note\<close> is the
  parameter \<open>note_lib\<close> over its signers \<open>'sg\<close> and verifiers \<open>'vf\<close>.
\<close>

section \<open>Notes\<close>

record note_sig =
  ns_Name :: bytes
  ns_Hash :: int
  ns_Base64 :: bytes

record signed_note =
  nt_Text :: bytes
  nt_Sigs :: "note_sig list"
  nt_UnverifiedSigs :: "note_sig list"

text \<open>\<^verbatim>\<open>note.Open\<close> fails with \<^verbatim>\<open>*note.UnverifiedNoteError\<close>, which carries the note, or with another error.\<close>

datatype open_error = UnverifiedNote goerr signed_note | BadNote goerr

fun open_error_of :: "open_error \<Rightarrow> goerr" where
  "open_error_of (UnverifiedNote e n) = e"
| "open_error_of (BadNote e) = e"

record ('sg, 'vf) note_lib =
  nl_NewSigner :: "bytes \<Rightarrow> 'sg res"
  nl_NewEd25519VerifierKey :: "bytes \<Rightarrow> bytes \<Rightarrow> bytes res"
  nl_NewVerifier :: "bytes \<Rightarrow> 'vf res"
  nl_Name :: "'vf \<Rightarrow> bytes"
  nl_Sign :: "signed_note \<Rightarrow> 'sg list \<Rightarrow> bytes res"
  nl_Open :: "bytes \<Rightarrow> 'vf list \<Rightarrow> open_error + signed_note"

section \<open>Keys\<close>

definition noteAlgEd25519 :: char where
  "noteAlgEd25519 = char_of (1 :: nat)"

text \<open>The four bytes of the big-endian \<^verbatim>\<open>uint32\<close>; \<^verbatim>\<open>%08x\<close> prints them in hexadecimal.\<close>

definition newline :: char where
  "newline = char_of (10 :: nat)"

definition noteKeyHash :: "sha_fun \<Rightarrow> bytes \<Rightarrow> bytes \<Rightarrow> bytes" where
  "noteKeyHash sha name key = take 4 (sha (name @ [newline] @ key))"

text \<open>\<^verbatim>\<open>priv.Seed()\<close> is the first half of the 64-byte key.\<close>

definition note_skey :: "sha_fun \<Rightarrow> ed25519 \<Rightarrow> bytes \<Rightarrow> bytes \<Rightarrow> bytes" where
  "note_skey sha c logName priv =
     (let pubBytes = noteAlgEd25519 # ed_public c priv;
          h = noteKeyHash sha logName pubBytes;
          privBytes = noteAlgEd25519 # take 32 priv
      in ''PRIVATE+KEY+'' @ logName @ ''+'' @ hex_encode h @ ''+'' @ b64_encode privBytes)"

definition NewNoteSigner :: "('sg, 'vf) note_lib \<Rightarrow> sha_fun \<Rightarrow> ed25519 \<Rightarrow> bytes \<Rightarrow> bytes \<Rightarrow> 'sg res" where
  "NewNoteSigner nl sha c logName priv = nl_NewSigner nl (note_skey sha c logName priv)"

definition NewNoteVerifier :: "('sg, 'vf) note_lib \<Rightarrow> bytes \<Rightarrow> bytes \<Rightarrow> 'vf res" where
  "NewNoteVerifier nl logName pub =
     and_then (nl_NewEd25519VerifierKey nl logName pub) (nl_NewVerifier nl)"

section \<open>Checkpoint bodies\<close>

definition DefaultOrigin :: bytes where
  "DefaultOrigin = ''siqlah.dev/log''"

record c2sp_checkpoint =
  c2_Origin :: bytes
  c2_TreeSize :: nat
  c2_RootHash :: bytes
  c2_Raw :: bytes

definition FormatCheckpoint :: "bytes \<Rightarrow> nat \<Rightarrow> bytes \<Rightarrow> bytes" where
  "FormatCheckpoint origin treeSize rootHash =
     origin @ [newline] @ itoa_nat treeSize @ [newline] @ b64_encode rootHash @ [newline]"

definition SignCheckpoint :: "('sg, 'vf) note_lib \<Rightarrow> bytes \<Rightarrow> 'sg \<Rightarrow> bytes res" where
  "SignCheckpoint nl body signer =
     nl_Sign nl \<lparr>nt_Text = body, nt_Sigs = [], nt_UnverifiedSigs = []\<rparr> [signer]"

definition ParseCheckpoint :: "bytes \<Rightarrow> c2sp_checkpoint res" where
  "ParseCheckpoint raw =
     (let body = hd (split_n 2 [newline, newline] raw);
          lines = split_char newline body
      in if length lines < 3
         then Inl (Err (''malformed checkpoint: expected at least 3 body lines, got '' @ itoa (int (length lines))))
         else
           and_then (wrap_err (''malformed checkpoint: invalid tree size '' @ go_quote (lines ! 1))
                      (or_fail (Foreign ''strconv.ParseUint'') (parse_uint (lines ! 1)))) (\<lambda>treeSize.
           and_then (wrap_err (''malformed checkpoint: invalid root hash '' @ go_quote (lines ! 2))
                      (or_fail (Foreign ''illegal base64 data'') (b64_decode (lines ! 2)))) (\<lambda>rootHash.
             Inr \<lparr>c2_Origin = lines ! 0, c2_TreeSize = treeSize, c2_RootHash = rootHash, c2_Raw = raw\<rparr>)))"

definition OpenCheckpoint ::
  "('sg, 'vf) note_lib \<Rightarrow> bytes \<Rightarrow> 'vf list \<Rightarrow> (c2sp_checkpoint \<times> signed_note) res" where
  "OpenCheckpoint nl raw verifiers =
     (case nl_Open nl raw verifiers of
        Inl e \<Rightarrow> Inl (Wrap ''open checkpoint note'' (open_error_of e))
      | Inr n \<Rightarrow> and_then (ParseCheckpoint (nt_Text n)) (\<lambda>cp. Inr (cp\<lparr>c2_Raw := raw\<rparr>, n)))"

section \<open>Signature lines\<close>

text \<open>The em dash and the space that open a signature line: four bytes.\<close>

definition sig_mark :: bytes where
  "sig_mark = map char_of [226, 128, 148, 32 :: nat]"

definition is_sig_line :: "bytes \<Rightarrow> bool" where
  "is_sig_line line = (line \<noteq> [] \<and> has_prefix sig_mark line)"

text \<open>The loop that collects the lines not seen before; \<open>seen\<close> holds what \<open>sigLines\<close> holds.\<close>

definition collect_sigs :: "bytes \<Rightarrow> bytes list \<Rightarrow> bytes list" where
  "collect_sigs section sigLines =
     foldl (\<lambda>acc l. let line = trim_right_char (char_of (13 :: nat)) l
                    in if \<not> is_sig_line line \<or> line \<in> set acc then acc else acc @ [line])
       sigLines (split_char newline section)"

definition merge_note :: "bytes list \<Rightarrow> bytes \<Rightarrow> bytes list" where
  "merge_note sigLines cosigned =
     (case cut [newline, newline] cosigned of
        None \<Rightarrow> sigLines
      | Some (body, section) \<Rightarrow> collect_sigs section sigLines)"

definition sig_text :: "bytes list \<Rightarrow> bytes" where
  "sig_text sigLines = concat (map (\<lambda>line. line @ [newline]) sigLines)"

definition MergeCosignatures :: "bytes \<Rightarrow> bytes list \<Rightarrow> bytes res" where
  "MergeCosignatures operatorSigned cosignedNotes =
     (case cut [newline, newline] operatorSigned of
        None \<Rightarrow> Inl (Err (''malformed operator note: missing '' @ [backslash] @ ''n'' @ [backslash] @ ''n separator''))
      | Some (text, section) \<Rightarrow>
          Inr (text @ [newline] @ [newline] @
               sig_text (foldl merge_note (collect_sigs section []) cosignedNotes)))"

text \<open>\<^verbatim>\<open>line[2:]\<close> drops two bytes of the four-byte mark.\<close>

definition ExtractCosignatures :: "bytes \<Rightarrow> bytes \<Rightarrow> bytes list" where
  "ExtractCosignatures cosigned operatorName =
     (case cut [newline, newline] cosigned of
        None \<Rightarrow> []
      | Some (body, section) \<Rightarrow>
          filter (\<lambda>line. has_prefix sig_mark line \<and> \<not> has_prefix (operatorName @ '' '') (drop 2 line))
            (map trim_space (split_char newline section)))"

definition VerifyCosignedCheckpoint ::
  "('sg, 'vf) note_lib \<Rightarrow> bytes \<Rightarrow> 'vf \<Rightarrow> 'vf list \<Rightarrow> int \<Rightarrow> unit res" where
  "VerifyCosignedCheckpoint nl raw operatorVerifier requiredWitnesses threshold =
     (if threshold < 0 then Inl (Err ''threshold must be >= 0'')
      else
        and_then (case nl_Open nl raw (operatorVerifier # requiredWitnesses) of
                    Inr n \<Rightarrow> Inr n
                  | Inl e \<Rightarrow> (case e of UnverifiedNote _ n \<Rightarrow> Inr n
                      | BadNote e' \<Rightarrow> Inl (Wrap ''open cosigned checkpoint'' e'))) (\<lambda>n.
        if \<not> (\<exists>s \<in> set (nt_Sigs n). ns_Name s = nl_Name nl operatorVerifier)
        then Inl (Err (''operator signature by '' @ go_quote (nl_Name nl operatorVerifier) @ '' not verified''))
        else
          let verified = length (filter (\<lambda>s. ns_Name s \<in> nl_Name nl ` set requiredWitnesses) (nt_Sigs n))
          in if int verified < threshold
             then Inl (Err (''insufficient witness signatures: got '' @ itoa (int verified) @ '', need '' @ itoa threshold))
             else Inr ()))"

end
