(* ===== verification/Tessera.thy ===== *)
theory Tessera
  imports Note Store
begin

text \<open>
  \<^verbatim>\<open>internal/tessera\<close> (the adapter over the Tessera log library, and its note signer) and
  \<^verbatim>\<open>internal/store/interface.go\<close>, \<^verbatim>\<open>tessera_store.go\<close>: the interface \<^verbatim>\<open>Store\<close> as a record of
  operations over a state, its SQLite instance and its Tessera instance. The Tessera library is the
  parameter \<open>tessera\<close> over its own state \<open>'l\<close> and its proof builders \<open>'p\<close>.
\<close>

section \<open>The library\<close>

record tessera_opts =
  to_BatchSize :: int
  to_BatchAge :: int
  to_CheckpointInterval :: int

text \<open>Durations are in nanoseconds.\<close>

record ('l, 'p, 'sg) tessera =
  tl_mkdir :: "bytes \<Rightarrow> unit res"
  tl_driver :: "bytes \<Rightarrow> unit res"
  tl_appender :: "bytes \<Rightarrow> 'sg \<Rightarrow> tessera_opts \<Rightarrow> 'l res"
  tl_add :: "bytes \<Rightarrow> ('l, int) op"
  tl_read_checkpoint :: "('l, bytes) op"
  tl_proof_builder :: "int \<Rightarrow> ('l, 'p) op"
  tl_inclusion :: "'p \<Rightarrow> int \<Rightarrow> ('l, bytes list) op"
  tl_consistency :: "'p \<Rightarrow> int \<Rightarrow> int \<Rightarrow> ('l, bytes list) op"
  tl_entry_bundle :: "int \<Rightarrow> int \<Rightarrow> ('l, bytes list) op"
  tl_shutdown :: "('l, unit) op"

text \<open>\<^verbatim>\<open>os.IsNotExist\<close> recognises the unwrapped error only.\<close>

definition ErrNotExist :: goerr where
  "ErrNotExist = Foreign ''file does not exist''"

section \<open>The adapter\<close>

definition NewTesseraLog :: "('l, 'p, 'sg) tessera \<Rightarrow> bytes \<Rightarrow> 'sg \<Rightarrow> 'l res" where
  "NewTesseraLog tz storagePath signer =
     and_then (wrap_err ''create tessera storage dir'' (tl_mkdir tz storagePath)) (\<lambda>_.
     and_then (wrap_err ''create posix driver'' (tl_driver tz storagePath)) (\<lambda>_.
     wrap_err ''create tessera appender''
       (tl_appender tz storagePath signer
          \<lparr>to_BatchSize = 256, to_BatchAge = 250 * 1000000, to_CheckpointInterval = 5 * 1000000000\<rparr>)))"

definition tessera_Append :: "('l, 'p, 'sg) tessera \<Rightarrow> bytes \<Rightarrow> ('l, int) op" where
  "tessera_Append tz data = wrap_op ''tessera append'' (tl_add tz data)"

definition checkpoint_lines :: "bytes \<Rightarrow> bytes list res" where
  "checkpoint_lines raw =
     (let ls = split_n 4 [newline] raw
      in if length ls < 3 then Inl (Err ''malformed checkpoint: too few lines'') else Inr ls)"

definition ParseCheckpointSize :: "bytes \<Rightarrow> int res" where
  "ParseCheckpointSize raw =
     and_then (checkpoint_lines raw) (\<lambda>ls.
     and_then (wrap_err ''parse checkpoint size''
                 (or_fail (Foreign ''strconv.ParseUint'') (parse_uint (trim_space (ls ! 1))))) (\<lambda>n. Inr (int n)))"

definition ParseCheckpointRoot :: "bytes \<Rightarrow> bytes res" where
  "ParseCheckpointRoot raw =
     and_then (checkpoint_lines raw) (\<lambda>ls.
     wrap_err ''decode checkpoint root'' (or_fail (Foreign ''illegal base64 data'') (b64_decode (trim_space (ls ! 2)))))"

text \<open>A missing checkpoint file is the empty log.\<close>

definition read_or_missing :: "('l, 'p, 'sg) tessera \<Rightarrow> ('l, bytes option) op" where
  "read_or_missing tz s =
     (case tl_read_checkpoint tz s of (r, s') \<Rightarrow>
        (case r of Inr raw \<Rightarrow> Inr (Some raw)
         | Inl e \<Rightarrow> if e = ErrNotExist then Inr None else Inl (Wrap ''read checkpoint'' e), s'))"

definition tessera_TreeSize :: "('l, 'p, 'sg) tessera \<Rightarrow> ('l, int) op" where
  "tessera_TreeSize tz =
     bind_op (read_or_missing tz) (\<lambda>c. lift_op (case c of None \<Rightarrow> Inr 0 | Some raw \<Rightarrow> ParseCheckpointSize raw))"

definition tessera_RootHash :: "('l, 'p, 'sg) tessera \<Rightarrow> ('l, bytes) op" where
  "tessera_RootHash tz =
     bind_op (read_or_missing tz) (\<lambda>c. lift_op (case c of None \<Rightarrow> Inr [] | Some raw \<Rightarrow> ParseCheckpointRoot raw))"

definition tessera_ReadCheckpoint :: "('l, 'p, 'sg) tessera \<Rightarrow> ('l, bytes) op" where
  "tessera_ReadCheckpoint tz = tl_read_checkpoint tz"

definition tessera_InclusionProof :: "('l, 'p, 'sg) tessera \<Rightarrow> int \<Rightarrow> int \<Rightarrow> ('l, bytes list) op" where
  "tessera_InclusionProof tz index treeSize =
     bind_op (wrap_op ''build proof builder'' (tl_proof_builder tz treeSize)) (\<lambda>pb.
     wrap_op ''inclusion proof'' (tl_inclusion tz pb index))"

definition tessera_ConsistencyProof :: "('l, 'p, 'sg) tessera \<Rightarrow> int \<Rightarrow> int \<Rightarrow> ('l, bytes list) op" where
  "tessera_ConsistencyProof tz oldSize newSize =
     bind_op (wrap_op ''build proof builder'' (tl_proof_builder tz newSize)) (\<lambda>pb.
     wrap_op ''consistency proof'' (tl_consistency tz pb oldSize newSize))"

definition tessera_ReadEntry :: "('l, 'p, 'sg) tessera \<Rightarrow> int \<Rightarrow> ('l, bytes) op" where
  "tessera_ReadEntry tz index =
     bind_op (tessera_TreeSize tz) (\<lambda>treeSize.
     bind_op (wrap_op ''get entry bundle'' (tl_entry_bundle tz (index div 256) treeSize)) (\<lambda>entries.
       let off = index mod 256
       in lift_op (if off \<ge> int (length entries)
            then Inl (Err (''entry '' @ itoa index @ '' not found in bundle (bundle has '' @ itoa (int (length entries)) @ '' entries)''))
            else Inr (entries ! nat off))))"

definition tessera_NewNoteSigner :: "('sg, 'vf) note_lib \<Rightarrow> sha_fun \<Rightarrow> ed25519 \<Rightarrow> bytes \<Rightarrow> bytes \<Rightarrow> 'sg res" where
  "tessera_NewNoteSigner nl sha c logName priv =
     wrap_err ''create note signer'' (nl_NewSigner nl (note_skey sha c logName priv))"

definition tessera_NewNoteVerifier :: "('sg, 'vf) note_lib \<Rightarrow> bytes \<Rightarrow> bytes \<Rightarrow> 'vf res" where
  "tessera_NewNoteVerifier nl logName pub =
     and_then (wrap_err ''create note verifier key'' (nl_NewEd25519VerifierKey nl logName pub)) (\<lambda>vkey.
     wrap_err ''create note verifier'' (nl_NewVerifier nl vkey))"

section \<open>The interface of a store\<close>

record inclusion_result =
  ip_LeafIndex :: int
  ip_TreeSize :: int
  ip_RootHex :: bytes
  ip_Proof :: "bytes list"

record consistency_result =
  cs_OldSize :: int
  cs_NewSize :: int
  cs_OldRootHex :: bytes
  cs_NewRootHex :: bytes
  cs_Proof :: "bytes list"

record log_checkpoint =
  lc_TreeSize :: int
  lc_RootHex :: bytes
  lc_RawNote :: bytes

record 's store =
  S_AppendReceipt :: "receipt \<Rightarrow> ('s, int) op"
  S_AppendReceiptsBatch :: "receipt list \<Rightarrow> ('s, int list) op"
  S_GetReceiptByID :: "bytes \<Rightarrow> ('s, stored_receipt option) op"
  S_ListReceipts :: "int \<Rightarrow> int \<Rightarrow> ('s, stored_receipt list) op"
  S_FetchUnbatched :: "int \<Rightarrow> ('s, stored_receipt list) op"
  S_MarkBatched :: "int list \<Rightarrow> ('s, unit) op"
  S_GetReceiptsByRange :: "int \<Rightarrow> int \<Rightarrow> ('s, receipt list) op"
  S_SaveCheckpoint :: "store_checkpoint \<Rightarrow> ('s, int) op"
  S_GetCheckpoint :: "int \<Rightarrow> ('s, store_checkpoint option) op"
  S_GetCheckpointForRow :: "int \<Rightarrow> ('s, store_checkpoint option) op"
  S_ListCheckpoints :: "int \<Rightarrow> int \<Rightarrow> ('s, store_checkpoint list) op"
  S_LatestCheckpoint :: "('s, store_checkpoint option) op"
  S_UpdateCheckpointRekorIndex :: "int \<Rightarrow> int \<Rightarrow> ('s, unit) op"
  S_AddWitnessSignature :: "int \<Rightarrow> bytes \<Rightarrow> bytes \<Rightarrow> ('s, unit) op"
  S_WitnessSignatures :: "int \<Rightarrow> ('s, (bytes \<times> bytes) list) op"
  S_StoreCosignature :: "bytes \<Rightarrow> bytes \<Rightarrow> ('s, unit) op"
  S_GetCosignatures :: "bytes \<Rightarrow> ('s, bytes list) op"
  S_AppendToLog :: "bytes \<Rightarrow> ('s, int) op"
  S_GetLogInclusionProof :: "int \<Rightarrow> int \<Rightarrow> ('s, inclusion_result) op"
  S_GetLogConsistencyProof :: "int \<Rightarrow> int \<Rightarrow> ('s, consistency_result) op"
  S_GetLogCheckpoint :: "('s, log_checkpoint) op"
  S_Stats :: "('s, store_stats) op"

definition sqlite_store :: "db store" where
  "sqlite_store =
     \<lparr>S_AppendReceipt = AppendReceipt, S_AppendReceiptsBatch = AppendReceiptsBatch,
      S_GetReceiptByID = GetReceiptByID, S_ListReceipts = ListReceipts, S_FetchUnbatched = FetchUnbatched,
      S_MarkBatched = MarkBatched, S_GetReceiptsByRange = GetReceiptsByRange, S_SaveCheckpoint = SaveCheckpoint,
      S_GetCheckpoint = GetCheckpoint, S_GetCheckpointForRow = GetCheckpointForRow,
      S_ListCheckpoints = ListCheckpoints, S_LatestCheckpoint = LatestCheckpoint,
      S_UpdateCheckpointRekorIndex = UpdateCheckpointRekorIndex, S_AddWitnessSignature = AddWitnessSignature,
      S_WitnessSignatures = WitnessSignatures, S_StoreCosignature = StoreCosignature,
      S_GetCosignatures = GetCosignatures,
      S_AppendToLog = (\<lambda>_. lift_op (unsupported ''AppendToLog'')),
      S_GetLogInclusionProof = (\<lambda>_ _. lift_op (unsupported ''GetLogInclusionProof'')),
      S_GetLogConsistencyProof = (\<lambda>_ _. lift_op (unsupported ''GetLogConsistencyProof'')),
      S_GetLogCheckpoint = lift_op (unsupported ''GetLogCheckpoint''), S_Stats = Stats\<rparr>"

section \<open>The Tessera store\<close>

text \<open>The embedded \<^verbatim>\<open>*SQLiteStore\<close> and the log; an operation on one of them leaves the other alone.\<close>

definition on_sqlite :: "(db, 'a) op \<Rightarrow> (db \<times> 'l, 'a) op" where
  "on_sqlite m s = (case m (fst s) of (r, d) \<Rightarrow> (r, (d, snd s)))"

definition on_log :: "('l, 'a) op \<Rightarrow> (db \<times> 'l, 'a) op" where
  "on_log m s = (case m (snd s) of (r, l) \<Rightarrow> (r, (fst s, l)))"

definition NewTesseraStore ::
  "('l, 'p, 'sg) tessera \<Rightarrow> ('sg, 'vf) note_lib \<Rightarrow> sha_fun \<Rightarrow> ed25519 \<Rightarrow> db res \<Rightarrow> bytes \<Rightarrow> bytes \<Rightarrow> bytes \<Rightarrow> (db \<times> 'l) res" where
  "NewTesseraStore tz nl sha c opened tesseraPath logName priv =
     and_then (wrap_err ''open sqlite'' opened) (\<lambda>d.
     and_then (wrap_err ''create note signer'' (tessera_NewNoteSigner nl sha c logName priv)) (\<lambda>signer.
     and_then (wrap_err ''create tessera log'' (NewTesseraLog tz tesseraPath signer)) (\<lambda>l. Inr (d, l))))"

definition log_canonical :: "('l, 'p, 'sg) tessera \<Rightarrow> receipt \<Rightarrow> (db \<times> 'l, unit) op" where
  "log_canonical tz r =
     bind_op (wrap_op ''canonical bytes for log append'' (lift_op (CanonicalBytes r))) (\<lambda>cb.
     bind_op (wrap_op ''tessera append'' (on_log (tessera_Append tz cb))) (\<lambda>_. ret_op ()))"

definition ts_AppendReceipt :: "('l, 'p, 'sg) tessera \<Rightarrow> receipt \<Rightarrow> (db \<times> 'l, int) op" where
  "ts_AppendReceipt tz r =
     bind_op (on_sqlite (AppendReceipt r)) (\<lambda>rowID. bind_op (log_canonical tz r) (\<lambda>_. ret_op rowID))"

definition ts_AppendReceiptsBatch :: "('l, 'p, 'sg) tessera \<Rightarrow> receipt list \<Rightarrow> (db \<times> 'l, int list) op" where
  "ts_AppendReceiptsBatch tz rs =
     bind_op (on_sqlite (AppendReceiptsBatch rs)) (\<lambda>ids. bind_op (map_op (log_canonical tz) rs) (\<lambda>_. ret_op ids))"

definition ts_GetLogInclusionProof :: "('l, 'p, 'sg) tessera \<Rightarrow> int \<Rightarrow> int \<Rightarrow> (db \<times> 'l, inclusion_result) op" where
  "ts_GetLogInclusionProof tz receiptIndex treeSize =
     bind_op (on_log (tessera_InclusionProof tz receiptIndex treeSize)) (\<lambda>pf.
     bind_op (on_log (tessera_RootHash tz)) (\<lambda>root.
     ret_op \<lparr>ip_LeafIndex = receiptIndex, ip_TreeSize = treeSize, ip_RootHex = hex_encode root, ip_Proof = pf\<rparr>))"

definition ts_GetLogConsistencyProof :: "('l, 'p, 'sg) tessera \<Rightarrow> int \<Rightarrow> int \<Rightarrow> (db \<times> 'l, consistency_result) op" where
  "ts_GetLogConsistencyProof tz oldSize newSize =
     bind_op (on_log (tessera_ConsistencyProof tz oldSize newSize)) (\<lambda>pf.
     bind_op (on_log (tessera_RootHash tz)) (\<lambda>root.
     ret_op \<lparr>cs_OldSize = oldSize, cs_NewSize = newSize, cs_OldRootHex = [], cs_NewRootHex = hex_encode root,
             cs_Proof = pf\<rparr>))"

definition ts_GetLogCheckpoint :: "('l, 'p, 'sg) tessera \<Rightarrow> (db \<times> 'l, log_checkpoint) op" where
  "ts_GetLogCheckpoint tz =
     bind_op (on_log (tessera_ReadCheckpoint tz)) (\<lambda>raw.
     bind_op (lift_op (ParseCheckpointSize raw)) (\<lambda>size.
     bind_op (lift_op (ParseCheckpointRoot raw)) (\<lambda>root.
     ret_op \<lparr>lc_TreeSize = size, lc_RootHex = hex_encode root, lc_RawNote = raw\<rparr>)))"

definition tessera_store :: "('l, 'p, 'sg) tessera \<Rightarrow> (db \<times> 'l) store" where
  "tessera_store tz =
     \<lparr>S_AppendReceipt = ts_AppendReceipt tz, S_AppendReceiptsBatch = ts_AppendReceiptsBatch tz,
      S_GetReceiptByID = (\<lambda>i. on_sqlite (GetReceiptByID i)), S_ListReceipts = (\<lambda>o1 n. on_sqlite (ListReceipts o1 n)),
      S_FetchUnbatched = (\<lambda>n. on_sqlite (FetchUnbatched n)), S_MarkBatched = (\<lambda>ids. on_sqlite (MarkBatched ids)),
      S_GetReceiptsByRange = (\<lambda>a b. on_sqlite (GetReceiptsByRange a b)),
      S_SaveCheckpoint = (\<lambda>c. on_sqlite (SaveCheckpoint c)), S_GetCheckpoint = (\<lambda>i. on_sqlite (GetCheckpoint i)),
      S_GetCheckpointForRow = (\<lambda>i. on_sqlite (GetCheckpointForRow i)),
      S_ListCheckpoints = (\<lambda>o1 n. on_sqlite (ListCheckpoints o1 n)), S_LatestCheckpoint = on_sqlite LatestCheckpoint,
      S_UpdateCheckpointRekorIndex = (\<lambda>i j. on_sqlite (UpdateCheckpointRekorIndex i j)),
      S_AddWitnessSignature = (\<lambda>i w s. on_sqlite (AddWitnessSignature i w s)),
      S_WitnessSignatures = (\<lambda>i. on_sqlite (WitnessSignatures i)),
      S_StoreCosignature = (\<lambda>h t. on_sqlite (StoreCosignature h t)),
      S_GetCosignatures = (\<lambda>h. on_sqlite (GetCosignatures h)),
      S_AppendToLog = (\<lambda>d. on_log (tessera_Append tz d)), S_GetLogInclusionProof = ts_GetLogInclusionProof tz,
      S_GetLogConsistencyProof = ts_GetLogConsistencyProof tz, S_GetLogCheckpoint = ts_GetLogCheckpoint tz,
      S_Stats = on_sqlite Stats\<rparr>"

text \<open>\<^verbatim>\<open>Close\<close> shuts the log down, ignores its error and closes the database.\<close>

definition ts_Close :: "('l, 'p, 'sg) tessera \<Rightarrow> unit res \<Rightarrow> (db \<times> 'l, unit) op" where
  "ts_Close tz sqlite_close s = (case on_log (tl_shutdown tz) s of (_, s') \<Rightarrow> (sqlite_close, s'))"

end
