(* ===== verification/Checkpoint.thy ===== *)
theory Checkpoint
  imports Tessera
begin

text \<open>
  \<^verbatim>\<open>internal/checkpoint\<close>: the signed payload, the two builders over a store, the operator's and the
  witness's signatures and the chain check. The time of the call is the argument \<open>now\<close>.
\<close>

section \<open>The payload\<close>

record signed_payload =
  sp_BatchStart :: int
  sp_BatchEnd :: int
  sp_TreeSize :: int
  sp_RootHex :: bytes
  sp_PreviousRootHex :: bytes
  sp_IssuedAt :: bytes

definition payload_members :: "signed_payload \<Rightarrow> member list" where
  "payload_members p =
     [m_int ''batch_start'' (sp_BatchStart p), m_int ''batch_end'' (sp_BatchEnd p),
      m_int ''tree_size'' (sp_TreeSize p), m_str ''root_hex'' (sp_RootHex p),
      m_str ''previous_root_hex'' (sp_PreviousRootHex p), m_str ''issued_at'' (sp_IssuedAt p)]"

definition payload_Bytes :: "signed_payload \<Rightarrow> bytes res" where
  "payload_Bytes p = wrap_err ''payload bytes'' (marshal_struct (payload_members p))"

text \<open>The payload of a checkpoint: \<^verbatim>\<open>cp.IssuedAt.UTC().Format(...)\<close>.\<close>

definition payload_of :: "store_checkpoint \<Rightarrow> signed_payload" where
  "payload_of cp =
     \<lparr>sp_BatchStart = cp_BatchStart cp, sp_BatchEnd = cp_BatchEnd cp, sp_TreeSize = cp_TreeSize cp,
      sp_RootHex = cp_RootHex cp, sp_PreviousRootHex = cp_PreviousRootHex cp,
      sp_IssuedAt = canonical_time (cp_IssuedAt cp)\<rparr>"

section \<open>The builders\<close>

record builder =
  b_privateKey :: bytes
  b_maxBatch :: int

definition NewBuilder :: "bytes \<Rightarrow> int \<Rightarrow> builder" where
  "NewBuilder key maxBatch = \<lparr>b_privateKey = key, b_maxBatch = (if maxBatch \<le> 0 then 1000 else maxBatch)\<rparr>"

text \<open>The leaf of a stored receipt.\<close>

definition receipt_leaf :: "sha_fun \<Rightarrow> receipt \<Rightarrow> bytes res" where
  "receipt_leaf sha r =
     and_then (wrap_err (''canonical bytes for receipt '' @ r_ID r) (CanonicalBytes r)) (\<lambda>cb. Inr (HashLeaf sha cb))"

text \<open>\<^verbatim>\<open>if prev, _ := LatestCheckpoint(); prev != nil\<close>: the error is dropped.\<close>

definition previous_root :: "'s store \<Rightarrow> ('s, bytes) op" where
  "previous_root S s =
     (case S_LatestCheckpoint S s of (r, s') \<Rightarrow>
        (Inr (case r of Inl e \<Rightarrow> [] | Inr cp \<Rightarrow> (case cp of None \<Rightarrow> [] | Some k \<Rightarrow> cp_RootHex k)), s'))"

text \<open>\<^verbatim>\<open>time.Now().UTC().Truncate(time.Second)\<close>.\<close>

definition truncate_second :: "gotime \<Rightarrow> gotime" where
  "truncate_second t = \<lparr>t_sec = t_sec t, t_nsec = 0, t_off = 0\<rparr>"

text \<open>The end of both builders: sign the payload, save the checkpoint.\<close>

definition sign_and_save ::
  "'s store \<Rightarrow> ed25519 \<Rightarrow> bytes \<Rightarrow> gotime \<Rightarrow> int \<Rightarrow> int \<Rightarrow> int \<Rightarrow> bytes \<Rightarrow> ('s, store_checkpoint) op" where
  "sign_and_save S c key now batchStart batchEnd treeSize rootHex =
     bind_op (previous_root S) (\<lambda>prevRootHex.
     let cp = \<lparr>cp_ID = 0, cp_BatchStart = batchStart, cp_BatchEnd = batchEnd, cp_TreeSize = treeSize,
               cp_RootHex = rootHex, cp_PreviousRootHex = prevRootHex, cp_IssuedAt = truncate_second now,
               cp_OperatorSigHex = [], cp_RekorLogIndex = 0\<rparr>
     in bind_op (lift_op (payload_Bytes (payload_of cp))) (\<lambda>pb.
        let cp1 = cp\<lparr>cp_OperatorSigHex := hex_encode (ed_sign c key pb)\<rparr>
        in bind_op (wrap_op ''save checkpoint'' (S_SaveCheckpoint S cp1)) (\<lambda>n. ret_op (cp1\<lparr>cp_ID := n\<rparr>))))"

text \<open>\<open>None\<close> is a call that never returns (\<^verbatim>\<open>merkle.BuildRoot\<close>); the checkpoint is \<open>None\<close> for \<^verbatim>\<open>nil, nil\<close>.\<close>

definition BuildAndSign ::
  "'s store \<Rightarrow> sha_fun \<Rightarrow> ed25519 \<Rightarrow> gotime \<Rightarrow> builder \<Rightarrow> 's \<Rightarrow> (store_checkpoint option res \<times> 's) option" where
  "BuildAndSign S sha c now b s =
     (case wrap_op ''fetch unbatched'' (S_FetchUnbatched S (b_maxBatch b)) s of (r, s1) \<Rightarrow>
      case r of
        Inl e \<Rightarrow> Some (Inl e, s1)
      | Inr stored \<Rightarrow>
          if stored = [] then Some (Inr None, s1)
          else case map_res (\<lambda>sr. receipt_leaf sha (sr_Receipt sr)) stored of
              Inl e \<Rightarrow> Some (Inl e, s1)
            | Inr leaves \<Rightarrow>
                Option.bind (BuildRoot sha leaves) (\<lambda>rt.
                let rowIDs = map sr_RowID stored
                in Some (bind_op (sign_and_save S c (b_privateKey b) now (hd rowIDs) (last rowIDs)
                                    (int (length leaves)) (FormatRoot rt)) (\<lambda>cp.
                         bind_op (wrap_op ''mark batched'' (S_MarkBatched S rowIDs)) (\<lambda>_.
                         ret_op (Some cp))) s1)))"

definition NewTesseraBuilder :: "bytes \<Rightarrow> int \<Rightarrow> builder" where
  "NewTesseraBuilder key maxBatch = \<lparr>b_privateKey = key, b_maxBatch = (if maxBatch \<le> 0 then 1000 else maxBatch)\<rparr>"

definition tessera_BuildAndSign ::
  "'s store \<Rightarrow> ed25519 \<Rightarrow> gotime \<Rightarrow> builder \<Rightarrow> ('s, store_checkpoint option) op" where
  "tessera_BuildAndSign S c now tb =
     bind_op (wrap_op ''get tessera checkpoint'' (S_GetLogCheckpoint S)) (\<lambda>lcp.
     if lc_TreeSize lcp = 0 then ret_op None
     else bind_op (sign_and_save S c (b_privateKey tb) now 0 (wrap64 (wrap64 (lc_TreeSize lcp) - 1))
                     (wrap64 (lc_TreeSize lcp)) (lc_RootHex lcp)) (\<lambda>cp. ret_op (Some cp)))"

section \<open>Signatures on a checkpoint\<close>

definition VerifyOperatorSignature :: "ed25519 \<Rightarrow> store_checkpoint \<Rightarrow> bytes \<Rightarrow> unit res" where
  "VerifyOperatorSignature c cp pubKey =
     (if cp_OperatorSigHex cp = [] then Inl (Err ''checkpoint has no operator signature'')
      else and_then (wrap_err ''decode operator sig''
                      (or_fail (Foreign ''encoding/hex'') (hex_decode (cp_OperatorSigHex cp)))) (\<lambda>sig.
           and_then (payload_Bytes (payload_of cp)) (\<lambda>pb.
           if \<not> ed_verify c pubKey pb sig then Inl (Err ''operator signature mismatch'') else Inr ())))"

definition CoSign :: "ed25519 \<Rightarrow> store_checkpoint \<Rightarrow> bytes \<Rightarrow> bytes \<Rightarrow> bytes res" where
  "CoSign c cp operatorPub witnessKey =
     and_then (wrap_err ''cosign: operator verification failed'' (VerifyOperatorSignature c cp operatorPub)) (\<lambda>_.
     and_then (payload_Bytes (payload_of cp)) (\<lambda>pb. Inr (hex_encode (ed_sign c witnessKey pb))))"

definition VerifyWitness :: "ed25519 \<Rightarrow> store_checkpoint \<Rightarrow> bytes \<Rightarrow> bytes \<Rightarrow> unit res" where
  "VerifyWitness c cp witnessPub sigHex =
     (if sigHex = [] then Inl (Err ''witness signature is empty'')
      else and_then (wrap_err ''decode witness sig'' (or_fail (Foreign ''encoding/hex'') (hex_decode sigHex))) (\<lambda>sig.
           and_then (payload_Bytes (payload_of cp)) (\<lambda>pb.
           if \<not> ed_verify c witnessPub pb sig then Inl (Err ''witness signature mismatch'') else Inr ())))"

definition VerifyChainConsistency :: "store_checkpoint \<Rightarrow> store_checkpoint \<Rightarrow> unit res" where
  "VerifyChainConsistency prev cur =
     (if cp_PreviousRootHex cur = [] \<and> cp_RootHex prev = [] then Inr ()
      else if cp_PreviousRootHex cur \<noteq> cp_RootHex prev
      then Inl (Err (''chain broken: checkpoint '' @ itoa (cp_ID prev) @ '' root '' @ cp_RootHex prev @
                     '' != checkpoint '' @ itoa (cp_ID cur) @ '' previous_root '' @ cp_PreviousRootHex cur))
      else Inr ())"

end
