(* ===== verification/NoteProofs.thy ===== *)
theory NoteProofs
  imports Note
begin

text \<open>
  What \<^verbatim>\<open>internal/witness\<close> promises of notes: a formatted checkpoint parses back, merging keeps every
  signature line once in the order of its first appearance and is idempotent, the operator's line is
  not left out by \<^verbatim>\<open>ExtractCosignatures\<close>, and what the threshold check has seen when it accepts.
\<close>

section \<open>Lines\<close>

lemma newline_chars [simp]:
  "code newline = 10" "newline \<noteq> CHR ''0''" "char_of (10 :: nat) = newline" "newline \<noteq> char_of (13 :: nat)"
  "char_of (13 :: nat) \<noteq> newline"
  by (simp_all add: newline_def) (auto dest: arg_cong [where f = code])

lemma itoa_no_newline [simp]: "newline \<notin> set (itoa_nat n)"
  using itoa_nat_digits [of n] by (auto simp: list_all_iff is_digit_def dest!: bspec)

lemma b64_no_newline [simp]: "newline \<notin> set (b64_encode s)"
  using b64_encode_no_newline [of s] by simp

lemma newline_free: "newline \<notin> set s \<longleftrightarrow> list_all (\<lambda>c. code c \<noteq> 10) s"
proof -
  have "c = newline \<longleftrightarrow> code c = 10" for c
    by (metis newline_chars(1,3) char_of_char)
  then have "list_all (\<lambda>c. code c \<noteq> 10) s \<longleftrightarrow> list_all (\<lambda>c. c \<noteq> newline) s" by simp
  then show ?thesis by (auto simp: list_all_iff)
qed

text \<open>The blank line that separates a note's text from its signatures.\<close>

abbreviation blank :: bytes where
  "blank \<equiv> [newline, newline]"

lemma cut_blank_end: "newline \<notin> set x \<Longrightarrow> cut blank (x @ newline # newline # t) = Some (x, t)"
  by (induction x) auto

lemma cut_blank_line:
  "newline \<notin> set x \<Longrightarrow> t \<noteq> [] \<Longrightarrow> hd t \<noteq> newline \<Longrightarrow>
     cut blank (x @ newline # t) = map_option (\<lambda>(a, b). (x @ newline # a, b)) (cut blank t)"
proof (induction x)
  case Nil
  then show ?case by (cases t) (auto split: option.splits)
next
  case (Cons c x)
  then show ?case by (auto split: option.splits)
qed

lemma cut_blank_none: "newline \<notin> set x \<Longrightarrow> cut blank (x @ [newline]) = None"
  by (induction x) auto

lemma b64_nonempty: "s \<noteq> [] \<Longrightarrow> b64_encode s \<noteq> []"
  by (cases s rule: b64_encode.cases) (simp_all add: Let_def)

lemma hd_not_newline: "x \<noteq> [] \<Longrightarrow> newline \<notin> set x \<Longrightarrow> hd (x @ t) \<noteq> newline"
  by (cases x) auto

definition checkpoint_text :: "bytes \<Rightarrow> nat \<Rightarrow> bytes \<Rightarrow> bytes" where
  "checkpoint_text origin n h = origin @ newline # itoa_nat n @ newline # b64_encode h"

lemma FormatCheckpoint_text: "FormatCheckpoint origin n h = checkpoint_text origin n h @ [newline]"
  by (simp add: FormatCheckpoint_def checkpoint_text_def)

lemma cut_checkpoint:
  assumes "newline \<notin> set origin" and "h \<noteq> []"
  shows "cut blank (FormatCheckpoint origin n h @ newline # sigs) = Some (checkpoint_text origin n h, sigs)"
    and "cut blank (FormatCheckpoint origin n h) = None"
proof -
  have ne: "itoa_nat n \<noteq> []" "b64_encode h \<noteq> []" using assms(2) by (simp_all add: b64_nonempty)
  have "cut blank (b64_encode h @ newline # newline # sigs) = Some (b64_encode h, sigs)"
    by (rule cut_blank_end) simp
  then have "cut blank (itoa_nat n @ newline # b64_encode h @ newline # newline # sigs) =
      Some (itoa_nat n @ newline # b64_encode h, sigs)"
    using ne hd_not_newline [OF ne(2)] by (subst cut_blank_line) simp_all
  then show "cut blank (FormatCheckpoint origin n h @ newline # sigs) = Some (checkpoint_text origin n h, sigs)"
    using assms(1) ne hd_not_newline [OF ne(1)] unfolding FormatCheckpoint_text checkpoint_text_def
    by (simp, subst cut_blank_line) simp_all
  have "cut blank (itoa_nat n @ newline # b64_encode h @ [newline]) = None"
    using ne hd_not_newline [OF ne(2)] cut_blank_none [OF b64_no_newline, of h] by (subst cut_blank_line) simp_all
  then show "cut blank (FormatCheckpoint origin n h) = None"
    using assms(1) ne hd_not_newline [OF ne(1)] unfolding FormatCheckpoint_text checkpoint_text_def
    by (simp, subst cut_blank_line) simp_all
qed

lemma split_checkpoint:
  assumes "newline \<notin> set origin"
  shows "split_char newline (checkpoint_text origin n h) = [origin, itoa_nat n, b64_encode h]"
    and "split_char newline (FormatCheckpoint origin n h) = [origin, itoa_nat n, b64_encode h, []]"
  using assms by (simp_all add: FormatCheckpoint_text checkpoint_text_def split_char_append split_char_none)

section \<open>Signature lines\<close>

text \<open>The signature lines of a section, in order, without repetitions.\<close>

definition sig_lines :: "bytes \<Rightarrow> bytes list" where
  "sig_lines section = filter is_sig_line (map (trim_right_char (char_of (13 :: nat))) (split_char newline section))"

fun add_new :: "'a list \<Rightarrow> 'a list \<Rightarrow> 'a list" where
  "add_new acc [] = acc"
| "add_new acc (x # xs) = add_new (if x \<in> set acc then acc else acc @ [x]) xs"

lemma add_new_set [simp]: "set (add_new acc xs) = set acc \<union> set xs"
  by (induction acc xs rule: add_new.induct) auto

lemma add_new_distinct: "distinct acc \<Longrightarrow> distinct (add_new acc xs)"
  by (induction acc xs rule: add_new.induct) auto

lemma add_new_append: "add_new acc (xs @ ys) = add_new (add_new acc xs) ys"
  by (induction acc xs rule: add_new.induct) auto

lemma add_new_fresh: "distinct (acc @ xs) \<Longrightarrow> add_new acc xs = acc @ xs"
  by (induction acc xs rule: add_new.induct) auto

lemma collect_sigs_add_new: "collect_sigs section acc = add_new acc (sig_lines section)"
proof -
  have "foldl (\<lambda>acc l. let line = trim_right_char (char_of (13 :: nat)) l
          in if \<not> is_sig_line line \<or> line \<in> set acc then acc else acc @ [line]) acc ls =
        add_new acc (filter is_sig_line (map (trim_right_char (char_of (13 :: nat))) ls))" for ls
    by (induction ls arbitrary: acc) (auto simp: Let_def)
  then show ?thesis by (simp add: collect_sigs_def sig_lines_def)
qed

definition note_section :: "bytes \<Rightarrow> bytes" where
  "note_section t = (case cut blank t of None \<Rightarrow> [] | Some (a, b) \<Rightarrow> b)"

lemma sig_lines_Nil [simp]: "sig_lines [] = []"
  by (simp add: sig_lines_def is_sig_line_def trim_right_char_def)

lemma merge_note_add_new: "merge_note acc t = add_new acc (sig_lines (note_section t))"
  by (auto simp: merge_note_def note_section_def collect_sigs_add_new split: option.splits)

lemma merge_all:
  "foldl merge_note (collect_sigs s []) notes = add_new [] (sig_lines s @ concat (map (\<lambda>t. sig_lines (note_section t)) notes))"
proof -
  have "foldl merge_note acc ns = add_new acc (concat (map (\<lambda>t. sig_lines (note_section t)) ns))" for acc ns
    by (induction ns arbitrary: acc) (simp_all add: merge_note_add_new add_new_append)
  then show ?thesis by (simp add: collect_sigs_add_new add_new_append)
qed

text \<open>A line that survives being written and read back.\<close>

definition clean_line :: "bytes \<Rightarrow> bool" where
  "clean_line l = (is_sig_line l \<and> newline \<notin> set l \<and> trim_right_char (char_of (13 :: nat)) l = l)"

lemma trim_right_idem [simp]: "trim_right_char c (trim_right_char c s) = trim_right_char c s"
proof -
  have "dropWhile P (dropWhile P xs) = dropWhile P xs" for P and xs :: bytes
    by (induction xs) auto
  then show ?thesis by (simp add: trim_right_char_def)
qed

lemma sig_lines_clean: "list_all clean_line (sig_lines section)"
  by (auto simp: sig_lines_def clean_line_def list_all_iff trim_right_char_def dest!: set_dropWhileD split_char_pieces)

lemma sig_lines_text: "list_all clean_line ls \<Longrightarrow> sig_lines (sig_text ls) = ls"
  by (induction ls) (simp_all add: sig_text_def sig_lines_def clean_line_def split_char_append is_sig_line_def trim_right_char_def)

lemma sig_text_starts: "list_all clean_line ls \<Longrightarrow> ls \<noteq> [] \<Longrightarrow> sig_text ls \<noteq> [] \<and> hd (sig_text ls) \<noteq> newline"
  by (cases ls) (auto simp: sig_text_def clean_line_def is_sig_line_def neq_Nil_conv)

section \<open>Trimming\<close>

lemma char_of_iff: "char_of (a :: nat) = char_of b \<longleftrightarrow> a mod 256 = b mod 256"
  by (metis char_of_mod_256 of_char_of)

text \<open>Printable ASCII: no such byte starts or ends the encoding of a space.\<close>

definition graphic :: "char \<Rightarrow> bool" where
  "graphic c = (33 \<le> code c \<and> code c \<le> 126)"

lemma space_ends: "list_all (\<lambda>p. p \<noteq> [] \<and> \<not> graphic (hd p) \<and> \<not> graphic (last p)) go_spaces"
  by (simp add: go_spaces_def b3_def upt_rec graphic_def del: newline_chars)

lemma trim_right_graphic: "graphic c \<Longrightarrow> trim_right_space (t @ [c]) = t @ [c]"
proof -
  assume c: "graphic c"
  have "\<not> has_prefix (rev p) (c # r)" if "p \<in> set go_spaces" for p r
  proof -
    have "p \<noteq> []" "\<not> graphic (last p)" using that space_ends by (auto simp: list_all_iff)
    then obtain q d where "p = q @ [d]" "\<not> graphic d" by (cases p rule: rev_cases) auto
    with c show ?thesis by auto
  qed
  then have "List.find (\<lambda>p. has_prefix p (c # rev t)) (map rev go_spaces) = None" by (auto simp: find_None_iff)
  then show ?thesis by (simp add: trim_right_space_def)
qed

lemma trim_left_graphic: "graphic c \<Longrightarrow> trim_left_space (c # t) = c # t"
proof -
  assume c: "graphic c"
  have "\<not> has_prefix p (c # t)" if "p \<in> set go_spaces" for p
  proof -
    have "p \<noteq> []" "\<not> graphic (hd p)" using that space_ends by (auto simp: list_all_iff)
    with c show ?thesis by (cases p) auto
  qed
  then have "List.find (\<lambda>p. has_prefix p (c # t)) go_spaces = None" by (auto simp: find_None_iff)
  then show ?thesis by (simp add: trim_left_space_def)
qed

lemma trim_space_graphic: "list_all graphic s \<Longrightarrow> trim_space s = s"
proof (cases s)
  case (Cons c t)
  assume g: "list_all graphic s"
  obtain u d where s: "s = u @ [d]" using Cons by (metis append_butlast_last_id list.distinct(1))
  have "trim_left_space s = s" using g Cons by (simp add: trim_left_graphic)
  moreover have "trim_right_space s = s" using g s trim_right_graphic [of d u] by (simp add: list_all_iff)
  ultimately show ?thesis by (simp add: trim_space_def)
qed (simp add: trim_space_def trim_left_space_def trim_right_space_def)

lemma trim_left_mark: "trim_left_space (sig_mark @ s) = sig_mark @ s"
  by (simp add: trim_left_space_def sig_mark_def go_spaces_def b3_def upt_rec char_of_iff del: newline_chars)

lemma trim_space_line: "graphic c \<Longrightarrow> trim_space (sig_mark @ s @ [c]) = sig_mark @ s @ [c]"
  using trim_right_graphic [of c "sig_mark @ s"] by (simp add: trim_space_def trim_left_mark)

lemma digits_graphic: "list_all graphic (itoa_nat n)"
  using itoa_nat_digits [of n] by (auto simp: list_all_iff is_digit_def graphic_def)

lemma b64_graphic: "list_all graphic (b64_encode s)"
proof -
  have "graphic (b64_digit n)" if "n < 64" for n using b64_digit_code [OF that] by (auto simp: graphic_def)
  moreover have "graphic CHR ''=''" by (simp add: graphic_def)
  ultimately show ?thesis by (induction s rule: b64_encode.induct) (simp_all add: Let_def)
qed

section \<open>The note library\<close>

text \<open>
  What the documentation of \<^verbatim>\<open>note.Open\<close> states: each signature of an opened note was verified by one of
  the given verifiers, under its name, over the note's text (\<open>valid v text sig\<close>); signatures of one
  key are kept once; the note of an \<^verbatim>\<open>UnverifiedNoteError\<close> has no verified signature.
\<close>

definition open_contract :: "('sg, 'vf) note_lib \<Rightarrow> ('vf \<Rightarrow> bytes \<Rightarrow> note_sig \<Rightarrow> bool) \<Rightarrow> bool" where
  "open_contract nl valid =
     (\<forall>raw vs. case nl_Open nl raw vs of
        Inr n \<Rightarrow> distinct (map (\<lambda>s. (ns_Name s, ns_Hash s)) (nt_Sigs n)) \<and>
          list_all (\<lambda>s. \<exists>v \<in> set vs. nl_Name nl v = ns_Name s \<and> valid v (nt_Text n) s) (nt_Sigs n)
      | Inl e \<Rightarrow> (case e of UnverifiedNote _ n \<Rightarrow> nt_Sigs n = [] | BadNote _ \<Rightarrow> True))"

section \<open>Properties\<close>

text \<open>C19. A checkpoint body that \<^verbatim>\<open>FormatCheckpoint\<close> wrote parses back to its origin, size and root,
  alone and under the signature lines of a note.\<close>

theorem checkpoint_body_roundtrip:
  assumes "newline \<notin> set origin" and "n < 2 ^ 64" and "h \<noteq> []"
  shows "ParseCheckpoint (FormatCheckpoint origin n h) =
           Inr \<lparr>c2_Origin = origin, c2_TreeSize = n, c2_RootHash = h, c2_Raw = FormatCheckpoint origin n h\<rparr> \<and>
         ParseCheckpoint (FormatCheckpoint origin n h @ [newline] @ sigs) =
           Inr \<lparr>c2_Origin = origin, c2_TreeSize = n, c2_RootHash = h,
                c2_Raw = FormatCheckpoint origin n h @ [newline] @ sigs\<rparr>"
  using assms
  by (simp add: ParseCheckpoint_def numeral_2_eq_2 cut_checkpoint split_checkpoint parse_uint_itoa b64_decode_encode)

theorem checkpoint_body_roundtrip_witness:
  "ParseCheckpoint (FormatCheckpoint ''log'' 7 ''root'') =
     Inr \<lparr>c2_Origin = ''log'', c2_TreeSize = 7, c2_RootHash = ''root'', c2_Raw = FormatCheckpoint ''log'' 7 ''root''\<rparr>"
proof -
  have "newline \<notin> set ''log''" by (simp only: newline_free) simp
  from checkpoint_body_roundtrip [OF this, of 7 "''root''"] show ?thesis by simp
qed

text \<open>C20. \<^verbatim>\<open>MergeCosignatures\<close> keeps the operator's text and writes every signature line of the operator's
  note and of the cosigned notes exactly once, in the order of first appearance; merging the result
  with a note already merged changes nothing.\<close>

theorem merge_cosignatures:
  assumes "cut blank signed = Some (body, sec)"
  shows "\<exists>ls. MergeCosignatures signed notes = Inr (body @ blank @ sig_text ls) \<and> distinct ls \<and>
           ls = add_new [] (sig_lines sec @ concat (map (\<lambda>t. sig_lines (note_section t)) notes)) \<and>
           (t \<in> set notes \<longrightarrow> MergeCosignatures (body @ blank @ sig_text ls) [t] = Inr (body @ blank @ sig_text ls))"
proof -
  define ls where "ls = add_new [] (sig_lines sec @ concat (map (\<lambda>t. sig_lines (note_section t)) notes))"
  have m: "MergeCosignatures signed notes = Inr (body @ blank @ sig_text ls)"
    using assms by (simp add: MergeCosignatures_def merge_all ls_def)
  have d: "distinct ls" unfolding ls_def by (rule add_new_distinct) simp
  have clean: "list_all clean_line ls"
    using sig_lines_clean by (auto simp: ls_def list_all_iff)
  have "cut blank (body @ blank @ s) = Some (body, s)" for s
    using assms
  proof (induction signed arbitrary: body sec)
    case (Cons c signed)
    show ?case
    proof (cases "has_prefix blank (c # signed)")
      case True
      with Cons.prems show ?thesis by auto
    next
      case False
      then obtain tx where tx: "cut blank signed = Some (tx, sec)" "body = c # tx"
        using Cons.prems by (auto split: option.splits)
      from cut_Some [OF tx(1)] False have "\<not> has_prefix blank (c # tx @ blank @ s)"
        by (cases tx; cases "tl tx") auto
      with Cons.IH [OF tx(1)] tx(2) show ?thesis by simp
    qed
  qed simp
  then have c: "cut blank (body @ blank @ sig_text ls) = Some (body, sig_text ls)" .
  have "MergeCosignatures (body @ blank @ sig_text ls) [t] = Inr (body @ blank @ sig_text ls)" if "t \<in> set notes"
  proof -
    have sub: "set (sig_lines (note_section t)) \<subseteq> set ls" using that by (auto simp: ls_def)
    have "add_new acc xs = acc" if "set xs \<subseteq> set acc" for acc xs :: "bytes list"
      using that by (induction acc xs rule: add_new.induct) auto
    from this [OF sub] c clean d show ?thesis
      using merge_all [of "sig_text ls" "[t]"]
      by (simp add: MergeCosignatures_def sig_lines_text add_new_append add_new_fresh)
  qed
  with m d ls_def show ?thesis by blast
qed

definition sample_line :: "bytes \<Rightarrow> bytes" where
  "sample_line s = sig_mark @ s"

theorem merge_cosignatures_witness:
  "\<exists>ls. MergeCosignatures (''t'' @ blank @ sig_text [sample_line ''op x'']) [''t'' @ blank @ sig_text [sample_line ''w y'']] =
          Inr (''t'' @ blank @ sig_text ls) \<and> distinct ls"
proof -
  have "cut blank (''t'' @ blank @ sig_text [sample_line ''op x'']) = Some (''t'', sig_text [sample_line ''op x''])"
    using cut_blank_end [of "''t''" "sig_text [sample_line ''op x'']"] by (simp only: newline_free) simp
  from merge_cosignatures [OF this, of "[''t'' @ blank @ sig_text [sample_line ''w y'']]"] show ?thesis by blast
qed

text \<open>\<^verbatim>\<open>ExtractCosignatures\<close> never leaves the operator's line out: it compares the operator's name with
  the line from its third byte, inside the four-byte mark, so it returns every signature line.\<close>

theorem extract_keeps_operator:
  assumes "name = [] \<or> code (hd name) \<noteq> 148"
  shows "ExtractCosignatures cosigned name =
           filter (has_prefix sig_mark) (map trim_space (if cut blank cosigned = None then [] else split_char newline (note_section cosigned)))"
proof -
  have "\<not> has_prefix (name @ '' '') (drop 2 line)" if mark: "has_prefix sig_mark line" for line
  proof -
    obtain t where "line = sig_mark @ t" using mark by (auto simp: has_prefix_iff)
    then have d: "drop 2 line = char_of (148 :: nat) # char_of (32 :: nat) # t" by (simp add: sig_mark_def)
    show ?thesis
    proof (cases name)
      case Nil
      have "CHR '' '' \<noteq> char_of (148 :: nat)" by code_simp
      with Nil show ?thesis unfolding d by simp
    next
      case (Cons c cs)
      then have "c \<noteq> char_of (148 :: nat)" using assms by auto
      with Cons show ?thesis unfolding d by simp
    qed
  qed
  then have "(\<lambda>line. has_prefix sig_mark line \<and> \<not> has_prefix (name @ '' '') (drop 2 line)) = has_prefix sig_mark"
    by auto
  then show ?thesis by (auto simp: ExtractCosignatures_def note_section_def split: option.splits)
qed

theorem extract_keeps_operator_witness:
  "sample_line ''op x'' \<in> set (ExtractCosignatures (''t'' @ blank @ sig_text [sample_line ''op x'', sample_line ''w y'']) ''op'')"
proof -
  let ?c = "''t'' @ blank @ sig_text [sample_line ''op x'', sample_line ''w y'']"
  have t: "newline \<notin> set ''t''" by (simp only: newline_free) simp
  have cut: "cut blank ?c = Some (''t'', sig_text [sample_line ''op x'', sample_line ''w y''])"
    using cut_blank_end [OF t, of "sig_text [sample_line ''op x'', sample_line ''w y'']"] by simp
  have free: "newline \<notin> set (sample_line ''op x'')"
    by (simp only: newline_free) (simp add: sample_line_def sig_mark_def)
  have "ExtractCosignatures ?c ''op'' =
      filter (has_prefix sig_mark) (map trim_space (if cut blank ?c = None then [] else split_char newline (note_section ?c)))"
    by (rule extract_keeps_operator) simp
  moreover have "trim_space (sample_line ''op x'') = sample_line ''op x''"
    using trim_space_line [of "CHR ''x''" "''op ''"] by (simp add: sample_line_def graphic_def)
  moreover have "has_prefix sig_mark (sample_line s)" for s by (simp add: sample_line_def)
  moreover have "split_char newline (sig_text [sample_line ''op x'', sample_line ''w y'']) =
      sample_line ''op x'' # split_char newline (sample_line ''w y'' @ [newline])"
    using free by (simp add: sig_text_def split_char_append)
  ultimately show ?thesis using cut by (simp add: note_section_def)
qed

text \<open>The keys, by name and hash, whose signatures on a note some of the given verifiers has verified.\<close>

definition signers :: "('sg, 'vf) note_lib \<Rightarrow> ('vf \<Rightarrow> bytes \<Rightarrow> note_sig \<Rightarrow> bool) \<Rightarrow> 'vf list \<Rightarrow> signed_note \<Rightarrow> (bytes \<times> int) set" where
  "signers nl valid vs n =
     {(ns_Name s, ns_Hash s) | s. s \<in> set (nt_Sigs n) \<and> (\<exists>v \<in> set vs. nl_Name nl v = ns_Name s \<and> valid v (nt_Text n) s)}"

lemma signers_count:
  assumes "distinct (map (\<lambda>s. (ns_Name s, ns_Hash s)) (nt_Sigs n))"
    and "\<And>s. s \<in> set (nt_Sigs n) \<Longrightarrow> P s \<Longrightarrow> \<exists>v \<in> set vs. nl_Name nl v = ns_Name s \<and> valid v (nt_Text n) s"
  shows "length (filter P (nt_Sigs n)) \<le> card (signers nl valid vs n)"
proof -
  have "length (filter P (nt_Sigs n)) = card ((\<lambda>s. (ns_Name s, ns_Hash s)) ` set (filter P (nt_Sigs n)))"
    using distinct_card [OF distinct_map_filter [OF assms(1), of P]] by simp
  also have "(\<lambda>s. (ns_Name s, ns_Hash s)) ` set (filter P (nt_Sigs n)) \<subseteq> signers nl valid vs n"
    using assms(2) by (fastforce simp: signers_def)
  then have "card ((\<lambda>s. (ns_Name s, ns_Hash s)) ` set (filter P (nt_Sigs n))) \<le> card (signers nl valid vs n)"
    by (rule card_mono [rotated]) (rule finite_subset [of _ "(\<lambda>s. (ns_Name s, ns_Hash s)) ` set (nt_Sigs n)"], auto simp: signers_def)
  finally show ?thesis .
qed

text \<open>C21. When \<^verbatim>\<open>VerifyCosignedCheckpoint\<close> accepts, the note carries a valid signature under the operator's name
  and valid signatures of at least \<open>threshold\<close> different keys under the names of the required witnesses.
  Signatures are told apart by name only: when no required witness has the operator's name, the first is a
  signature of the operator's key and the others are of keys of required witnesses; when one has, a
  signature of that witness stands for the operator's.\<close>

theorem cosigned_threshold:
  assumes "open_contract nl valid" and "VerifyCosignedCheckpoint nl raw op ws threshold = Inr ()"
  shows "\<exists>n. nl_Open nl raw (op # ws) = Inr n \<and>
           (\<exists>v \<in> set (op # ws). nl_Name nl v = nl_Name nl op \<and> (\<exists>s \<in> set (nt_Sigs n). valid v (nt_Text n) s)) \<and>
           threshold \<le> int (card (signers nl valid (filter (\<lambda>v. nl_Name nl v \<in> nl_Name nl ` set ws) (op # ws)) n)) \<and>
           (nl_Name nl op \<notin> nl_Name nl ` set ws \<longrightarrow>
              (\<exists>s \<in> set (nt_Sigs n). valid op (nt_Text n) s) \<and> threshold \<le> int (card (signers nl valid ws n)))"
proof -
  have "\<exists>n. nl_Open nl raw (op # ws) = Inr n"
    using assms by (auto simp: VerifyCosignedCheckpoint_def open_contract_def and_then_Inr split: sum.splits if_splits open_error.splits; fastforce)
  then obtain n where n: "nl_Open nl raw (op # ws) = Inr n" ..
  have c: "distinct (map (\<lambda>s. (ns_Name s, ns_Hash s)) (nt_Sigs n))"
    "\<And>s. s \<in> set (nt_Sigs n) \<Longrightarrow> \<exists>v \<in> set (op # ws). nl_Name nl v = ns_Name s \<and> valid v (nt_Text n) s"
    using assms(1) [unfolded open_contract_def, THEN spec, of raw, THEN spec, of "op # ws"] n
    by (simp_all add: list_all_iff)
  let ?W = "\<lambda>s. ns_Name s \<in> nl_Name nl ` set ws" and ?vs = "filter (\<lambda>v. nl_Name nl v \<in> nl_Name nl ` set ws) (op # ws)"
  have v: "\<exists>s \<in> set (nt_Sigs n). ns_Name s = nl_Name nl op" "threshold \<le> int (length (filter ?W (nt_Sigs n)))"
    using assms(2) n by (auto simp: VerifyCosignedCheckpoint_def Let_def split: if_splits)
  have op: "\<exists>v \<in> set (op # ws). nl_Name nl v = nl_Name nl op \<and> (\<exists>s \<in> set (nt_Sigs n). valid v (nt_Text n) s)"
    using v(1) c(2) by metis
  have k: "\<exists>v \<in> set ?vs. nl_Name nl v = ns_Name s \<and> valid v (nt_Text n) s" if s: "s \<in> set (nt_Sigs n)" "?W s" for s
  proof -
    obtain v where "v \<in> set (op # ws)" "nl_Name nl v = ns_Name s" "valid v (nt_Text n) s" using c(2) [OF s(1)] by blast
    with s(2) show ?thesis by (intro bexI [of _ v]) (auto simp del: image_iff)
  qed
  have "length (filter ?W (nt_Sigs n)) \<le> card (signers nl valid ?vs n)" using c(1) k by (rule signers_count)
  with v(2) have count: "threshold \<le> int (card (signers nl valid ?vs n))" by linarith
  have "?vs = ws" if "nl_Name nl op \<notin> nl_Name nl ` set ws" using that by (simp add: filter_id_conv)
  moreover have "\<exists>s \<in> set (nt_Sigs n). valid op (nt_Text n) s" if "nl_Name nl op \<notin> nl_Name nl ` set ws"
    using op that by (metis imageI set_ConsD)
  ultimately show ?thesis using n op count by metis
qed

text \<open>A library over verifiers that are names: the note is the text and one name for each signature.\<close>

definition toy_notes :: "(bytes, bytes) note_lib" where
  "toy_notes = \<lparr>nl_NewSigner = Inr, nl_NewEd25519VerifierKey = (\<lambda>name pub. Inr name), nl_NewVerifier = Inr,
     nl_Name = (\<lambda>v. v), nl_Sign = (\<lambda>n sgs. Inr (nt_Text n @ [newline] @ sig_text (map sample_line sgs))),
     nl_Open = (\<lambda>raw vs. Inr \<lparr>nt_Text = raw, nt_Sigs = map (\<lambda>v. \<lparr>ns_Name = v, ns_Hash = 0, ns_Base64 = []\<rparr>) (remdups vs),
                              nt_UnverifiedSigs = []\<rparr>)\<rparr>"

theorem cosigned_threshold_witness:
  "\<exists>n. nl_Open toy_notes ''text'' [''op'', ''w1'', ''w2''] = Inr n \<and>
       2 \<le> card (signers toy_notes (\<lambda>v t s. v = ns_Name s) [''w1'', ''w2''] n) \<and> (\<exists>s \<in> set (nt_Sigs n). ns_Name s = ''op'')"
proof -
  have c: "open_contract toy_notes (\<lambda>v t s. v = ns_Name s)"
    by (auto simp: open_contract_def toy_notes_def distinct_map list_all_iff intro: inj_onI)
  have n: "nl_Name toy_notes ''op'' \<notin> nl_Name toy_notes ` set [''w1'', ''w2'']" by (simp add: toy_notes_def)
  have v: "VerifyCosignedCheckpoint toy_notes ''text'' ''op'' [''w1'', ''w2''] 2 = Inr ()"
    by (simp add: VerifyCosignedCheckpoint_def toy_notes_def)
  from cosigned_threshold [OF c v] n show ?thesis by fastforce
qed

text \<open>A witness with the operator's name: a note that only the witness's key has signed is accepted.\<close>

definition shared_name_notes :: "(bytes, bytes \<times> nat) note_lib" where
  "shared_name_notes = \<lparr>nl_NewSigner = Inr, nl_NewEd25519VerifierKey = (\<lambda>name pub. Inr name), nl_NewVerifier = (\<lambda>k. Inr (k, 0)),
     nl_Name = fst, nl_Sign = (\<lambda>n sgs. Inr (nt_Text n)),
     nl_Open = (\<lambda>raw vs. Inr \<lparr>nt_Text = raw, nt_Sigs = (if (''log'', 2) \<in> set vs then [\<lparr>ns_Name = ''log'', ns_Hash = 2, ns_Base64 = []\<rparr>] else []),
                              nt_UnverifiedSigs = []\<rparr>)\<rparr>"

theorem shared_name_accepted:
  "open_contract shared_name_notes (\<lambda>v t s. snd v = 2) \<and>
   VerifyCosignedCheckpoint shared_name_notes ''text'' (''log'', 1) [(''log'', 2)] 1 = Inr ()"
  by (auto simp: open_contract_def VerifyCosignedCheckpoint_def shared_name_notes_def intro: bexI [of _ "(''log'', 2)"])

end
