(* ===== verification/TesseraProofs.thy ===== *)
theory TesseraProofs
  imports Tessera NoteProofs StoreSpec
begin

text \<open>
  What the Tessera backend promises: it is an append-only collection of receipts like the SQLite
  store (the interface \<open>receipt_store\<close> again) whose log gains the canonical bytes of what it stores,
  it reads the checkpoints \<^verbatim>\<open>FormatCheckpoint\<close> writes, and what is left behind when the log refuses an entry.
\<close>

lemma on_sqlite_Inr: "on_sqlite m s = (x, s') \<longleftrightarrow> m (fst s) = (x, fst s') \<and> snd s' = snd s"
  by (cases s') (auto simp: on_sqlite_def split: prod.splits)

lemma on_log_fst [simp]: "fst (snd (on_log m s)) = fst s"
  by (simp add: on_log_def split: prod.splits)

lemma on_sqlite_keeps: "keeps P m \<Longrightarrow> keeps (\<lambda>s. P (fst s)) (on_sqlite m)"
  by (auto simp: keeps_def on_sqlite_def split: prod.splits)

lemma on_log_keeps: "keeps (\<lambda>s. P (fst s)) (on_log m)"
  by (simp add: keeps_def)

lemma log_canonical_fst: "fst (snd (log_canonical tz r s)) = fst s"
proof -
  have "keeps (\<lambda>s'. fst s' = fst s) (log_canonical tz r)"
    unfolding log_canonical_def by (intro keeps_bind keeps_wrap keeps_ret on_log_keeps)
  then show ?thesis by (auto dest: keepsD)
qed

lemma log_batch_fst: "fst (snd (map_op (log_canonical tz) rs s)) = fst s"
proof -
  have "keeps (\<lambda>s'. fst s' = fst s) (log_canonical tz r)" for r
    by (rule keepsI) (simp add: log_canonical_fst)
  then have "keeps (\<lambda>s'. fst s' = fst s) (map_op (log_canonical tz) rs)" by (intro keeps_map)
  then show ?thesis by (auto dest: keepsD)
qed

text \<open>After an append the tables are those of the SQLite append, whatever the log did.\<close>

lemma ts_append_cases:
  assumes "ts_AppendReceipt tz r s = (x, s')"
  shows "\<exists>y. AppendReceipt r (fst s) = (y, fst s') \<and> (\<forall>n. x = Inr n \<longrightarrow> y = Inr n)"
proof -
  obtain y d where y: "AppendReceipt r (fst s) = (y, d)" by (metis prod.exhaust)
  then have o1: "on_sqlite (AppendReceipt r) s = (y, (d, snd s))" by (simp add: on_sqlite_def)
  show ?thesis
  proof (cases y)
    case (Inl e)
    with assms o1 y show ?thesis by (auto simp: ts_AppendReceipt_def bind_op_def)
  next
    case (Inr n)
    obtain z t where z: "log_canonical tz r (d, snd s) = (z, t)" by (metis prod.exhaust)
    have "fst t = d" using log_canonical_fst [of tz r "(d, snd s)"] z by simp
    with assms o1 y z Inr show ?thesis by (cases z) (auto simp: ts_AppendReceipt_def bind_op_def)
  qed
qed

interpretation tessera_log: receipt_store "ts_AppendReceipt tz" "\<lambda>n s. read_receipt n (fst s)" "\<lambda>s. db_inv (fst s)" receipt_ok
  for tz :: "('l, 'p, 'sg) tessera"
proof unfold_locales
  fix s :: "db \<times> 'l" and r
  assume inv: "db_inv (fst s)"
  obtain x s' where x: "ts_AppendReceipt tz r s = (x, s')" by (metis prod.exhaust)
  with ts_append_cases [OF x] sqlite.append_inv [OF inv, of r] show "db_inv (fst (snd (ts_AppendReceipt tz r s)))"
    by auto
next
  fix s s' :: "db \<times> 'l" and r n
  assume a: "db_inv (fst s)" "receipt_ok r" "ts_AppendReceipt tz r s = (Inr n, s')"
  from ts_append_cases [OF a(3)] have "AppendReceipt r (fst s) = (Inr n, fst s')" by auto
  from sqlite.append_read [OF a(1,2) this]
  show "read_receipt n (fst s) = None \<and> read_receipt n (fst s') = Some r" .
next
  fix s s' :: "db \<times> 'l" and r x m q
  assume a: "db_inv (fst s)" "ts_AppendReceipt tz r s = (x, s')" "read_receipt m (fst s) = Some q"
  from ts_append_cases [OF a(2)] obtain y where "AppendReceipt r (fst s) = (y, fst s')" by blast
  from sqlite.append_frame [OF a(1) this a(3)] show "read_receipt m (fst s') = Some q" .
qed

lemma split_n_lines:
  assumes "newline \<notin> set a" and "newline \<notin> set b" and "newline \<notin> set c"
  shows "split_n 4 [newline] (a @ newline # b @ newline # c @ newline # t) = [a, b, c, t]"
proof -
  have "cut [newline] (x @ newline # y) = Some (x, y)" if "newline \<notin> set x" for x y
    using that by (induction x) auto
  with assms show ?thesis by (simp add: numeral_eq_Suc)
qed

section \<open>What the log receives\<close>

text \<open>What the log library documents: an accepted entry is appended to the entries of the log.\<close>

definition appends_entries :: "('l, 'p, 'sg) tessera \<Rightarrow> ('l \<Rightarrow> bytes list) \<Rightarrow> bool" where
  "appends_entries tz entries = (\<forall>d l i l'. tl_add tz d l = (Inr i, l') \<longrightarrow> entries l' = entries l @ [d])"

lemma log_canonical_entries:
  assumes "appends_entries tz entries" and "log_canonical tz r s = (Inr u, s')"
  shows "\<exists>cb. CanonicalBytes r = Inr cb \<and> entries (snd s') = entries (snd s) @ [cb]"
proof -
  obtain cb i l where "CanonicalBytes r = Inr cb" "tl_add tz cb (snd s) = (Inr i, l)" "s' = (fst s, l)"
    using assms(2) by (auto simp: log_canonical_def bind_op_def wrap_op_def on_log_def tessera_Append_def wrap_err_Inr split: prod.splits sum.splits)
  with assms(1) show ?thesis by (auto simp: appends_entries_def)
qed

lemma canonical_batch_entries:
  assumes "appends_entries tz entries"
  shows "map_op (log_canonical tz) rs s = (Inr us, s') \<Longrightarrow>
    \<exists>cbs. map_res CanonicalBytes rs = Inr cbs \<and> entries (snd s') = entries (snd s) @ cbs"
proof (induction rs arbitrary: s us)
  case (Cons r rs)
  then obtain u s1 vs where a: "log_canonical tz r s = (Inr u, s1)" "map_op (log_canonical tz) rs s1 = (Inr vs, s')"
    by (auto simp: bind_op_Inr)
  from log_canonical_entries [OF assms a(1)] Cons.IH [OF a(2)] show ?case by auto
qed simp

lemma append_logged:
  assumes "appends_entries tz entries" and "ts_AppendReceipt tz r s = (Inr n, s')"
  shows "\<exists>cb. CanonicalBytes r = Inr cb \<and> entries (snd s') = entries (snd s) @ [cb]"
proof -
  obtain s1 u where "on_sqlite (AppendReceipt r) s = (Inr n, s1)" "log_canonical tz r s1 = (Inr u, s')"
    using assms(2) by (auto simp: ts_AppendReceipt_def bind_op_Inr)
  with log_canonical_entries [OF assms(1), of r s1 u s'] show ?thesis by (simp add: on_sqlite_Inr)
qed

lemma appends_logged:
  assumes "appends_entries tz entries"
  shows "map_op (ts_AppendReceipt tz) rs s = (Inr ns, s') \<Longrightarrow>
    \<exists>cbs. map_res CanonicalBytes rs = Inr cbs \<and> entries (snd s') = entries (snd s) @ cbs"
proof (induction rs arbitrary: s ns)
  case (Cons r rs)
  then obtain n s1 ms where a: "ts_AppendReceipt tz r s = (Inr n, s1)" "map_op (ts_AppendReceipt tz) rs s1 = (Inr ms, s')"
    by (auto simp: bind_op_Inr)
  from append_logged [OF assms a(1)] Cons.IH [OF a(2)] show ?case by auto
qed simp

lemma batch_logged:
  assumes "appends_entries tz entries" and "ts_AppendReceiptsBatch tz rs s = (Inr ns, s')"
  shows "AppendReceiptsBatch rs (fst s) = (Inr ns, fst s') \<and>
    (\<exists>cbs. map_res CanonicalBytes rs = Inr cbs \<and> entries (snd s') = entries (snd s) @ cbs)"
proof -
  obtain s1 us where b: "on_sqlite (AppendReceiptsBatch rs) s = (Inr ns, s1)" "map_op (log_canonical tz) rs s1 = (Inr us, s')"
    using assms(2) by (auto simp: ts_AppendReceiptsBatch_def bind_op_Inr)
  moreover have "fst s' = fst s1" using log_batch_fst [of tz rs s1] b(2) by simp
  ultimately show ?thesis using canonical_batch_entries [OF assms(1) b(2)] by (auto simp: on_sqlite_Inr)
qed

text \<open>The rows of a batch, read one by one.\<close>

lemma batch_reads:
  assumes "db_inv st" and "list_all receipt_ok rs" and "AppendReceiptsBatch rs st = (Inr ns, st')" and "db_faults st' = []"
  shows "length ns = length rs \<and> distinct ns \<and> (\<forall>i < length rs. GetReceiptsByRange (ns ! i) (ns ! i) st' = (Inr [rs ! i], st'))"
proof -
  have inv: "db_inv st'" using keepsD [OF keeps_AppendReceiptsBatch assms(1), of rs] assms(3) by simp
  obtain jss where a: "map_res marshal_receipt rs = Inr jss" "length ns = length rs" "distinct ns"
    "view st' = view st\<lparr>sv_receipts := sv_receipts (view st) ++ map_of (zip ns (map (\<lambda>js. (js, False)) jss))\<rparr>"
    using Batch_view [OF assms(1,3)] by (auto simp: added_def)
  have len: "length jss = length rs" using map_res_Inr_length [OF a(1)] by simp
  have "GetReceiptsByRange (ns ! i) (ns ! i) st' = (Inr [rs ! i], st')" if i: "i < length rs" for i
  proof -
    have "marshal_receipt (rs ! i) = Inr (jss ! i)" using a(1) i by (rule map_res_Inr_nth)
    moreover have "receipt_ok (rs ! i)" using assms(2) i by (simp add: list_all_length)
    ultimately have "unmarshal_receipt (jss ! i) = Inr (rs ! i)" using unmarshal_receipt_marshal by fastforce
    moreover have "map_of (zip ns (map (\<lambda>js. (js, False)) jss)) (ns ! i) = Some (jss ! i, False)"
      using a(2,3) len i by (simp add: map_of_zip_nth)
    ultimately show ?thesis using a(4) by (simp add: receipts_served [OF inv assms(4)])
  qed
  with a(2,3) show ?thesis by blast
qed

section \<open>Properties\<close>

text \<open>C22. A receipt that the Tessera store has accepted, alone or in a batch, is in both of its parts: when the
  log keeps the entries given to it in order (\<open>appends_entries\<close>, what \<^verbatim>\<open>Appender.Add\<close> documents), the
  entries it gained are exactly the canonical bytes of the receipts, and \<^verbatim>\<open>GetReceiptsByRange\<close> of the
  store returns every receipt under the key its append returned.\<close>

theorem tessera_appends_read:
  assumes "appends_entries tz entries" and "db_inv (fst s)" and "list_all receipt_ok rs"
    and "map_op (ts_AppendReceipt tz) rs s = (Inr ns, s') \<or> ts_AppendReceiptsBatch tz rs s = (Inr ns, s')"
    and "db_faults (fst s') = []"
  shows "length ns = length rs \<and> distinct ns \<and>
         (\<exists>cbs. map_res CanonicalBytes rs = Inr cbs \<and> entries (snd s') = entries (snd s) @ cbs) \<and>
         (\<forall>i < length rs. S_GetReceiptsByRange (tessera_store tz) (ns ! i) (ns ! i) s' = (Inr [rs ! i], s'))"
  using assms(4)
proof
  assume m: "map_op (ts_AppendReceipt tz) rs s = (Inr ns, s')"
  note r = tessera_log.appends_read [OF assms(2,3) m]
  have "db_inv (fst s')"
  proof -
    have "keeps (\<lambda>s. db_inv (fst s)) (ts_AppendReceipt tz r)" for r by (rule keepsI) (rule tessera_log.append_inv)
    then have "keeps (\<lambda>s. db_inv (fst s)) (map_op (ts_AppendReceipt tz) rs)" by (rule keeps_map)
    from keepsD [OF this assms(2)] m show ?thesis by simp
  qed
  with r range_of_read [OF _ assms(5)] have "\<forall>i < length rs. GetReceiptsByRange (ns ! i) (ns ! i) (fst s') = (Inr [rs ! i], fst s')" by blast
  with r appends_logged [OF assms(1) m] show ?thesis by (simp add: tessera_store_def on_sqlite_def)
next
  assume b: "ts_AppendReceiptsBatch tz rs s = (Inr ns, s')"
  note l = batch_logged [OF assms(1) b]
  from batch_reads [OF assms(2,3) conjunct1 [OF l] assms(5)] l show ?thesis by (simp add: tessera_store_def on_sqlite_def)
qed

lemma sample_receipt_sane: "sane_floats sample_receipt"
  by (simp add: sane_floats_def sample_receipt_def zero_receipt_def is_finite_def)

definition toy_log :: "(bytes list, unit, bytes) tessera" where
  "toy_log = \<lparr>tl_mkdir = (\<lambda>_. Inr ()), tl_driver = (\<lambda>_. Inr ()), tl_appender = (\<lambda>_ _ _. Inr []),
     tl_add = (\<lambda>d l. (Inr (int (length l)), l @ [d])), tl_read_checkpoint = lift_op (Inl ErrNotExist),
     tl_proof_builder = (\<lambda>_. ret_op ()), tl_inclusion = (\<lambda>_ _. ret_op []), tl_consistency = (\<lambda>_ _ _. ret_op []),
     tl_entry_bundle = (\<lambda>_ _ l. (Inr l, l)), tl_shutdown = ret_op ()\<rparr>"

lemma toy_append: "\<exists>l. ts_AppendReceipt toy_log sample_receipt (empty_db, []) = (Inr 1, (snd (AppendReceipt sample_receipt empty_db), l))"
proof -
  obtain st where st: "AppendReceipt sample_receipt empty_db = (Inr 1, st)" by (rule sample_store)
  obtain cb where "CanonicalBytes sample_receipt = Inr cb"
    using CanonicalBytes_Inr [OF sample_receipt_sane] by blast
  with st show ?thesis
    by (simp add: ts_AppendReceipt_def log_canonical_def on_sqlite_def on_log_def bind_op_def wrap_op_def
        tessera_Append_def toy_log_def)
qed

theorem tessera_appends_read_witness:
  "\<exists>cb s. CanonicalBytes sample_receipt = Inr cb \<and> snd s = [cb] \<and>
     S_GetReceiptsByRange (tessera_store toy_log) 1 1 s = (Inr [sample_receipt], s)"
proof -
  obtain l where l: "ts_AppendReceipt toy_log sample_receipt (empty_db, []) =
      (Inr 1, (snd (AppendReceipt sample_receipt empty_db), l))" using toy_append by blast
  have m: "map_op (ts_AppendReceipt toy_log) [sample_receipt] (empty_db, []) =
      (Inr [1], (snd (AppendReceipt sample_receipt empty_db), l))"
    using l by (simp add: bind_op_def)
  have e: "appends_entries toy_log (\<lambda>l. l)" by (simp add: appends_entries_def toy_log_def)
  have i: "db_inv (fst (empty_db, [] :: bytes list))" by (simp add: empty_db_inv)
  obtain st where "AppendReceipt sample_receipt empty_db = (Inr 1, st)" "db_faults st = []" by (rule sample_store)
  then have f: "db_faults (fst (snd (AppendReceipt sample_receipt empty_db), l)) = []" by simp
  have "list_all receipt_ok [sample_receipt]" by (simp add: sample_receipt_ok)
  from tessera_appends_read [OF e i this disjI1 [OF m] f] show ?thesis by (auto split: sum.splits)
qed

text \<open>C23. The Tessera readers take the size and the root of any checkpoint \<^verbatim>\<open>FormatCheckpoint\<close> wrote, with or
  without signatures under it.\<close>

theorem tessera_reads_checkpoint:
  assumes "newline \<notin> set origin" and "n < 2 ^ 64"
  shows "ParseCheckpointSize (FormatCheckpoint origin n h @ sigs) = Inr (int n) \<and>
         ParseCheckpointRoot (FormatCheckpoint origin n h @ sigs) = Inr h"
proof -
  have "checkpoint_lines (FormatCheckpoint origin n h @ sigs) = Inr [origin, itoa_nat n, b64_encode h, sigs]"
    using split_n_lines [OF assms(1), of "itoa_nat n" "b64_encode h" sigs]
    by (simp add: checkpoint_lines_def FormatCheckpoint_def)
  with assms(2) show ?thesis
    by (simp add: ParseCheckpointSize_def ParseCheckpointRoot_def trim_space_graphic digits_graphic b64_graphic
        parse_uint_itoa b64_decode_encode)
qed

theorem tessera_reads_checkpoint_witness:
  "ParseCheckpointSize (FormatCheckpoint ''log'' 7 ''root'' @ [newline]) = Inr 7"
proof -
  have "newline \<notin> set ''log''" by (simp only: newline_free) simp
  from tessera_reads_checkpoint [OF this, of 7 "''root''" "[newline]"] show ?thesis by simp
qed

text \<open>An append that the log refuses returns an error although the receipt has been stored: the row stays
  in the table, unbatched, and a retry stores the receipt again.\<close>

theorem tessera_append_keeps_row:
  assumes "tl_add tz cb (snd s) = (Inl e, l)" and "CanonicalBytes r = Inr cb"
    and "AppendReceipt r (fst s) = (Inr n, d)"
  shows "ts_AppendReceipt tz r s = (Inl (Wrap ''tessera append'' (Wrap ''tessera append'' e)), (d, l)) \<and>
         (\<exists>rw. unbatched d = unbatched (fst s) @ [rw] \<and> rr_id rw = n)"
proof -
  obtain js where "receipts d = receipts (fst s) @ [\<lparr>rr_id = n, rr_json = js, rr_batched = False\<rparr>]"
    using AppendReceipt_Inr [OF assms(3)] by blast
  moreover have "ts_AppendReceipt tz r s = (Inl (Wrap ''tessera append'' (Wrap ''tessera append'' e)), (d, l))"
    using assms by (simp add: ts_AppendReceipt_def log_canonical_def on_sqlite_def on_log_def bind_op_def wrap_op_def
        tessera_Append_def)
  ultimately show ?thesis by (simp add: unbatched_def)
qed

theorem tessera_append_keeps_row_witness:
  "\<exists>tz s' e rw. ts_AppendReceipt (tz :: (unit, unit, unit) tessera) sample_receipt (empty_db, ()) = (Inl e, s') \<and> unbatched (fst s') = [rw]"
proof -
  obtain st where st: "AppendReceipt sample_receipt empty_db = (Inr 1, st)" by (rule sample_store)
  obtain cb where cb: "CanonicalBytes sample_receipt = Inr cb"
    using CanonicalBytes_Inr [OF sample_receipt_sane] by blast
  define tz :: "(unit, unit, unit) tessera" where
    "tz = \<lparr>tl_mkdir = (\<lambda>_. Inr ()), tl_driver = (\<lambda>_. Inr ()), tl_appender = (\<lambda>_ _ _. Inr ()),
       tl_add = (\<lambda>d. lift_op (Inl ErrNotExist)), tl_read_checkpoint = ret_op [],
       tl_proof_builder = (\<lambda>_. ret_op ()), tl_inclusion = (\<lambda>_ _. ret_op []), tl_consistency = (\<lambda>_ _ _. ret_op []),
       tl_entry_bundle = (\<lambda>_ _. ret_op []), tl_shutdown = ret_op ()\<rparr>"
  have "tl_add tz cb (snd (empty_db, ())) = (Inl ErrNotExist, ())" by (simp add: tz_def)
  from tessera_append_keeps_row [OF this cb, of 1 st] st show ?thesis
    by (auto simp: unbatched_def empty_db_def)
qed

end
