(* ===== verification/CheckpointProofs.thy ===== *)
theory CheckpointProofs
  imports Checkpoint TesseraProofs MerkleSpec
begin

text \<open>
  What \<^verbatim>\<open>internal/checkpoint\<close> promises: the signed payload determines the checkpoint, a built checkpoint
  and its stored copy carry valid signatures, it commits to exactly the receipts it takes out of the queue,
  and what a failing database call leaves behind.
\<close>

section \<open>The payload\<close>

definition payload_value :: "signed_payload \<Rightarrow> jval" where
  "payload_value p =
     JObj [(''batch_start'', jint (sp_BatchStart p)), (''batch_end'', jint (sp_BatchEnd p)),
           (''tree_size'', jint (sp_TreeSize p)), (''root_hex'', jstr (sp_RootHex p)),
           (''previous_root_hex'', jstr (sp_PreviousRootHex p)), (''issued_at'', jstr (sp_IssuedAt p))]"

lemma payload_Bytes_value: "payload_Bytes p = Inr (jtext (payload_value p))"
  by (simp only: payload_Bytes_def payload_members_def marshal_struct_def marshal_members.simps member_defs
      payload_value_def sum.case if_True wrap_err_simps)

lemma payload_jwf: "jwf (payload_value p) \<and> jdepth (payload_value p) = 1"
proof -
  have "plain_key ''batch_start'' \<and> plain_key ''batch_end'' \<and> plain_key ''tree_size'' \<and> plain_key ''root_hex'' \<and>
      plain_key ''previous_root_hex'' \<and> plain_key ''issued_at''"
    by (simp add: plain_key_def plain_char_def)
  then show ?thesis by (simp add: payload_value_def plain_raw_ok jint_def)
qed

definition text_fields_ok :: "store_checkpoint \<Rightarrow> bool" where
  "text_fields_ok cp = (valid_utf8 (cp_RootHex cp) \<and> valid_utf8 (cp_PreviousRootHex cp) \<and> time_ok (cp_IssuedAt cp))"

lemma jstr_inj: "valid_utf8 s \<Longrightarrow> valid_utf8 t \<Longrightarrow> jstr s = jstr t \<Longrightarrow> s = t"
  by (metis dec_str_jstr old.sum.inject(2) sanitize_valid)

lemma jint_inj: "jint i = jint j \<Longrightarrow> i = j"
  by (simp add: jint_def itoa_eq_iff)

lemma canonical_time_inj: "time_ok t \<Longrightarrow> time_ok u \<Longrightarrow> canonical_time t = canonical_time u \<Longrightarrow> t = u"
  using parse_date_time [of "t_nsec t" "t_sec t"] parse_date_time [of "t_nsec u" "t_sec u"]
  by (cases t; cases u) (simp add: canonical_time_def time_ok_def year_of_def)

lemma canonical_time_escape: "json_escape (canonical_time t) = canonical_time t"
  by (rule json_escape_time [OF canonical_time_chars])

text \<open>Two checkpoints with the same payload bytes differ at most in their key, signature and Rekor index.\<close>

definition signed_part :: "store_checkpoint \<Rightarrow> store_checkpoint" where
  "signed_part cp = cp\<lparr>cp_ID := 0, cp_OperatorSigHex := [], cp_RekorLogIndex := 0\<rparr>"

lemma payload_inj:
  assumes "text_fields_ok a" and "text_fields_ok b" and "payload_Bytes (payload_of a) = payload_Bytes (payload_of b)"
  shows "signed_part a = signed_part b"
proof -
  have "json_parse (jtext (payload_value p)) = Some (payload_value p)" for p
    using payload_jwf [of p] by (intro json_parse_jtext) simp_all
  then have v: "payload_value (payload_of a) = payload_value (payload_of b)"
    using assms(3) by (metis payload_Bytes_value old.sum.inject(2) option.inject)
  then have "jstr (cp_RootHex a) = jstr (cp_RootHex b)" "jstr (cp_PreviousRootHex a) = jstr (cp_PreviousRootHex b)"
    "canonical_time (cp_IssuedAt a) = canonical_time (cp_IssuedAt b)"
    by (simp_all add: payload_value_def payload_of_def canonical_time_escape)
  then have "cp_RootHex a = cp_RootHex b" "cp_PreviousRootHex a = cp_PreviousRootHex b" "cp_IssuedAt a = cp_IssuedAt b"
    using assms(1,2) jstr_inj canonical_time_inj by (auto simp: text_fields_ok_def)
  moreover have "cp_BatchStart a = cp_BatchStart b" "cp_BatchEnd a = cp_BatchEnd b" "cp_TreeSize a = cp_TreeSize b"
    using v jint_inj by (auto simp: payload_value_def payload_of_def)
  ultimately show ?thesis by (cases a; cases b) (simp add: signed_part_def)
qed

lemma payload_of_parts:
  "payload_of (cp\<lparr>cp_ID := n\<rparr>) = payload_of cp" "payload_of (cp\<lparr>cp_OperatorSigHex := s\<rparr>) = payload_of cp"
  "payload_of (cp\<lparr>cp_RekorLogIndex := i\<rparr>) = payload_of cp"
  "payload_of (cp\<lparr>cp_IssuedAt := t\<rparr>) = (payload_of cp)\<lparr>sp_IssuedAt := canonical_time t\<rparr>"
  by (simp_all add: payload_of_def)

text \<open>The operator's signature on a checkpoint.\<close>

definition signed_by :: "ed25519 \<Rightarrow> bytes \<Rightarrow> store_checkpoint \<Rightarrow> bool" where
  "signed_by c key cp =
     (cp_OperatorSigHex cp = hex_encode (ed_sign c key (jtext (payload_value (payload_of cp)))))"

lemma signed_verifies:
  assumes "signed_by c key cp" and "\<And>m. ed_correct c key m"
  shows "VerifyOperatorSignature c cp (ed_public c key) = Inr ()"
  using assms
  by (simp add: VerifyOperatorSignature_def signed_by_def payload_Bytes_value hex_decode_encode hex_encode_nonempty ed_correct_def)

lemma cosigned_verifies:
  assumes "CoSign c cp pub wkey = Inr sigHex" and "\<And>m. ed_correct c wkey m"
  shows "VerifyWitness c cp (ed_public c wkey) sigHex = Inr ()"
proof -
  have "sigHex = hex_encode (ed_sign c wkey (jtext (payload_value (payload_of cp))))"
    using assms(1) by (auto simp: CoSign_def and_then_Inr payload_Bytes_value)
  with assms(2) show ?thesis
    by (simp add: VerifyWitness_def payload_Bytes_value hex_decode_encode hex_encode_nonempty ed_correct_def)
qed

section \<open>The builder on the SQLite store\<close>

lemma sqlite_store_sel [simp]:
  "S_LatestCheckpoint sqlite_store = LatestCheckpoint" "S_SaveCheckpoint sqlite_store = SaveCheckpoint"
  "S_FetchUnbatched sqlite_store = FetchUnbatched" "S_MarkBatched sqlite_store = MarkBatched"
  "S_GetCheckpoint sqlite_store = GetCheckpoint" "S_GetCheckpointForRow sqlite_store = GetCheckpointForRow"
  "S_GetReceiptByID sqlite_store = GetReceiptByID" "S_GetReceiptsByRange sqlite_store = GetReceiptsByRange"
  "S_AppendReceipt sqlite_store = AppendReceipt" "S_AppendReceiptsBatch sqlite_store = AppendReceiptsBatch"
  "S_ListReceipts sqlite_store = ListReceipts" "S_ListCheckpoints sqlite_store = ListCheckpoints"
  "S_AddWitnessSignature sqlite_store = AddWitnessSignature" "S_WitnessSignatures sqlite_store = WitnessSignatures"
  "S_StoreCosignature sqlite_store = StoreCosignature" "S_GetCosignatures sqlite_store = GetCosignatures"
  "S_UpdateCheckpointRekorIndex sqlite_store = UpdateCheckpointRekorIndex" "S_Stats sqlite_store = Stats"
  by (simp_all add: sqlite_store_def)

definition last_root :: "checkpoint_row list \<Rightarrow> bytes" where
  "last_root cks = (if cks = [] then [] else ck_root_hex (last cks))"

definition row_of :: "int \<Rightarrow> store_checkpoint \<Rightarrow> checkpoint_row" where
  "row_of n cp =
     \<lparr>ck_id = n, ck_batch_start = cp_BatchStart cp, ck_batch_end = cp_BatchEnd cp, ck_tree_size = cp_TreeSize cp,
      ck_root_hex = cp_RootHex cp, ck_previous_root_hex = cp_PreviousRootHex cp,
      ck_issued_at = t_sec (cp_IssuedAt cp), ck_operator_sig_hex = cp_OperatorSigHex cp, ck_rekor_log_index = - 1\<rparr>"

lemma insert_checkpoint_row:
  "insert_checkpoint c st =
     (checkpoints_seq st + 1, st\<lparr>checkpoints := checkpoints st @ [row_of (checkpoints_seq st + 1) c],
                               checkpoints_seq := checkpoints_seq st + 1\<rparr>)"
  by (simp add: insert_checkpoint_def Let_def row_of_def)

lemma previous_root_healthy:
  "db_faults st = [] \<Longrightarrow> previous_root sqlite_store st = (Inr (last_root (checkpoints st)), st)"
  by (cases "checkpoints st" rule: rev_cases)
    (simp_all add: previous_root_def LatestCheckpoint_def scanCheckpoint_def scanCheckpointRow_def last_root_def)

text \<open>The checkpoint the builder signs.\<close>

definition issued :: "ed25519 \<Rightarrow> bytes \<Rightarrow> gotime \<Rightarrow> int \<Rightarrow> int \<Rightarrow> int \<Rightarrow> bytes \<Rightarrow> bytes \<Rightarrow> store_checkpoint" where
  "issued c key now a b n rt prev =
     (let cp = \<lparr>cp_ID = 0, cp_BatchStart = a, cp_BatchEnd = b, cp_TreeSize = n, cp_RootHex = rt,
                cp_PreviousRootHex = prev, cp_IssuedAt = truncate_second now, cp_OperatorSigHex = [], cp_RekorLogIndex = 0\<rparr>
      in cp\<lparr>cp_OperatorSigHex := hex_encode (ed_sign c key (jtext (payload_value (payload_of cp))))\<rparr>)"

lemma issued_sel [simp]:
  "cp_BatchStart (issued c key now a b n rt prev) = a" "cp_BatchEnd (issued c key now a b n rt prev) = b"
  "cp_TreeSize (issued c key now a b n rt prev) = n" "cp_RootHex (issued c key now a b n rt prev) = rt"
  "cp_PreviousRootHex (issued c key now a b n rt prev) = prev"
  "cp_IssuedAt (issued c key now a b n rt prev) = truncate_second now"
  by (simp_all add: issued_def Let_def)

lemma issued_signed: "signed_by c key (issued c key now a b n rt prev)"
  by (simp add: signed_by_def issued_def Let_def payload_of_def)

lemma sign_and_save_healthy:
  assumes "db_faults st = []"
  shows "sign_and_save sqlite_store c key now a b n rt st =
     (let cp = issued c key now a b n rt (last_root (checkpoints st)); i = checkpoints_seq st + 1
      in (Inr (cp\<lparr>cp_ID := i\<rparr>), st\<lparr>checkpoints := checkpoints st @ [row_of i cp], checkpoints_seq := i\<rparr>))"
  using assms
  by (simp add: sign_and_save_def bind_op_def previous_root_healthy payload_Bytes_value Let_def wrap_op_def
      SaveCheckpoint_def sql_healthy insert_checkpoint_row issued_def)

text \<open>The rows of the next batch and their leaves.\<close>

definition next_batch :: "builder \<Rightarrow> db \<Rightarrow> receipt_row list" where
  "next_batch b st = sql_limit (b_maxBatch b) (unbatched st)"

definition row_leaf :: "sha_fun \<Rightarrow> receipt_row \<Rightarrow> bytes res" where
  "row_leaf sha rw = and_then (stored_row rw) (\<lambda>sr. receipt_leaf sha (sr_Receipt sr))"

definition mark :: "int list \<Rightarrow> receipt_row list \<Rightarrow> receipt_row list" where
  "mark ids rows = map (\<lambda>rw. if rr_id rw \<in> set ids then rw\<lparr>rr_batched := True\<rparr> else rw) rows"

lemma map_res_compose:
  "map_res f xs = Inr ys \<Longrightarrow> map_res (\<lambda>x. and_then (f x) g) xs = map_res g ys"
  by (induction xs arbitrary: ys) (auto split: sum.splits)

lemma map_res_Inl_compose: "map_res f xs = Inl e \<Longrightarrow> \<exists>e'. map_res (\<lambda>x. and_then (f x) g) xs = Inl e'"
  by (induction xs) (auto split: sum.splits)

lemma MarkBatched_healthy:
  "db_faults st = [] \<Longrightarrow> MarkBatched ids st = (Inr (), st\<lparr>receipts := mark ids (receipts st)\<rparr>)"
  by (cases "ids = []") (simp_all add: MarkBatched_def sql_healthy mark_rows_def mark_def)

lemma build_success:
  assumes "BuildAndSign sqlite_store sha c now b st = Some (Inr (Some cp), st')" and "db_faults st = []"
  shows "\<exists>leaves rt. next_batch b st \<noteq> [] \<and> map_res (row_leaf sha) (next_batch b st) = Inr leaves \<and>
           BuildRoot sha leaves = Some rt \<and>
           (let ids = map rr_id (next_batch b st); i = checkpoints_seq st + 1;
                k = issued c (b_privateKey b) now (hd ids) (last ids) (int (length leaves)) (FormatRoot rt) (last_root (checkpoints st))
            in cp = k\<lparr>cp_ID := i\<rparr> \<and>
               st' = st\<lparr>checkpoints := checkpoints st @ [row_of i k], checkpoints_seq := i, receipts := mark ids (receipts st)\<rparr>)"
proof -
  obtain out where out: "map_res stored_row (next_batch b st) = Inr out"
    using assms
    by (cases "map_res stored_row (next_batch b st)")
      (simp_all add: BuildAndSign_def wrap_op_def FetchUnbatched_healthy next_batch_def)
  then have ids: "map sr_RowID out = map rr_id (next_batch b st)" by (rule map_res_ids)
  have out_ne: "out \<noteq> []"
  proof
    assume "out = []"
    with assms out show False by (simp add: BuildAndSign_def wrap_op_def FetchUnbatched_healthy next_batch_def)
  qed
  then have ne: "next_batch b st \<noteq> []" using ids by auto
  obtain leaves where l: "map_res (\<lambda>sr. receipt_leaf sha (sr_Receipt sr)) out = Inr leaves"
    using assms out out_ne
    by (cases "map_res (\<lambda>sr. receipt_leaf sha (sr_Receipt sr)) out")
      (simp_all add: BuildAndSign_def wrap_op_def FetchUnbatched_healthy next_batch_def)
  obtain rt where rt: "BuildRoot sha leaves = Some rt"
    using assms out out_ne l
    by (cases "BuildRoot sha leaves") (simp_all add: BuildAndSign_def wrap_op_def FetchUnbatched_healthy next_batch_def)
  have "map_res (row_leaf sha) (next_batch b st) = Inr leaves"
    using l by (simp add: row_leaf_def [abs_def] map_res_compose [OF out])
  then show ?thesis
    using assms out out_ne l rt ids ne
    by (intro exI [of _ leaves] exI [of _ rt])
      (simp add: BuildAndSign_def wrap_op_def FetchUnbatched_healthy next_batch_def [symmetric] bind_op_def
        sign_and_save_healthy Let_def MarkBatched_healthy)
qed

section \<open>Properties\<close>

text \<open>C24. The operator's signature binds the whole checkpoint: two checkpoints accepted with one signature agree on
  the range, the size, both roots and the time, if no signature is valid for two messages.\<close>

theorem operator_signature_binds:
  assumes "VerifyOperatorSignature c a pk = Inr ()" and "VerifyOperatorSignature c b pk = Inr ()"
    and "cp_OperatorSigHex a = cp_OperatorSigHex b" and "text_fields_ok a" and "text_fields_ok b"
    and "\<And>m m' sig. ed_verify c pk m sig \<Longrightarrow> ed_verify c pk m' sig \<Longrightarrow> m = m'"
  shows "signed_part a = signed_part b"
proof -
  obtain sig where "hex_decode (cp_OperatorSigHex a) = Some sig"
    "ed_verify c pk (jtext (payload_value (payload_of a))) sig" "ed_verify c pk (jtext (payload_value (payload_of b))) sig"
    using assms(1-3) by (auto simp: VerifyOperatorSignature_def and_then_Inr wrap_err_Inr or_fail_Inr payload_Bytes_value split: if_splits)
  then have "payload_Bytes (payload_of a) = payload_Bytes (payload_of b)"
    using assms(6) by (simp add: payload_Bytes_value)
  then show ?thesis by (rule payload_inj [OF assms(4,5)])
qed

definition good_checkpoint :: store_checkpoint where
  "good_checkpoint = issued toy_scheme ''k'' (unix_time 100) 1 2 2 ''ab'' []"

theorem operator_signature_binds_witness:
  "signed_part good_checkpoint = signed_part (good_checkpoint\<lparr>cp_ID := 4\<rparr>)"
proof -
  have s: "signed_by toy_scheme ''k'' good_checkpoint" by (simp add: good_checkpoint_def issued_signed)
  then have "signed_by toy_scheme ''k'' (good_checkpoint\<lparr>cp_ID := 4\<rparr>)" by (simp add: signed_by_def payload_of_parts)
  with s have v: "VerifyOperatorSignature toy_scheme good_checkpoint (ed_public toy_scheme ''k'') = Inr ()"
    "VerifyOperatorSignature toy_scheme (good_checkpoint\<lparr>cp_ID := 4\<rparr>) (ed_public toy_scheme ''k'') = Inr ()"
    using signed_verifies toy_correct by blast+
  have "canonical_time (unix_time 100) = canonical_time (unix_time 100)" by (rule refl)
  have "year_of (unix_time 100) = 1970" by code_simp
  then have "text_fields_ok good_checkpoint" "text_fields_ok (good_checkpoint\<lparr>cp_ID := 4\<rparr>)"
    by (simp_all add: text_fields_ok_def good_checkpoint_def valid_utf8_ascii truncate_second_def unix_time_def time_ok_def
        del: valid_utf8.simps)
  from operator_signature_binds [OF v _ this] show ?thesis by (simp add: toy_scheme_def)
qed

text \<open>C25. When no database call fails, a built checkpoint is stored with the link to the checkpoint before it, and
  both the returned checkpoint and the one read back from the database verify under the operator's key and can
  be cosigned. (A failing read of the latest checkpoint does not fail the build: it starts a new chain.)\<close>

theorem built_checkpoint_verifies:
  assumes "BuildAndSign sqlite_store sha c now b st = Some (Inr (Some cp), st')" and "db_faults st = []"
    and "\<And>m. ed_correct c (b_privateKey b) m" and "\<And>m. ed_correct c wkey m"
  shows "\<exists>k w. LatestCheckpoint st' = (Inr (Some k), st') \<and> k = cp\<lparr>cp_RekorLogIndex := - 1\<rparr> \<and>
           cp_PreviousRootHex cp = last_root (checkpoints st) \<and>
           VerifyOperatorSignature c cp (ed_public c (b_privateKey b)) = Inr () \<and>
           VerifyOperatorSignature c k (ed_public c (b_privateKey b)) = Inr () \<and>
           CoSign c k (ed_public c (b_privateKey b)) wkey = Inr w \<and> VerifyWitness c k (ed_public c wkey) w = Inr ()"
proof -
  obtain a e n rt i where cp: "cp = (issued c (b_privateKey b) now a e n rt (last_root (checkpoints st)))\<lparr>cp_ID := i\<rparr>"
    and cks: "checkpoints st' = checkpoints st @ [row_of i (issued c (b_privateKey b) now a e n rt (last_root (checkpoints st)))]"
    and f: "db_faults st' = []"
    using build_success [OF assms(1,2)] assms(2) by (auto simp: Let_def)
  define k where "k = cp\<lparr>cp_RekorLogIndex := - 1\<rparr>"
  have s: "signed_by c (b_privateKey b) cp"
    using issued_signed [of c "b_privateKey b"] by (simp add: cp signed_by_def payload_of_parts)
  then have sk: "signed_by c (b_privateKey b) k" by (simp add: k_def signed_by_def payload_of_parts)
  have l: "LatestCheckpoint st' = (Inr (Some k), st')"
    using f cks by (simp add: LatestCheckpoint_def scanCheckpoint_def scanCheckpointRow_def row_of_def k_def cp
        truncate_second_def unix_time_def)
  have v: "VerifyOperatorSignature c k (ed_public c (b_privateKey b)) = Inr ()" by (rule signed_verifies [OF sk assms(3)])
  then obtain w where w: "CoSign c k (ed_public c (b_privateKey b)) wkey = Inr w"
    by (simp add: CoSign_def payload_Bytes_value)
  from cosigned_verifies [OF w assms(4)] l v w signed_verifies [OF s assms(3)] show ?thesis by (auto simp: k_def cp)
qed

lemma sample_build:
  obtains st cp st' where "db_faults st = []" "db_inv st"
    "BuildAndSign sqlite_store (\<lambda>x. x) toy_scheme (unix_time 100) (NewBuilder ''k'' 0) st = Some (Inr (Some cp), st')"
proof -
  obtain st rw where st: "db_faults st = []" "db_inv st" "unbatched st = [rw]"
    "stored_row rw = Inr \<lparr>sr_RowID = 1, sr_Receipt = sample_receipt\<rparr>" by (rule sample_store)
  obtain cb where cb: "CanonicalBytes sample_receipt = Inr cb" using CanonicalBytes_Inr [OF sample_receipt_sane] by blast
  have rt: "BuildRoot (\<lambda>x. x) [HashLeaf (\<lambda>x. x) cb] = Some (mth (\<lambda>x. x) [HashLeaf (\<lambda>x. x) cb])"
    by (rule BuildRoot_mth) simp
  have "\<exists>cp st'. BuildAndSign sqlite_store (\<lambda>x. x) toy_scheme (unix_time 100) (NewBuilder ''k'' 0) st = Some (Inr (Some cp), st')"
    using st cb rt
    by (simp add: BuildAndSign_def wrap_op_def FetchUnbatched_healthy NewBuilder_def sql_limit_def receipt_leaf_def
        sign_and_save_healthy MarkBatched_healthy bind_op_def Let_def)
  with st that show ?thesis by blast
qed

theorem built_checkpoint_verifies_witness:
  "\<exists>st k w. LatestCheckpoint st = (Inr (Some k), st) \<and> VerifyWitness toy_scheme k (ed_public toy_scheme ''w'') w = Inr ()"
proof -
  obtain st cp st' where st: "db_faults st = []"
    "BuildAndSign sqlite_store (\<lambda>x. x) toy_scheme (unix_time 100) (NewBuilder ''k'' 0) st = Some (Inr (Some cp), st')"
    by (rule sample_build)
  have "b_privateKey (NewBuilder ''k'' 0) = ''k''" by (simp add: NewBuilder_def)
  with built_checkpoint_verifies [OF st(2,1), of "''w''"] toy_correct show ?thesis by fastforce
qed

text \<open>Calls that do not meet their fault.\<close>

lemma sql_pass: "db_faults st = None # fs \<Longrightarrow> sql f st = (case f (st\<lparr>db_faults := fs\<rparr>) of (x, st') \<Rightarrow> (Inr x, st'))"
  by (simp add: sql_def)

lemma query_pass: "db_faults st = None # fs \<Longrightarrow> query f st = (Inr (f (st\<lparr>db_faults := fs\<rparr>)), st\<lparr>db_faults := fs\<rparr>)"
  by (simp add: query_def sql_pass)

lemma FetchUnbatched_pass:
  assumes "db_faults st = None # None # fs" and "map_res stored_row (sql_limit n (unbatched st)) = Inr out"
  shows "FetchUnbatched n st = (Inr out, st\<lparr>db_faults := fs\<rparr>)"
  using assms
  by (simp add: FetchUnbatched_def scanStoredReceipts_def bind_op_def unbatched_def stored_row_def [abs_def] query_pass rows_err_def)

text \<open>When \<^verbatim>\<open>MarkBatched\<close> fails after \<^verbatim>\<open>SaveCheckpoint\<close>, the call returns an error but the checkpoint is stored and
  its receipts stay in the queue, so the next call commits to them a second time.\<close>

theorem failed_mark_rebatches:
  assumes "db_faults st = [None, None, None, None, Some e]"
    and "BuildAndSign sqlite_store sha c now b (tables st) = Some (Inr (Some cp), st1)"
  shows "\<exists>st2. BuildAndSign sqlite_store sha c now b st = Some (Inl (Wrap ''mark batched'' e), st2) \<and>
           checkpoints st2 = checkpoints st1 \<and> unbatched st2 = unbatched st \<and> db_faults st2 = []"
proof -
  have u: "unbatched (tables st) = unbatched st" "next_batch b (tables st) = next_batch b st"
    by (simp_all add: unbatched_def next_batch_def)
  have seq: "checkpoints_seq (tables st) = checkpoints_seq st" by (simp add: tables_def)
  obtain leaves rt where p: "next_batch b st \<noteq> []" "map_res (row_leaf sha) (next_batch b st) = Inr leaves"
    "BuildRoot sha leaves = Some rt"
    "checkpoints st1 = checkpoints st @ [row_of (checkpoints_seq st + 1)
       (issued c (b_privateKey b) now (hd (map rr_id (next_batch b st))) (last (map rr_id (next_batch b st)))
         (int (length leaves)) (FormatRoot rt) (last_root (checkpoints st)))]"
    using build_success [OF assms(2)] u seq by (auto simp: tables_def Let_def)
  obtain out where out: "map_res stored_row (next_batch b st) = Inr out"
    using p(2) map_res_Inl_compose [of stored_row "next_batch b st" _ "\<lambda>sr. receipt_leaf sha (sr_Receipt sr)"]
    unfolding row_leaf_def [abs_def] by (cases "map_res stored_row (next_batch b st)") fastforce+
  have l: "map_res (\<lambda>sr. receipt_leaf sha (sr_Receipt sr)) out = Inr leaves"
    using p(2) by (simp add: row_leaf_def [abs_def] map_res_compose [OF out])
  have ids: "map sr_RowID out = map rr_id (next_batch b st)" using out by (rule map_res_ids)
  then have ne: "out \<noteq> []" using p(1) by auto
  have f: "FetchUnbatched (b_maxBatch b) st = (Inr out, st\<lparr>db_faults := [None, None, Some e]\<rparr>)"
    using FetchUnbatched_pass [OF assms(1)] out by (simp add: next_batch_def)
  define s where "s = st\<lparr>db_faults := [None, None, Some e]\<rparr>"
  have prev: "previous_root sqlite_store s = (Inr (last_root (checkpoints st)), st\<lparr>db_faults := [None, Some e]\<rparr>)"
    by (cases "checkpoints st" rule: rev_cases)
      (simp_all add: s_def previous_root_def LatestCheckpoint_def scanCheckpoint_def scanCheckpointRow_def last_root_def query_pass)
  let ?k = "\<lambda>n. issued c (b_privateKey b) now (hd (map rr_id (next_batch b st))) (last (map rr_id (next_batch b st))) n (FormatRoot rt) (last_root (checkpoints st))"
  have save: "sign_and_save sqlite_store c (b_privateKey b) now (hd (map rr_id (next_batch b st))) (last (map rr_id (next_batch b st))) n (FormatRoot rt) s =
      (Inr ((?k n)\<lparr>cp_ID := checkpoints_seq st + 1\<rparr>), st\<lparr>db_faults := [Some e],
         checkpoints := checkpoints st @ [row_of (checkpoints_seq st + 1) (?k n)], checkpoints_seq := checkpoints_seq st + 1\<rparr>)" for n
    by (simp add: sign_and_save_def bind_op_def prev payload_Bytes_value Let_def wrap_op_def SaveCheckpoint_def sql_pass
        insert_checkpoint_row issued_def)
  show ?thesis
    using f l p(3,4) ne ids p(1) save [of "int (length leaves)"]
    by (simp add: BuildAndSign_def wrap_op_def s_def [symmetric] bind_op_def MarkBatched_def sql_def Let_def unbatched_def)
qed

theorem failed_mark_rebatches_witness:
  "\<exists>st e st2. BuildAndSign sqlite_store (\<lambda>x. x) toy_scheme (unix_time 100) (NewBuilder ''k'' 0) st = Some (Inl e, st2) \<and>
     unbatched st2 = unbatched st \<and> checkpoints st2 \<noteq> []"
proof -
  obtain st cp st' where st: "db_faults st = []"
    "BuildAndSign sqlite_store (\<lambda>x. x) toy_scheme (unix_time 100) (NewBuilder ''k'' 0) st = Some (Inr (Some cp), st')"
    by (rule sample_build)
  let ?s = "st\<lparr>db_faults := [None, None, None, None, Some (Foreign ''disk full'')]\<rparr>"
  have "tables ?s = st" using st(1) by (simp add: tables_def)
  with st(2) have b: "BuildAndSign sqlite_store (\<lambda>x. x) toy_scheme (unix_time 100) (NewBuilder ''k'' 0) (tables ?s) = Some (Inr (Some cp), st')"
    by simp
  have "checkpoints st' \<noteq> []" using build_success [OF st(2,1)] by (auto simp: Let_def)
  moreover have "unbatched ?s = unbatched st" by (simp add: unbatched_def)
  moreover obtain st2 where "BuildAndSign sqlite_store (\<lambda>x. x) toy_scheme (unix_time 100) (NewBuilder ''k'' 0) ?s =
      Some (Inl (Wrap ''mark batched'' (Foreign ''disk full'')), st2)" "checkpoints st2 = checkpoints st'" "unbatched st2 = unbatched ?s"
    using failed_mark_rebatches [OF _ b, of "Foreign ''disk full''"] by auto
  ultimately show ?thesis by metis
qed

end
