(* ===== verification/Ledger.thy ===== *)
theory Ledger
  imports CheckpointProofs
begin

text \<open>
  The ledger as a state machine: the operations the server performs on a healthy SQLite database, in any
  order, as a step relation, the states it reaches, and the invariant that ties the checkpoints to the
  receipts: they are linked in a chain, and cover the batched receipts in consecutive ranges.
\<close>

section \<open>Steps\<close>

datatype ledger_event =
    Append receipt
  | AppendBatch "receipt list"
  | Build gotime
  | WitnessSig int bytes bytes
  | Rekor int int
  | Cosig bytes bytes

inductive ledger_step :: "sha_fun \<Rightarrow> ed25519 \<Rightarrow> builder \<Rightarrow> ledger_event \<Rightarrow> db \<Rightarrow> db \<Rightarrow> bool"
  for sha c b where
  append: "AppendReceipt r st = (x, st') \<Longrightarrow> ledger_step sha c b (Append r) st st'"
| append_batch: "AppendReceiptsBatch rs st = (xs, st') \<Longrightarrow> ledger_step sha c b (AppendBatch rs) st st'"
| build: "BuildAndSign sqlite_store sha c now b st = Some (y, st') \<Longrightarrow> ledger_step sha c b (Build now) st st'"
| witness: "AddWitnessSignature i w s st = (u, st') \<Longrightarrow> ledger_step sha c b (WitnessSig i w s) st st'"
| rekor: "UpdateCheckpointRekorIndex i j st = (u, st') \<Longrightarrow> ledger_step sha c b (Rekor i j) st st'"
| cosig: "StoreCosignature h t st = (u, st') \<Longrightarrow> ledger_step sha c b (Cosig h t) st st'"

inductive_cases ledger_stepE: "ledger_step sha c b ev st st'"

inductive_simps ledger_step_simps:
  "ledger_step sha c b (Append r) st st'"
  "ledger_step sha c b (Build now) st st'"

inductive ledger_reach :: "sha_fun \<Rightarrow> ed25519 \<Rightarrow> builder \<Rightarrow> db \<Rightarrow> bool" for sha c b where
  start: "ledger_reach sha c b empty_db"
| step: "ledger_reach sha c b st \<Longrightarrow> ledger_step sha c b ev st st' \<Longrightarrow> ledger_reach sha c b st'"

section \<open>The invariant\<close>

text \<open>A checkpoint row commits to a batch of receipt rows.\<close>

definition commits :: "sha_fun \<Rightarrow> checkpoint_row \<Rightarrow> receipt_row list \<Rightarrow> bool" where
  "commits sha k batch =
     (batch \<noteq> [] \<and> ck_batch_start k = rr_id (hd batch) \<and> ck_batch_end k = rr_id (last batch) \<and>
      ck_tree_size k = int (length batch) \<and>
      (\<exists>leaves rt. map_res (row_leaf sha) batch = Inr leaves \<and> BuildRoot sha leaves = Some rt \<and>
                   ck_root_hex k = FormatRoot rt))"

inductive covered :: "sha_fun \<Rightarrow> checkpoint_row list \<Rightarrow> receipt_row list \<Rightarrow> bool" for sha where
  none: "covered sha [] []"
| more: "covered sha cks rows \<Longrightarrow> commits sha k batch \<Longrightarrow> ck_previous_root_hex k = last_root cks \<Longrightarrow>
           covered sha (cks @ [k]) (rows @ batch)"

definition ledger_inv :: "sha_fun \<Rightarrow> db \<Rightarrow> bool" where
  "ledger_inv sha st =
     (db_faults st = [] \<and> db_inv st \<and>
      (\<exists>rows. receipts st = rows @ unbatched st \<and> list_all rr_batched rows \<and> covered sha (checkpoints st) rows))"

lemma ledger_inv_start: "ledger_inv sha empty_db"
  by (simp add: ledger_inv_def empty_db_inv) (simp add: empty_db_def unbatched_def covered.none)

text \<open>An operation that leaves receipts and checkpoints alone, or adds unbatched receipts.\<close>

lemma ledger_inv_extend:
  assumes "ledger_inv sha st" and "db_inv st'" and "db_faults st' = []" and "checkpoints st' = checkpoints st"
    and "receipts st' = receipts st @ extra" and "list_all (\<lambda>rw. \<not> rr_batched rw) extra"
  shows "ledger_inv sha st'"
proof -
  obtain rows where r: "receipts st = rows @ unbatched st" "list_all rr_batched rows" "covered sha (checkpoints st) rows"
    using assms(1) by (auto simp: ledger_inv_def)
  have "filter (\<lambda>rw. \<not> rr_batched rw) extra = extra" using assms(6) by (simp add: list_all_iff)
  then have "unbatched st' = unbatched st @ extra" using assms(5) by (simp add: unbatched_def)
  with r assms show ?thesis by (auto simp: ledger_inv_def)
qed

lemma covered_map:
  assumes "covered sha cks rows"
    and "\<And>k. ck_batch_start (f k) = ck_batch_start k" "\<And>k. ck_batch_end (f k) = ck_batch_end k"
      "\<And>k. ck_tree_size (f k) = ck_tree_size k" "\<And>k. ck_root_hex (f k) = ck_root_hex k"
      "\<And>k. ck_previous_root_hex (f k) = ck_previous_root_hex k"
  shows "covered sha (map f cks) rows"
  using assms(1)
proof induction
  case none
  show ?case by (simp add: covered.none)
next
  case (more cks rows k batch)
  have "last_root (map f cks) = last_root cks" using assms(5) by (simp add: last_root_def last_map)
  with more assms(2-) show ?case by (auto intro!: covered.more simp: commits_def)
qed

lemma row_leaf_batched [simp]: "row_leaf sha (rw\<lparr>rr_batched := x\<rparr>) = row_leaf sha rw"
  by (simp add: row_leaf_def stored_row_def unmarshal_row_def)

lemma commits_marked:
  assumes "commits sha k batch"
  shows "commits sha k (map (\<lambda>rw. rw\<lparr>rr_batched := True\<rparr>) batch)"
proof -
  have "map_res (row_leaf sha) (map (\<lambda>rw. rw\<lparr>rr_batched := True\<rparr>) xs) = map_res (row_leaf sha) xs" for xs
    by (induction xs) (auto split: sum.splits)
  with assms show ?thesis by (auto simp: commits_def hd_map last_map)
qed

lemma mark_disjoint: "set ids \<inter> rr_id ` set rows = {} \<Longrightarrow> mark ids rows = rows"
  by (induction rows) (auto simp: mark_def)

lemma mark_all: "rr_id ` set rows \<subseteq> set ids \<Longrightarrow> mark ids rows = map (\<lambda>rw. rw\<lparr>rr_batched := True\<rparr>) rows"
  by (induction rows) (auto simp: mark_def)

lemma mark_append [simp]: "mark ids (xs @ ys) = mark ids xs @ mark ids ys"
  by (simp add: mark_def)

lemma sql_limit_split: "\<exists>rest. xs = sql_limit n xs @ rest"
  by (auto simp: sql_limit_def intro: exI [of _ "drop (nat n) xs"])

text \<open>A call that builds nothing changes nothing.\<close>

lemma build_nothing:
  assumes "BuildAndSign sqlite_store sha c now b st = Some (x, st')" and "db_faults st = []" and "\<And>cp. x \<noteq> Inr (Some cp)"
  shows "st' = st"
proof (cases "map_res stored_row (next_batch b st)")
  case (Inl e)
  with assms show ?thesis by (simp add: BuildAndSign_def wrap_op_def FetchUnbatched_healthy next_batch_def)
next
  case (Inr out)
  show ?thesis
  proof (cases "out = []")
    case True
    with assms Inr show ?thesis by (simp add: BuildAndSign_def wrap_op_def FetchUnbatched_healthy next_batch_def)
  next
    case False
    show ?thesis
    proof (cases "map_res (\<lambda>sr. receipt_leaf sha (sr_Receipt sr)) out")
      case (Inl e)
      with assms Inr False show ?thesis by (simp add: BuildAndSign_def wrap_op_def FetchUnbatched_healthy next_batch_def)
    next
      case l: (Inr leaves)
      with assms Inr False show ?thesis
        by (cases "BuildRoot sha leaves")
          (auto simp: BuildAndSign_def wrap_op_def FetchUnbatched_healthy next_batch_def bind_op_def
            sign_and_save_healthy Let_def MarkBatched_healthy)
    qed
  qed
qed

text \<open>The rows a build has taken: a prefix of the queue with its leaves and root.\<close>

lemma commit_batch:
  assumes inv: "ledger_inv sha st" and rest: "unbatched st = batch @ rest"
    and p: "batch \<noteq> []" "map_res (row_leaf sha) batch = Inr leaves" "BuildRoot sha leaves = Some rt"
    and k: "k = row_of (checkpoints_seq st + 1) (issued c key now (hd (map rr_id batch)) (last (map rr_id batch))
              (int (length leaves)) (FormatRoot rt) (last_root (checkpoints st)))"
    and st': "st' = st\<lparr>checkpoints := checkpoints st @ [k], checkpoints_seq := checkpoints_seq st + 1,
              receipts := mark (map rr_id batch) (receipts st)\<rparr>"
  shows "ledger_inv sha st'"
proof -
  have f: "db_faults st = []" and d: "db_inv st" using inv by (simp_all add: ledger_inv_def)
  obtain rows where r: "receipts st = rows @ unbatched st" "list_all rr_batched rows" "covered sha (checkpoints st) rows"
    using inv by (auto simp: ledger_inv_def)
  define ids where "ids = map rr_id batch"
  have "length leaves = length batch" using p(2) by (rule map_res_Inr_length)
  then have com: "commits sha k batch"
    using p by (auto simp: commits_def k row_of_def hd_map last_map)
  have "distinct (map rr_id (receipts st))" using d ids_ok_distinct by (auto simp: db_inv_def)
  then have dis: "set ids \<inter> rr_id ` set rows = {}" "set ids \<inter> rr_id ` set rest = {}"
    using r(1) rest by (auto simp: ids_def)
  have m: "receipts st' = (rows @ map (\<lambda>rw. rw\<lparr>rr_batched := True\<rparr>) batch) @ rest"
    using r(1) rest dis by (simp add: st' mark_disjoint mark_all ids_def)
  have "filter (\<lambda>rw. \<not> rr_batched rw) rest = rest"
  proof (rule filter_True, rule ballI)
    fix rw assume "rw \<in> set rest"
    then have "rw \<in> set (unbatched st)" using rest by simp
    then show "\<not> rr_batched rw" by (simp add: unbatched_def)
  qed
  moreover have "filter (\<lambda>rw. \<not> rr_batched rw) rows = []" using r(2) by (simp add: filter_empty_conv list_all_iff)
  ultimately have u: "unbatched st' = rest" by (simp add: unbatched_def m comp_def)
  have "db_inv st'"
  proof -
    have "db_inv (st\<lparr>checkpoints := checkpoints st @ [k], checkpoints_seq := checkpoints_seq st + 1\<rparr>)"
      using insert_checkpoint_inv [OF d] unfolding k insert_checkpoint_row by simp
    from mark_rows_inv [OF this, of ids] show ?thesis by (simp add: st' mark_rows_def mark_def ids_def)
  qed
  moreover have "covered sha (checkpoints st @ [k]) (rows @ map (\<lambda>rw. rw\<lparr>rr_batched := True\<rparr>) batch)"
    using r(3) commits_marked [OF com] by (rule covered.more) (simp add: k row_of_def)
  ultimately show ?thesis
    using r(2) f u m by (auto simp: ledger_inv_def st' list_all_iff)
qed

lemma build_keeps_inv:
  assumes inv: "ledger_inv sha st" and b: "BuildAndSign sqlite_store sha c now b st = Some (Inr (Some cp), st')"
  shows "ledger_inv sha st'"
proof -
  have f: "db_faults st = []" using inv by (simp add: ledger_inv_def)
  obtain rest where rest: "unbatched st = next_batch b st @ rest" using sql_limit_split by (auto simp: next_batch_def)
  from build_success [OF b f] show ?thesis by (auto simp: Let_def intro: commit_batch [OF inv rest])
qed

lemma AppendReceipt_frame: "AppendReceipt r st = (Inr n, st') \<Longrightarrow> checkpoints st' = checkpoints st"
proof -
  assume "AppendReceipt r st = (Inr n, st')"
  then obtain js where "sql (insert_receipt js) st = (Inr n, st')" by (auto simp: AppendReceipt_def bind_op_Inr)
  from sql_Inr [OF this] obtain st0 where "tables st0 = tables st" "insert_receipt js st0 = (n, st')" by blast
  moreover from this have "checkpoints st0 = checkpoints st" by (metis tables_sel(3))
  ultimately show ?thesis by (auto simp: insert_receipt_def Let_def)
qed

text \<open>The operations that do not touch checkpoints or batched receipts.\<close>

definition extends :: "db \<Rightarrow> db \<Rightarrow> bool" where
  "extends st0 st =
     (db_faults st = [] \<and> checkpoints st = checkpoints st0 \<and>
      (\<exists>extra. receipts st = receipts st0 @ extra \<and> list_all (\<lambda>rw. \<not> rr_batched rw) extra))"

lemma extends_refl: "db_faults st = [] \<Longrightarrow> extends st st"
  by (simp add: extends_def)

lemma keeps_extends_sql: "(\<And>st. extends st0 st \<Longrightarrow> extends st0 (snd (f st))) \<Longrightarrow> keeps (extends st0) (sql f)"
proof (rule keepsI)
  fix s assume f: "\<And>st. extends st0 st \<Longrightarrow> extends st0 (snd (f st))" and s: "extends st0 s"
  then have "snd (sql f s) = snd (f s)" by (simp add: extends_def sql_healthy split: prod.splits)
  with f [OF s] show "extends st0 (snd (sql f s))" by simp
qed

lemma extends_insert: "extends st0 st \<Longrightarrow> extends st0 (snd (insert_receipt js st))"
  by (auto simp: extends_def insert_receipt_def Let_def)

lemma keeps_extends_query [intro, simp]: "keeps (extends st0) (query f)"
  unfolding query_def by (rule keeps_extends_sql) simp

lemma extends_AppendReceipt: "keeps (extends st0) (AppendReceipt r)"
  unfolding AppendReceipt_def by (intro keeps_bind keeps_ret keeps_extends_sql extends_insert)

lemma extends_append_loop: "keeps (extends st0) (append_loop rs)"
  by (induction rs) (auto intro!: keeps_bind keeps_wrap keeps_extends_sql extends_insert)

lemma extends_rollback: "extends st0 s0 \<Longrightarrow> keeps (extends st0) m \<Longrightarrow> keeps (extends st0) (rollback_to s0 m)"
proof (rule keepsI)
  fix s assume s0: "extends st0 s0" and m: "keeps (extends st0) m" and s: "extends st0 s"
  obtain r s' where r: "m s = (r, s')" by (metis prod.exhaust)
  then have "extends st0 s'" using keepsD [OF m s] by simp
  with r s0 show "extends st0 (snd (rollback_to s0 m s))" by (cases r) (simp_all add: rollback_to_def extends_def)
qed

lemma extends_AppendReceiptsBatch: "extends st0 st \<Longrightarrow> extends st0 (snd (AppendReceiptsBatch rs st))"
proof -
  assume st: "extends st0 st"
  let ?m = "bind_op (wrap_op ''prepare statement'' (query (\<lambda>_. ()))) (\<lambda>_.
        bind_op (append_loop rs) (\<lambda>ids.
        bind_op (wrap_op ''commit transaction'' (query (\<lambda>_. ()))) (\<lambda>_. ret_op ids)))"
  have "keeps (extends st0) ?m" by (intro keeps_bind keeps_wrap keeps_extends_query extends_append_loop keeps_ret)
  then have "keeps (extends st0) (rollback_to st ?m)" by (rule extends_rollback [OF st])
  then have "keeps (extends st0) (bind_op (wrap_op ''begin transaction'' (query (\<lambda>_. ()))) (\<lambda>_. rollback_to st ?m))"
    by (intro keeps_bind keeps_wrap keeps_extends_query)
  from keepsD [OF this st] show ?thesis by (simp only: AppendReceiptsBatch_def)
qed

lemma extends_AddWitnessSignature: "keeps (extends st0) (AddWitnessSignature i w s)"
  unfolding AddWitnessSignature_def by (rule keeps_extends_sql) (simp add: extends_def upsert_witness_def)

lemma extends_StoreCosignature: "keeps (extends st0) (StoreCosignature h t)"
  unfolding StoreCosignature_def by (rule keeps_extends_sql) (simp add: extends_def insert_cosig_def)

lemma inv_extends:
  assumes "ledger_inv sha st" and "extends st st'" and "db_inv st'"
  shows "ledger_inv sha st'"
  using assms(2,3) ledger_inv_extend [OF assms(1)] by (auto simp: extends_def)

lemma inv_rekor:
  assumes "ledger_inv sha st" and "UpdateCheckpointRekorIndex i j st = (u, st')"
  shows "ledger_inv sha st'"
proof -
  have f: "db_faults st = []" using assms(1) by (simp add: ledger_inv_def)
  let ?f = "\<lambda>k :: checkpoint_row. if ck_id k = i then k\<lparr>ck_rekor_log_index := j\<rparr> else k"
  have st': "st' = st\<lparr>checkpoints := map ?f (checkpoints st)\<rparr>"
    using assms(2) f by (simp add: UpdateCheckpointRekorIndex_def sql_healthy set_rekor_def)
  have u: "unbatched st' = unbatched st" by (simp add: unbatched_def st')
  have "db_inv st'" using keepsD [OF keeps_UpdateRekor, of st i j] assms by (simp add: ledger_inv_def)
  moreover have "covered sha (checkpoints st) rows \<Longrightarrow> covered sha (checkpoints st') rows" for rows
    by (simp add: st', rule covered_map) auto
  ultimately show ?thesis using assms(1) f u by (auto simp: ledger_inv_def st')
qed

lemma step_keeps_inv:
  assumes "ledger_step sha c b ev st st'" and inv: "ledger_inv sha st"
  shows "ledger_inv sha st'"
proof -
  have f: "db_faults st = []" and d: "db_inv st" using inv by (simp_all add: ledger_inv_def)
  from assms(1) show ?thesis
  proof cases
    case (append r x)
    then show ?thesis
      using inv_extends [OF inv] keepsD [OF extends_AppendReceipt extends_refl [OF f]] keepsD [OF keeps_AppendReceipt d]
      by (metis snd_conv)
  next
    case (append_batch rs xs)
    then show ?thesis
      using inv_extends [OF inv] extends_AppendReceiptsBatch [OF extends_refl [OF f]] keepsD [OF keeps_AppendReceiptsBatch d]
      by (metis snd_conv)
  next
    case (build now y)
    then show ?thesis using build_keeps_inv [OF inv] build_nothing [OF _ f] inv by metis
  next
    case (witness i w s u)
    then show ?thesis
      using inv_extends [OF inv] keepsD [OF extends_AddWitnessSignature extends_refl [OF f]] keepsD [OF keeps_AddWitnessSignature d]
      by (metis snd_conv)
  next
    case (rekor i j u)
    with inv_rekor [OF inv] show ?thesis by blast
  next
    case (cosig h t u)
    then show ?thesis
      using inv_extends [OF inv] keepsD [OF extends_StoreCosignature extends_refl [OF f]] keepsD [OF keeps_StoreCosignature d]
      by (metis snd_conv)
  qed
qed

lemma reach_inv: "ledger_reach sha c b st \<Longrightarrow> ledger_inv sha st"
  by (induction rule: ledger_reach.induct) (auto simp: ledger_inv_start intro: step_keeps_inv)

section \<open>What the invariant says of ranges\<close>

lemma covered_link:
  "covered sha cks rows \<Longrightarrow> i < length cks \<Longrightarrow>
     ck_previous_root_hex (cks ! i) = (if i = 0 then [] else ck_root_hex (cks ! (i - 1)))"
proof (induction rule: covered.induct)
  case (more cks rows k batch)
  show ?case
  proof (cases "i < length cks")
    case True
    with more show ?thesis by (auto simp: nth_append)
  next
    case False
    with more.prems have "i = length cks" by simp
    with more show ?thesis by (cases "cks = []") (auto simp: nth_append last_root_def last_conv_nth)
  qed
qed simp

text \<open>The rows between the first and the last of a segment of a sorted list are the segment.\<close>

lemma filter_segment:
  assumes "sorted_wrt (<) (map rr_id (xs @ seg @ ys))" and "seg \<noteq> []"
  shows "filter (\<lambda>rw. rr_id rw \<ge> rr_id (hd seg) \<and> rr_id rw \<le> rr_id (last seg)) (xs @ seg @ ys) = seg"
proof -
  have s: "\<forall>x \<in> set xs. \<forall>y \<in> set seg. rr_id x < rr_id y" "\<forall>x \<in> set seg. \<forall>y \<in> set ys. rr_id x < rr_id y"
    "sorted_wrt (<) (map rr_id seg)"
    using assms(1) by (auto simp: sorted_wrt_append)
  have "rr_id (hd seg) \<le> rr_id x \<and> rr_id x \<le> rr_id (last seg)" if x: "x \<in> set seg" for x
  proof -
    obtain i where i: "i < length seg" "x = seg ! i"
      using x [unfolded in_set_conv_nth] by blast
    have mono: "rr_id (seg ! j) < rr_id (seg ! k)" if "j < k" "k < length seg" for j k
    proof -
      have "map rr_id seg ! j < map rr_id seg ! k" using that by (intro sorted_wrt_nth_less [OF s(3)]) simp_all
      with that show ?thesis by (simp only: nth_map order.strict_trans)
    qed
    have "rr_id (hd seg) \<le> rr_id x"
      using mono [of 0 i] i assms(2) by (cases "i = 0") (simp_all add: hd_conv_nth less_imp_le)
    moreover have l: "last seg = seg ! (length seg - 1)" by (rule last_conv_nth [OF assms(2)])
    have "i = length seg - 1 \<or> i < length seg - 1" using i(1) by linarith
    then have "rr_id x \<le> rr_id (last seg)"
    proof
      assume "i < length seg - 1"
      from mono [OF this] assms(2) show ?thesis unfolding l i(2) by simp
    qed (simp only: l i(2))
    ultimately show ?thesis by simp
  qed
  then have "filter (\<lambda>rw. rr_id rw \<ge> rr_id (hd seg) \<and> rr_id rw \<le> rr_id (last seg)) seg = seg"
    by (auto intro!: filter_True)
  moreover have "filter (\<lambda>rw. rr_id rw \<ge> rr_id (hd seg) \<and> rr_id rw \<le> rr_id (last seg)) xs = []"
    unfolding filter_empty_conv using s(1) hd_in_set [OF assms(2)] by (meson not_le)
  moreover have "filter (\<lambda>rw. rr_id rw \<ge> rr_id (hd seg) \<and> rr_id rw \<le> rr_id (last seg)) ys = []"
    unfolding filter_empty_conv using s(2) last_in_set [OF assms(2)] by (meson not_le)
  ultimately show ?thesis by simp
qed

lemma covered_segment:
  "covered sha cks rows \<Longrightarrow> k \<in> set cks \<Longrightarrow> \<exists>xs seg ys. rows = xs @ seg @ ys \<and> commits sha k seg"
proof (induction rule: covered.induct)
  case (more cks rows k' batch)
  show ?case
  proof (cases "k \<in> set cks")
    case True
    with more obtain xs seg ys where "rows = xs @ seg @ ys" "commits sha k seg" by blast
    then show ?thesis by (intro exI [of _ xs] exI [of _ seg] exI [of _ "ys @ batch"]) simp
  next
    case False
    with more have "k = k'" by simp
    with more show ?thesis by (intro exI [of _ rows] exI [of _ batch] exI [of _ "[]"]) simp
  qed
qed simp

lemma covered_row:
  "covered sha cks rows \<Longrightarrow> rw \<in> set rows \<Longrightarrow> sorted_wrt (<) (map rr_id rows) \<Longrightarrow>
     \<exists>k \<in> set cks. ck_batch_start k \<le> rr_id rw \<and> rr_id rw \<le> ck_batch_end k"
proof (induction rule: covered.induct)
  case (more cks rows k batch)
  show ?case
  proof (cases "rw \<in> set rows")
    case True
    with more show ?thesis by (auto simp: sorted_wrt_append)
  next
    case False
    then have "rw \<in> set batch" using more.prems by simp
    moreover have "filter (\<lambda>x. rr_id x \<ge> rr_id (hd batch) \<and> rr_id x \<le> rr_id (last batch)) (rows @ batch @ []) = batch"
      using more.prems(2) more.hyps(2) by (intro filter_segment) (auto simp: commits_def)
    ultimately show ?thesis using more.hyps(2) by (auto simp: commits_def dest!: arg_cong [where f = set])
  qed
qed simp

text \<open>The rows in the range of a checkpoint.\<close>

definition in_range :: "checkpoint_row \<Rightarrow> db \<Rightarrow> receipt_row list" where
  "in_range k st = filter (\<lambda>rw. rr_id rw \<ge> ck_batch_start k \<and> rr_id rw \<le> ck_batch_end k) (receipts st)"

lemma inv_range:
  assumes "ledger_inv sha st" and "k \<in> set (checkpoints st)"
  shows "commits sha k (in_range k st) \<and> list_all rr_batched (in_range k st)"
proof -
  obtain rows where r: "receipts st = rows @ unbatched st" "list_all rr_batched rows" "covered sha (checkpoints st) rows"
    using assms(1) by (auto simp: ledger_inv_def)
  obtain xs seg ys where seg: "rows = xs @ seg @ ys" "commits sha k seg"
    using covered_segment [OF r(3) assms(2)] by blast
  have "sorted_wrt (<) (map rr_id (receipts st))" using assms(1) by (simp add: ledger_inv_def db_inv_def ids_ok_def)
  then have "filter (\<lambda>rw. rr_id rw \<ge> rr_id (hd seg) \<and> rr_id rw \<le> rr_id (last seg)) (xs @ seg @ (ys @ unbatched st)) = seg"
    using seg r(1) by (intro filter_segment) (auto simp: commits_def)
  then have "in_range k st = seg" using seg r(1) by (simp add: in_range_def commits_def)
  with seg r(2) show ?thesis by (simp add: list_all_iff)
qed

section \<open>Draining the queue\<close>

text \<open>Repeated builds; \<open>None\<close> when one of them does not return.\<close>

fun builds :: "nat \<Rightarrow> sha_fun \<Rightarrow> ed25519 \<Rightarrow> gotime \<Rightarrow> builder \<Rightarrow> db \<Rightarrow> db option" where
  "builds 0 sha c now b st = Some st"
| "builds (Suc n) sha c now b st =
     Option.bind (BuildAndSign sqlite_store sha c now b st) (\<lambda>(x, st'). builds n sha c now b st')"

definition leafable :: "sha_fun \<Rightarrow> db \<Rightarrow> bool" where
  "leafable sha st = list_all (\<lambda>rw. is_ok (row_leaf sha rw)) (unbatched st)"

lemma map_res_total: "list_all (\<lambda>x. is_ok (f x)) xs \<Longrightarrow> \<exists>ys. map_res f xs = Inr ys"
  by (induction xs) (auto elim: is_ok_E)

lemma build_succeeds:
  assumes "db_faults st = []" and "leafable sha st" and "next_batch b st \<noteq> []" and "length (unbatched st) \<le> 2 ^ 62"
  shows "\<exists>cp st'. BuildAndSign sqlite_store sha c now b st = Some (Inr (Some cp), st')"
proof -
  obtain rest where rest: "unbatched st = next_batch b st @ rest" using sql_limit_split by (auto simp: next_batch_def)
  then have "list_all (\<lambda>rw. is_ok (row_leaf sha rw)) (next_batch b st)" using assms(2) by (simp add: leafable_def)
  then obtain leaves where leaves: "map_res (row_leaf sha) (next_batch b st) = Inr leaves" using map_res_total by blast
  obtain out where out: "map_res stored_row (next_batch b st) = Inr out"
    using leaves map_res_Inl_compose [of stored_row "next_batch b st" _ "\<lambda>sr. receipt_leaf sha (sr_Receipt sr)"]
    unfolding row_leaf_def [abs_def] by (cases "map_res stored_row (next_batch b st)") fastforce+
  have l: "map_res (\<lambda>sr. receipt_leaf sha (sr_Receipt sr)) out = Inr leaves"
    using leaves by (simp add: row_leaf_def [abs_def] map_res_compose [OF out])
  have "out \<noteq> []" using map_res_Inr_length [OF out] assms(3) by auto
  have "length leaves \<le> length (unbatched st)" using map_res_Inr_length [OF leaves] rest by simp
  then have "fits leaves" using assms(4) by (simp add: fits_def)
  then have "BuildRoot sha leaves = Some (mth sha leaves)" by (rule BuildRoot_mth)
  with out l \<open>out \<noteq> []\<close> assms(1) show ?thesis
    by (simp add: BuildAndSign_def wrap_op_def FetchUnbatched_healthy next_batch_def [symmetric] bind_op_def
        sign_and_save_healthy Let_def MarkBatched_healthy)
qed

lemma build_drops:
  assumes "db_inv st" and "db_faults st = []" and "0 < b_maxBatch b"
    and "BuildAndSign sqlite_store sha c now b st = Some (Inr (Some cp), st')"
  shows "unbatched st' = drop (nat (b_maxBatch b)) (unbatched st) \<and> db_faults st' = []"
proof -
  have n: "next_batch b st = take (nat (b_maxBatch b)) (unbatched st)" using assms(3) by (simp add: next_batch_def sql_limit_def)
  have "receipts st' = mark (map rr_id (next_batch b st)) (receipts st)" "db_faults st' = []"
    using build_success [OF assms(4,2)] assms(2) by (auto simp: Let_def)
  then show ?thesis
    using unbatched_after_mark [OF assms(1), of "map rr_id (next_batch b st)" "nat (b_maxBatch b)" st'] n by (simp add: mark_def)
qed

section \<open>Properties\<close>

text \<open>C26. In every state the ledger reaches from the empty database, whatever the order of appends, builds, witness
  signatures, cosignatures and Rekor updates: each checkpoint names the root of the one before it, so the chain check
  accepts neighbours, and each checkpoint commits to exactly the receipts in its range, all marked as batched.\<close>

theorem reachable_checkpoints:
  assumes "ledger_reach sha c b st"
  shows "(\<forall>i. Suc i < length (checkpoints st) \<longrightarrow>
            VerifyChainConsistency (scanCheckpointRow (checkpoints st ! i)) (scanCheckpointRow (checkpoints st ! Suc i)) = Inr ()) \<and>
         (\<forall>k \<in> set (checkpoints st). commits sha k (in_range k st) \<and> list_all rr_batched (in_range k st))"
proof (intro conjI allI impI ballI)
  note inv = reach_inv [OF assms]
  obtain rows where cov: "covered sha (checkpoints st) rows" using inv by (auto simp: ledger_inv_def)
  fix i assume "Suc i < length (checkpoints st)"
  from covered_link [OF cov this]
  show "VerifyChainConsistency (scanCheckpointRow (checkpoints st ! i)) (scanCheckpointRow (checkpoints st ! Suc i)) = Inr ()"
    by (simp add: VerifyChainConsistency_def scanCheckpointRow_def)
next
  fix k assume "k \<in> set (checkpoints st)"
  from inv_range [OF reach_inv [OF assms] this]
  show "commits sha k (in_range k st)" "list_all rr_batched (in_range k st)" by simp_all
qed

lemma sample_pending:
  obtains st where "ledger_reach (\<lambda>x. x) toy_scheme (NewBuilder ''k'' 0) st" "db_faults st = []" "db_inv st"
    "leafable (\<lambda>x. x) st" "length (unbatched st) = 1" "checkpoints st = []"
proof -
  obtain st rw where st: "AppendReceipt sample_receipt empty_db = (Inr 1, st)" "db_faults st = []" "db_inv st"
    "unbatched st = [rw]" "stored_row rw = Inr \<lparr>sr_RowID = 1, sr_Receipt = sample_receipt\<rparr>" by (rule sample_store)
  obtain cb where cb: "CanonicalBytes sample_receipt = Inr cb" using CanonicalBytes_Inr [OF sample_receipt_sane] by blast
  have "leafable (\<lambda>x. x) st" using st cb by (simp add: leafable_def row_leaf_def receipt_leaf_def)
  moreover have "ledger_reach (\<lambda>x. x) toy_scheme (NewBuilder ''k'' 0) st"
    using ledger_reach.step [OF ledger_reach.start ledger_step.append [OF st(1)]] .
  moreover have "checkpoints st = []" using AppendReceipt_frame [OF st(1)] by (simp add: empty_db_def)
  ultimately show ?thesis using that st by simp
qed

lemma pending_builds:
  assumes "db_faults st = []" and "leafable sha st" and "length (unbatched st) = 1"
  obtains cp st' where "BuildAndSign sqlite_store sha c now (NewBuilder key 0) st = Some (Inr (Some cp), st')"
proof -
  have "next_batch (NewBuilder key 0) st \<noteq> []" using assms(3) by (auto simp: next_batch_def NewBuilder_def sql_limit_def)
  from build_succeeds [OF assms(1,2) this] assms(3) that show ?thesis by force
qed

lemma sample_reach:
  obtains st where "ledger_reach (\<lambda>x. x) toy_scheme (NewBuilder ''k'' 0) st" "length (checkpoints st) = 1"
    "db_faults st = []" "unbatched st = []"
proof -
  obtain st0 where st0: "ledger_reach (\<lambda>x. x) toy_scheme (NewBuilder ''k'' 0) st0" "db_faults st0 = []" "db_inv st0"
    "leafable (\<lambda>x. x) st0" "length (unbatched st0) = 1" "checkpoints st0 = []" by (rule sample_pending)
  obtain cp st where b: "BuildAndSign sqlite_store (\<lambda>x. x) toy_scheme (unix_time 100) (NewBuilder ''k'' 0) st0 = Some (Inr (Some cp), st)"
    by (rule pending_builds [OF st0(2,4,5)])
  have "ledger_reach (\<lambda>x. x) toy_scheme (NewBuilder ''k'' 0) st" using st0(1) ledger_step.build [OF b] by (rule ledger_reach.step)
  moreover have "length (checkpoints st) = 1" using build_success [OF b st0(2)] st0(6) by (auto simp: Let_def)
  moreover have "0 < b_maxBatch (NewBuilder ''k'' 0)" by (simp add: NewBuilder_def)
  from build_drops [OF st0(3,2) this b] st0(5) have "unbatched st = []" "db_faults st = []" by (simp_all add: NewBuilder_def)
  ultimately show ?thesis using that by blast
qed

theorem reachable_checkpoints_witness:
  "\<exists>st k. ledger_reach (\<lambda>x. x) toy_scheme (NewBuilder ''k'' 0) st \<and> checkpoints st = [k] \<and> commits (\<lambda>x. x) k (in_range k st)"
proof -
  obtain st where st: "ledger_reach (\<lambda>x. x) toy_scheme (NewBuilder ''k'' 0) st" "length (checkpoints st) = 1" by (rule sample_reach)
  then obtain k where k: "checkpoints st = [k]" by (cases "checkpoints st") auto
  with reachable_checkpoints [OF st(1)] st(1) show ?thesis by auto
qed



end
