(* ===== verification/GoHttp.thy ===== *)
theory GoHttp
  imports Note Receipt "HOL-Library.AList" "HOL-Library.List_Lexorder" "HOL-Library.Char_ord"
begin

text \<open>
  What the HTTP code of the repository uses of Go: JSON decoding where \<^verbatim>\<open>null\<close> matters (nested structs,
  pointers, slices, \<^verbatim>\<open>json.RawMessage\<close>), the stream decoder with a size limit, requests, the response
  writer, and an HTTP client whose world \<open>'w\<close> answers requests.
\<close>

section \<open>Decoding nested values\<close>

text \<open>Fields that see \<^verbatim>\<open>null\<close>; a scalar and a struct ignore it.\<close>

fun decode_fields :: "'r fields \<Rightarrow> (bytes \<times> jval) list \<Rightarrow> 'r \<Rightarrow> 'r res" where
  "decode_fields fs [] r = Inr r"
| "decode_fields fs ((k, v) # ms) r =
     (case lookup_field fs k of
        None \<Rightarrow> decode_fields fs ms r
      | Some d \<Rightarrow> and_then (d v r) (decode_fields fs ms))"

definition fld :: "(jval \<Rightarrow> 'a res) \<Rightarrow> ('a \<Rightarrow> 'r \<Rightarrow> 'r) \<Rightarrow> jval \<Rightarrow> 'r \<Rightarrow> 'r res" where
  "fld dec upd v r = (if v = JNull then Inr r else set_field dec upd v r)"

definition dec_object :: "'r fields \<Rightarrow> 'r \<Rightarrow> jval \<Rightarrow> 'r res" where
  "dec_object fs r v = (case v of JObj ms \<Rightarrow> decode_fields fs ms r | JNull \<Rightarrow> Inr r | _ \<Rightarrow> Inl json_type)"

text \<open>A struct field, decoded over its present value.\<close>

definition sub :: "'a fields \<Rightarrow> ('r \<Rightarrow> 'a) \<Rightarrow> ('a \<Rightarrow> 'r \<Rightarrow> 'r) \<Rightarrow> jval \<Rightarrow> 'r \<Rightarrow> 'r res" where
  "sub fs get put v r = and_then (dec_object fs (get r) v) (\<lambda>x. Inr (put x r))"

text \<open>A pointer to a struct: \<^verbatim>\<open>null\<close> is \<^verbatim>\<open>nil\<close>, and \<^verbatim>\<open>nil\<close> becomes the zero value.\<close>

definition ptr :: "'a fields \<Rightarrow> 'a \<Rightarrow> ('r \<Rightarrow> 'a option) \<Rightarrow> ('a option \<Rightarrow> 'r \<Rightarrow> 'r) \<Rightarrow> jval \<Rightarrow> 'r \<Rightarrow> 'r res" where
  "ptr fs z get put v r =
     (if v = JNull then Inr (put None r)
      else and_then (dec_object fs (case get r of None \<Rightarrow> z | Some x \<Rightarrow> x) v) (\<lambda>x. Inr (put (Some x) r)))"

text \<open>A slice and a \<^verbatim>\<open>map[string]T\<close>; \<^verbatim>\<open>null\<close> is \<^verbatim>\<open>nil\<close>.\<close>

definition dec_list :: "(jval \<Rightarrow> 'a res) \<Rightarrow> jval \<Rightarrow> 'a list res" where
  "dec_list d v = (case v of JArr vs \<Rightarrow> map_res d vs | JNull \<Rightarrow> Inr [] | _ \<Rightarrow> Inl json_type)"

definition dec_map :: "(jval \<Rightarrow> 'a res) \<Rightarrow> jval \<Rightarrow> (bytes \<times> 'a) list res" where
  "dec_map d v =
     (case v of
        JObj ms \<Rightarrow>
          and_then (map_res (\<lambda>(k, w). and_then (d w) (\<lambda>x. Inr (unquote k, x))) ms) (\<lambda>kvs.
          Inr (foldl (\<lambda>m (k, x). AList.update k x m) [] kvs))
      | JNull \<Rightarrow> Inr [] | _ \<Rightarrow> Inl json_type)"

text \<open>A slice in a struct is decoded over the elements it has: a repeated member meets those of the earlier one.\<close>

fun decode_over :: "(jval \<Rightarrow> 'a \<Rightarrow> 'a res) \<Rightarrow> 'a \<Rightarrow> 'a list \<Rightarrow> jval list \<Rightarrow> 'a list res" where
  "decode_over d z old [] = Inr []"
| "decode_over d z old (v # vs) =
     and_then (d v (case old of [] \<Rightarrow> z | x # _ \<Rightarrow> x)) (\<lambda>y.
     and_then (decode_over d z (drop 1 old) vs) (\<lambda>ys. Inr (y # ys)))"

definition slice_of ::
  "(jval \<Rightarrow> 'a \<Rightarrow> 'a res) \<Rightarrow> 'a \<Rightarrow> ('r \<Rightarrow> 'a list) \<Rightarrow> ('a list \<Rightarrow> 'r \<Rightarrow> 'r) \<Rightarrow> jval \<Rightarrow> 'r \<Rightarrow> 'r res" where
  "slice_of d z get put v r =
     (case v of
        JNull \<Rightarrow> Inr (put [] r)
      | JArr vs \<Rightarrow> and_then (decode_over d z (get r) vs) (\<lambda>ys. Inr (put ys r))
      | _ \<Rightarrow> Inl json_type)"

definition slice :: "'a fields \<Rightarrow> 'a \<Rightarrow> ('r \<Rightarrow> 'a list) \<Rightarrow> ('a list \<Rightarrow> 'r \<Rightarrow> 'r) \<Rightarrow> jval \<Rightarrow> 'r \<Rightarrow> 'r res" where
  "slice fs = slice_of (\<lambda>v x. dec_object fs x v)"

text \<open>A struct nested for its own sake, whose members are fields of the outer record.\<close>

definition same :: "'r fields \<Rightarrow> jval \<Rightarrow> 'r \<Rightarrow> 'r res" where
  "same fs = sub fs id (\<lambda>x _. x)"

definition or_zero :: "(jval \<Rightarrow> 'a res) \<Rightarrow> 'a \<Rightarrow> jval \<Rightarrow> 'a res" where
  "or_zero d z v = (if v = JNull then Inr z else d v)"

definition unmarshal_with :: "(jval \<Rightarrow> 'a res) \<Rightarrow> bytes \<Rightarrow> 'a res" where
  "unmarshal_with d s = (case json_parse s of None \<Rightarrow> Inl json_syntax | Some v \<Rightarrow> d v)"

section \<open>The stream decoder\<close>

text \<open>The first value of the input and its text; what follows is not read.\<close>

definition json_first :: "bytes \<Rightarrow> (jval \<times> bytes) option" where
  "json_first s =
     (case parse_value (2 * length s + 2) 10000 s of
        None \<Rightarrow> None
      | Some (v, r) \<Rightarrow> Some (v, take (length (skip_ws s) - length r) (skip_ws s)))"

definition decode_stream :: "(jval \<Rightarrow> 'a res) \<Rightarrow> bytes \<Rightarrow> 'a res" where
  "decode_stream d s = (case json_first s of None \<Rightarrow> Inl json_syntax | Some (v, _) \<Rightarrow> d v)"

text \<open>The raw texts of the members of an object and of the elements of an array.\<close>

fun raw_members :: "nat \<Rightarrow> bytes \<Rightarrow> (bytes \<times> bytes) list" where
  "raw_members 0 s = []"
| "raw_members (Suc n) s =
     (case skip_ws s of [] \<Rightarrow> []
      | c # t \<Rightarrow> if c \<noteq> quote then []
         else case scan_string t of None \<Rightarrow> []
           | Some (k, r) \<Rightarrow>
               (case json_first (drop 1 (skip_ws r)) of None \<Rightarrow> []
                | Some (_, raw) \<Rightarrow>
                    (let rest = drop (length raw) (skip_ws (drop 1 (skip_ws r)))
                     in (k, raw) # raw_members n (drop 1 (skip_ws rest)))))"

fun raw_elements :: "nat \<Rightarrow> bytes \<Rightarrow> bytes list" where
  "raw_elements 0 s = []"
| "raw_elements (Suc n) s =
     (case json_first s of None \<Rightarrow> []
      | Some (_, raw) \<Rightarrow>
          (let rest = drop (length raw) (skip_ws s)
           in raw # raw_elements n (drop 1 (skip_ws rest))))"

text \<open>A struct with \<^verbatim>\<open>json.RawMessage\<close> fields is decoded from the texts of its members.\<close>

type_synonym 'r raw_fields = "(bytes \<times> (bytes \<Rightarrow> jval \<Rightarrow> 'r \<Rightarrow> 'r res)) list"

fun lookup_raw :: "'r raw_fields \<Rightarrow> bytes \<Rightarrow> (bytes \<Rightarrow> jval \<Rightarrow> 'r \<Rightarrow> 'r res) option" where
  "lookup_raw [] k = None"
| "lookup_raw ((n, d) # fs) k = (if key_matches n k then Some d else lookup_raw fs k)"

fun decode_raw_members :: "'r raw_fields \<Rightarrow> (bytes \<times> bytes) list \<Rightarrow> 'r \<Rightarrow> 'r res" where
  "decode_raw_members fs [] r = Inr r"
| "decode_raw_members fs ((k, raw) # ms) r =
     (case lookup_raw fs k of
        None \<Rightarrow> decode_raw_members fs ms r
      | Some d \<Rightarrow>
          (case json_parse raw of None \<Rightarrow> Inl json_syntax
           | Some v \<Rightarrow> and_then (d raw v r) (decode_raw_members fs ms)))"

definition dec_raw_object :: "'r raw_fields \<Rightarrow> 'r \<Rightarrow> bytes \<Rightarrow> 'r res" where
  "dec_raw_object fs r raw =
     (case json_parse raw of
        None \<Rightarrow> Inl json_syntax
      | Some v \<Rightarrow>
          (case v of JObj _ \<Rightarrow> decode_raw_members fs (raw_members (length raw) (drop 1 (skip_ws raw))) r
           | JNull \<Rightarrow> Inr r | _ \<Rightarrow> Inl json_type))"

definition dec_raw_list :: "(bytes \<Rightarrow> 'a res) \<Rightarrow> bytes \<Rightarrow> 'a list res" where
  "dec_raw_list d raw =
     (case json_parse raw of
        None \<Rightarrow> Inl json_syntax
      | Some v \<Rightarrow>
          (case v of JArr vs \<Rightarrow> map_res d (take (length vs) (raw_elements (length vs) (drop 1 (skip_ws raw))))
           | JNull \<Rightarrow> Inr [] | _ \<Rightarrow> Inl json_type))"

text \<open>
  Whether the scanner wants more input after \<open>s\<close>: one of the ways to finish the last token, followed by the
  brackets still open, makes a value.
\<close>

fun open_brackets :: "bytes \<Rightarrow> bool \<Rightarrow> bytes \<Rightarrow> bytes" where
  "open_brackets [] instr stack = stack"
| "open_brackets (c # s) instr stack =
     (if instr then
        (if c = backslash then open_brackets (drop 1 s) True stack
         else open_brackets s (c \<noteq> quote) stack)
      else if c = quote then open_brackets s True stack
      else if c = CHR ''{'' then open_brackets s False (CHR ''}'' # stack)
      else if c = CHR ''['' then open_brackets s False (CHR '']'' # stack)
      else if c = CHR ''}'' \<or> c = CHR '']'' then open_brackets s False (drop 1 stack)
      else open_brackets s False stack)"

definition token_ends :: "bytes list" where
  "token_ends =
     (let strs = [[], [quote], [quote, quote], CHR ''0'' # [quote], ''00'' @ [quote], ''000'' @ [quote], ''0000'' @ [quote]]
      in strs @ map (\<lambda>f. f @ '':0'') strs @
         [''0'', quote # quote # '':0'', ''rue'', ''ue'', ''e'', ''alse'', ''lse'', ''se'', ''ull'', ''ll'', ''l''])"

definition json_unfinished :: "bytes \<Rightarrow> bool" where
  "json_unfinished s = (json_first s = None \<and> list_ex (\<lambda>f. json_first (s @ f @ open_brackets s False []) \<noteq> None) token_ends)"

text \<open>\<^verbatim>\<open>http.MaxBytesReader\<close> under the decoder: the error of the limit comes when the value is not complete in
  the first \<open>limit\<close> bytes.\<close>

datatype 'a limited = TooLarge | Decoded "'a res"

definition decode_limited :: "nat \<Rightarrow> (bytes \<Rightarrow> 'a res) \<Rightarrow> bytes \<Rightarrow> 'a limited" where
  "decode_limited limit d body =
     (case json_first (take limit body) of
        Some (_, raw) \<Rightarrow> Decoded (d raw)
      | None \<Rightarrow> if length body > limit \<and> json_unfinished (take limit body) then TooLarge else Decoded (Inl json_syntax))"

section \<open>Requests and responses\<close>

text \<open>\<open>rq_path\<close> holds the decoded segments of a clean path; a trailing slash is a last empty segment.\<close>

record http_request =
  rq_method :: bytes
  rq_path :: "bytes list"
  rq_values :: "(bytes \<times> bytes) list"
  rq_query :: "(bytes \<times> bytes) list"
  rq_headers :: "(bytes \<times> bytes) list"
  rq_body :: bytes
  rq_read :: "nat \<Rightarrow> bytes \<times> bool"

text \<open>\<^verbatim>\<open>Get\<close> of the query, of the headers (names in canonical form) and of the path values: empty when absent.
  \<open>rq_read n\<close> is what one \<^verbatim>\<open>Read\<close> into \<open>n\<close> bytes returns and whether it fails.\<close>

definition get_or_empty :: "(bytes \<times> bytes) list \<Rightarrow> bytes \<Rightarrow> bytes" where
  "get_or_empty m k = (case map_of m k of None \<Rightarrow> [] | Some v \<Rightarrow> v)"

record writer =
  wr_headers :: "(bytes \<times> bytes) list"
  wr_sent :: "(int \<times> (bytes \<times> bytes) list) option"
  wr_body :: bytes

definition new_writer :: writer where
  "new_writer = \<lparr>wr_headers = [], wr_sent = None, wr_body = []\<rparr>"

definition set_header :: "bytes \<Rightarrow> bytes \<Rightarrow> writer \<Rightarrow> writer" where
  "set_header k v w = w\<lparr>wr_headers := AList.update k v (wr_headers w)\<rparr>"

text \<open>A handler over a state; \<open>None\<close> when it panics or does not return.\<close>

type_synonym 's reply = "(writer \<times> 's) option"
type_synonym 's handler = "http_request \<Rightarrow> writer \<Rightarrow> 's \<Rightarrow> 's reply"

text \<open>The first \<^verbatim>\<open>WriteHeader\<close> counts; a \<^verbatim>\<open>Write\<close> before it sends status 200.\<close>

definition write_header :: "int \<Rightarrow> writer \<Rightarrow> writer" where
  "write_header st w = (case wr_sent w of None \<Rightarrow> w\<lparr>wr_sent := Some (st, wr_headers w)\<rparr> | Some _ \<Rightarrow> w)"

definition write_body :: "bytes \<Rightarrow> writer \<Rightarrow> writer" where
  "write_body b w = (write_header 200 w)\<lparr>wr_body := wr_body w @ b\<rparr>"

text \<open>\<^verbatim>\<open>json.NewEncoder(w).Encode(v)\<close>: a newline after the value; nothing when it cannot be marshalled.\<close>

definition encode_json :: "jval res \<Rightarrow> writer \<Rightarrow> writer" where
  "encode_json v w = (case v of Inl e \<Rightarrow> w | Inr x \<Rightarrow> write_body (jtext x @ [newline]) w)"

definition writeJSON :: "int \<Rightarrow> jval res \<Rightarrow> writer \<Rightarrow> writer" where
  "writeJSON status v w = encode_json v (write_header status (set_header ''Content-Type'' ''application/json'' w))"

definition writeError :: "int \<Rightarrow> bytes \<Rightarrow> writer \<Rightarrow> writer" where
  "writeError status msg w = writeJSON status (Inr (JObj [(''error'', jstr msg)])) w"

text \<open>Values from members, lists of values, and a \<^verbatim>\<open>map[string]string\<close> with its keys sorted.\<close>

definition jobj :: "member list \<Rightarrow> jval res" where
  "jobj ms = (case marshal_members ms of Inl e \<Rightarrow> Inl e | Inr xs \<Rightarrow> Inr (JObj xs))"

definition jarr :: "jval res list \<Rightarrow> jval res" where
  "jarr vs = (case map_res id vs of Inl e \<Rightarrow> Inl e | Inr xs \<Rightarrow> Inr (JArr xs))"

text \<open>A slice built by \<^verbatim>\<open>append\<close> from \<^verbatim>\<open>nil\<close>: empty is \<^verbatim>\<open>null\<close>.\<close>

definition jslice :: "jval res list \<Rightarrow> jval res" where
  "jslice vs = (if vs = [] then Inr JNull else jarr vs)"

definition jmap :: "(bytes \<times> bytes) list \<Rightarrow> jval" where
  "jmap m = JObj (map (\<lambda>(k, v). (json_escape k, jstr v)) (sort_key fst m))"

definition m_val :: "bytes \<Rightarrow> jval res \<Rightarrow> member" where
  "m_val k v = (k, True, v)"

section \<open>The client side\<close>

record http_response =
  hr_status :: int
  hr_body :: bytes
  hr_body_err :: "goerr option"

text \<open>\<^verbatim>\<open>io.ReadAll\<close>, with its error, and with the error dropped.\<close>

definition read_all :: "http_response \<Rightarrow> bytes res" where
  "read_all r = (case hr_body_err r of None \<Rightarrow> Inr (hr_body r) | Some e \<Rightarrow> Inl e)"

record 'w http_client =
  hc_get :: "bytes \<Rightarrow> ('w, http_response) op"
  hc_post :: "bytes \<Rightarrow> (bytes \<times> bytes) list \<Rightarrow> bytes \<Rightarrow> ('w, http_response) op"

text \<open>A response whose body the stream decoder reads.\<close>

definition decode_response :: "(jval \<Rightarrow> 'a res) \<Rightarrow> http_response \<Rightarrow> 'a res" where
  "decode_response d r =
     (case json_first (hr_body r) of
        Some (v, _) \<Rightarrow> d v
      | None \<Rightarrow> (case hr_body_err r of None \<Rightarrow> Inl json_syntax | Some e \<Rightarrow> Inl e))"

definition status_error :: "bytes \<Rightarrow> http_response \<Rightarrow> goerr" where
  "status_error pre r = Err (pre @ itoa (hr_status r) @ '': '' @ hr_body r)"

end
