(* ===== verification/Provider.thy ===== *)
theory Provider
  imports GoHttp ReceiptProofs
begin

text \<open>
  \<^verbatim>\<open>internal/provider\<close> and \<^verbatim>\<open>pkg/vur/provider.go\<close>: the adapters that read token counts out of the
  response bodies of the providers, and the registry that finds an adapter by name.
\<close>

section \<open>What an adapter returns\<close>

record provider_usage =
  u_InputTokens :: int
  u_OutputTokens :: int
  u_ReasoningTokens :: int
  u_CacheReadTokens :: int
  u_CacheWriteTokens :: int
  u_RequestID :: bytes

record provider_adapter =
  pa_Name :: bytes
  pa_ParseUsage :: "bytes \<Rightarrow> provider_usage res"
  pa_TokenizerID :: bytes

definition zero_usage :: provider_usage where
  "zero_usage = \<lparr>u_InputTokens = 0, u_OutputTokens = 0, u_ReasoningTokens = 0, u_CacheReadTokens = 0,
     u_CacheWriteTokens = 0, u_RequestID = []\<rparr>"

section \<open>OpenAI\<close>

text \<open>The reasoning tokens sit behind a pointer: absent and \<^verbatim>\<open>null\<close> count as none.\<close>

record openai_response =
  oa_ID :: bytes
  oa_PromptTokens :: int
  oa_CompletionTokens :: int
  oa_Details :: "int option"

definition zero_openai :: openai_response where
  "zero_openai = \<lparr>oa_ID = [], oa_PromptTokens = 0, oa_CompletionTokens = 0, oa_Details = None\<rparr>"

definition details_fields :: "int fields" where
  "details_fields = [(''reasoning_tokens'', fld dec_int64 (\<lambda>x _. x))]"

definition openai_usage_fields :: "openai_response fields" where
  "openai_usage_fields =
     [(''prompt_tokens'', fld dec_int64 (\<lambda>x r. r\<lparr>oa_PromptTokens := x\<rparr>)),
      (''completion_tokens'', fld dec_int64 (\<lambda>x r. r\<lparr>oa_CompletionTokens := x\<rparr>)),
      (''completion_tokens_details'', ptr details_fields 0 oa_Details (\<lambda>x r. r\<lparr>oa_Details := x\<rparr>))]"

definition openai_fields :: "openai_response fields" where
  "openai_fields =
     [(''id'', fld dec_str (\<lambda>x r. r\<lparr>oa_ID := x\<rparr>)),
      (''usage'', sub openai_usage_fields id (\<lambda>x _. x))]"

definition OpenAI_ParseUsage :: "bytes \<Rightarrow> provider_usage res" where
  "OpenAI_ParseUsage body =
     (case wrap_err ''openai parse'' (unmarshal_with (dec_object openai_fields zero_openai) body) of
        Inl e \<Rightarrow> Inl e
      | Inr resp \<Rightarrow>
          (let u = zero_usage\<lparr>u_InputTokens := oa_PromptTokens resp, u_OutputTokens := oa_CompletionTokens resp,
                      u_RequestID := oa_ID resp\<rparr>
           in Inr (case oa_Details resp of None \<Rightarrow> u | Some n \<Rightarrow> u\<lparr>u_ReasoningTokens := n\<rparr>)))"

definition OpenAIAdapter :: provider_adapter where
  "OpenAIAdapter = \<lparr>pa_Name = ''openai'', pa_ParseUsage = OpenAI_ParseUsage, pa_TokenizerID = ''cl100k_base''\<rparr>"

section \<open>Anthropic\<close>

record anthropic_response =
  an_ID :: bytes
  an_InputTokens :: int
  an_OutputTokens :: int
  an_CacheCreation :: int
  an_CacheRead :: int

definition zero_anthropic :: anthropic_response where
  "zero_anthropic = \<lparr>an_ID = [], an_InputTokens = 0, an_OutputTokens = 0, an_CacheCreation = 0, an_CacheRead = 0\<rparr>"

definition anthropic_usage_fields :: "anthropic_response fields" where
  "anthropic_usage_fields =
     [(''input_tokens'', fld dec_int64 (\<lambda>x r. r\<lparr>an_InputTokens := x\<rparr>)),
      (''output_tokens'', fld dec_int64 (\<lambda>x r. r\<lparr>an_OutputTokens := x\<rparr>)),
      (''cache_creation_input_tokens'', fld dec_int64 (\<lambda>x r. r\<lparr>an_CacheCreation := x\<rparr>)),
      (''cache_read_input_tokens'', fld dec_int64 (\<lambda>x r. r\<lparr>an_CacheRead := x\<rparr>))]"

definition anthropic_fields :: "anthropic_response fields" where
  "anthropic_fields =
     [(''id'', fld dec_str (\<lambda>x r. r\<lparr>an_ID := x\<rparr>)),
      (''usage'', sub anthropic_usage_fields id (\<lambda>x _. x))]"

definition Anthropic_ParseUsage :: "bytes \<Rightarrow> provider_usage res" where
  "Anthropic_ParseUsage body =
     (case wrap_err ''anthropic parse'' (unmarshal_with (dec_object anthropic_fields zero_anthropic) body) of
        Inl e \<Rightarrow> Inl e
      | Inr resp \<Rightarrow>
          Inr (zero_usage\<lparr>u_InputTokens := an_InputTokens resp, u_OutputTokens := an_OutputTokens resp,
                 u_CacheReadTokens := an_CacheRead resp, u_CacheWriteTokens := an_CacheCreation resp,
                 u_RequestID := an_ID resp\<rparr>))"

definition AnthropicAdapter :: provider_adapter where
  "AnthropicAdapter =
     \<lparr>pa_Name = ''anthropic'', pa_ParseUsage = Anthropic_ParseUsage, pa_TokenizerID = ''cl100k_base''\<rparr>"

section \<open>Any OpenAI-compatible endpoint\<close>

record generic_response =
  gn_ID :: bytes
  gn_PromptTokens :: int
  gn_CompletionTokens :: int
  gn_TotalTokens :: int

definition zero_generic :: generic_response where
  "zero_generic = \<lparr>gn_ID = [], gn_PromptTokens = 0, gn_CompletionTokens = 0, gn_TotalTokens = 0\<rparr>"

definition generic_usage_fields :: "generic_response fields" where
  "generic_usage_fields =
     [(''prompt_tokens'', fld dec_int64 (\<lambda>x r. r\<lparr>gn_PromptTokens := x\<rparr>)),
      (''completion_tokens'', fld dec_int64 (\<lambda>x r. r\<lparr>gn_CompletionTokens := x\<rparr>)),
      (''total_tokens'', fld dec_int64 (\<lambda>x r. r\<lparr>gn_TotalTokens := x\<rparr>))]"

definition generic_fields :: "generic_response fields" where
  "generic_fields =
     [(''id'', fld dec_str (\<lambda>x r. r\<lparr>gn_ID := x\<rparr>)),
      (''usage'', sub generic_usage_fields id (\<lambda>x _. x))]"

definition Generic_ParseUsage :: "bytes \<Rightarrow> provider_usage res" where
  "Generic_ParseUsage body =
     (case wrap_err ''generic parse'' (unmarshal_with (dec_object generic_fields zero_generic) body) of
        Inl e \<Rightarrow> Inl e
      | Inr resp \<Rightarrow>
          Inr (zero_usage\<lparr>u_InputTokens := gn_PromptTokens resp, u_OutputTokens := gn_CompletionTokens resp,
                 u_RequestID := gn_ID resp\<rparr>))"

definition GenericAdapter :: provider_adapter where
  "GenericAdapter = \<lparr>pa_Name = ''generic'', pa_ParseUsage = Generic_ParseUsage, pa_TokenizerID = ''cl100k_base''\<rparr>"

section \<open>The registry\<close>

type_synonym registry = "bytes \<rightharpoonup> provider_adapter"

definition register_adapter :: "provider_adapter \<Rightarrow> registry \<Rightarrow> registry" where
  "register_adapter a r = r(pa_Name a \<mapsto> a)"

definition NewRegistry :: registry where
  "NewRegistry =
     register_adapter GenericAdapter (register_adapter AnthropicAdapter (register_adapter OpenAIAdapter Map.empty))"

definition get_adapter :: "registry \<Rightarrow> bytes \<Rightarrow> provider_adapter res" where
  "get_adapter r name =
     (case r name of None \<Rightarrow> Inl (Err (''unknown provider '' @ go_quote name)) | Some a \<Rightarrow> Inr a)"

section \<open>Lemmas\<close>

lemma zero_usage_sel [simp]:
  "u_InputTokens zero_usage = 0" "u_OutputTokens zero_usage = 0" "u_ReasoningTokens zero_usage = 0"
  "u_CacheReadTokens zero_usage = 0" "u_CacheWriteTokens zero_usage = 0"
  by (simp_all add: zero_usage_def)

text \<open>The members of an object whose names one of the given names matches, letter case aside.\<close>

definition relevant :: "bytes list \<Rightarrow> (bytes \<times> jval) list \<Rightarrow> (bytes \<times> jval) list" where
  "relevant names ms = filter (\<lambda>(k, v). list_ex (\<lambda>n. key_matches n k) names) ms"

lemma lookup_field_relevant: "lookup_field fs k = None \<longleftrightarrow> \<not> list_ex (\<lambda>n. key_matches n k) (map fst fs)"
  by (induction fs) (auto split: if_splits)

lemma decode_fields_relevant: "decode_fields fs ms r = decode_fields fs (relevant (map fst fs) ms) r"
proof (induction ms arbitrary: r)
  case (Cons m ms)
  obtain k v where m: "m = (k, v)" by fastforce
  have IH: "decode_fields fs ms = decode_fields fs (relevant (map fst fs) ms)" using Cons.IH by blast
  show ?case
  proof (cases "lookup_field fs k")
    case None
    then have "relevant (map fst fs) (m # ms) = relevant (map fst fs) ms"
      using lookup_field_relevant [of fs k] by (simp add: m relevant_def)
    with None show ?thesis by (simp add: m) (simp add: IH)
  next
    case (Some d)
    then have "relevant (map fst fs) (m # ms) = m # relevant (map fst fs) ms"
      using lookup_field_relevant [of fs k] by (simp add: m relevant_def)
    with Some show ?thesis by (simp add: m IH [symmetric])
  qed
qed (simp add: relevant_def)

lemma dec_object_relevant: "map fst fs = names \<Longrightarrow> dec_object fs r (JObj ms) = decode_fields fs (relevant names ms) r"
  using decode_fields_relevant [of fs ms r] by (simp add: dec_object_def)

lemma parse_int_out_of_range: "\<not> int64 i \<Longrightarrow> parse_int (itoa i) = None"
proof -
  assume i: "\<not> int64 i"
  show ?thesis
  proof (cases "i < 0")
    case True
    with i have "2 ^ 63 < nat (- i)" by (auto simp: int64_def)
    with True show ?thesis by (simp add: itoa_def parse_int_def itoa_nat_digits)
  next
    case False
    with i have "2 ^ 63 \<le> nat i" by (auto simp: int64_def le_nat_iff)
    moreover obtain c t where "itoa_nat (nat i) = c # t" "is_digit c"
      using itoa_nat_hd [of "nat i"] itoa_nat_nonempty [of "nat i"] by (cases "itoa_nat (nat i)") auto
    moreover from this have "digits_val (c # t) = nat i" by (metis itoa_nat_val)
    ultimately show ?thesis
      using False is_digit_not_sign itoa_nat_digits [of "nat i"] by (auto simp: itoa_def parse_int_def Let_def)
  qed
qed

lemma fld_jint: "fld dec_int64 upd (jint i) r = (if int64 i then Inr (upd i r) else Inl json_type)"
  using dec_int64_jint [of i] parse_int_out_of_range [of i]
  by (simp add: fld_def set_field_def jint_def dec_int64_def or_fail_def)

lemma plain_names [simp]:
  "plain_key ''id''" "plain_key ''usage''" "plain_key ''prompt_tokens''" "plain_key ''completion_tokens''"
  "plain_key ''total_tokens''" "plain_key ''completion_tokens_details''" "plain_key ''reasoning_tokens''"
  "plain_key ''input_tokens''" "plain_key ''output_tokens''" "plain_key ''cache_creation_input_tokens''"
  "plain_key ''cache_read_input_tokens''"
  by (simp_all add: plain_key_def plain_char_def)

lemma jint_not_null [simp]: "jint i \<noteq> JNull"
  by (simp add: jint_def)

lemma jstr_not_null [simp]: "jstr s \<noteq> JNull"
  by simp

text \<open>The body of a response, its object and the usage object in it.\<close>

definition responds :: "bytes \<Rightarrow> bytes \<Rightarrow> (bytes \<times> jval) list \<Rightarrow> bool" where
  "responds body rid us =
     (valid_utf8 rid \<and> (\<exists>ms. json_parse body = Some (JObj ms) \<and>
        relevant [''id'', ''usage''] ms = [(''id'', jstr rid), (''usage'', JObj us)]))"

lemma openai_details:
  assumes "relevant [''reasoning_tokens''] ds = [(''reasoning_tokens'', jint q)]"
  shows "dec_object details_fields 0 (JObj ds) = (if int64 q then Inr q else Inl json_type)"
  by (subst dec_object_relevant [where names = "[''reasoning_tokens'']"])
    (simp_all add: assms details_fields_def key_matches_plain fld_jint)

lemma openai_usage:
  assumes "relevant [''prompt_tokens'', ''completion_tokens'', ''completion_tokens_details''] us =
      [(''prompt_tokens'', jint p), (''completion_tokens'', jint c), (''completion_tokens_details'', JObj ds)]"
    and "relevant [''reasoning_tokens''] ds = [(''reasoning_tokens'', jint q)]" and "oa_Details r = None"
  shows "dec_object openai_usage_fields r (JObj us) =
    (if int64 p \<and> int64 c \<and> int64 q then Inr (r\<lparr>oa_PromptTokens := p, oa_CompletionTokens := c, oa_Details := Some q\<rparr>) else Inl json_type)"
  by (subst dec_object_relevant [where names = "[''prompt_tokens'', ''completion_tokens'', ''completion_tokens_details'']"])
    (simp_all add: assms(1,3) openai_usage_fields_def key_matches_plain fld_jint ptr_def openai_details [OF assms(2)])

lemma anthropic_usage:
  assumes "relevant [''input_tokens'', ''output_tokens'', ''cache_creation_input_tokens'', ''cache_read_input_tokens''] us =
      [(''input_tokens'', jint p), (''output_tokens'', jint c), (''cache_creation_input_tokens'', jint w), (''cache_read_input_tokens'', jint q)]"
  shows "dec_object anthropic_usage_fields r (JObj us) =
    (if int64 p \<and> int64 c \<and> int64 w \<and> int64 q
     then Inr (r\<lparr>an_InputTokens := p, an_OutputTokens := c, an_CacheCreation := w, an_CacheRead := q\<rparr>) else Inl json_type)"
  by (subst dec_object_relevant [where names = "[''input_tokens'', ''output_tokens'', ''cache_creation_input_tokens'', ''cache_read_input_tokens'']"])
    (simp_all add: assms anthropic_usage_fields_def key_matches_plain fld_jint)

lemma generic_usage:
  assumes "relevant [''prompt_tokens'', ''completion_tokens'', ''total_tokens''] us =
      [(''prompt_tokens'', jint p), (''completion_tokens'', jint c), (''total_tokens'', jint t)]"
  shows "dec_object generic_usage_fields r (JObj us) =
    (if int64 p \<and> int64 c \<and> int64 t
     then Inr (r\<lparr>gn_PromptTokens := p, gn_CompletionTokens := c, gn_TotalTokens := t\<rparr>) else Inl json_type)"
  by (subst dec_object_relevant [where names = "[''prompt_tokens'', ''completion_tokens'', ''total_tokens'']"])
    (simp_all add: assms generic_usage_fields_def key_matches_plain fld_jint)

text \<open>The identifier and the usage object are found wherever they stand in the body.\<close>

lemma responds_decode:
  assumes "responds body rid us" and "map fst fs = [''id'', ''usage'']"
    and "lookup_field fs ''id'' = Some (fld dec_str upd)" and "lookup_field fs ''usage'' = Some (sub gs id (\<lambda>x _. x))"
  shows "unmarshal_with (dec_object fs z) body = dec_object gs (upd rid z) (JObj us)"
proof -
  obtain ms where "valid_utf8 rid" "json_parse body = Some (JObj ms)"
    "relevant [''id'', ''usage''] ms = [(''id'', jstr rid), (''usage'', JObj us)]"
    using assms(1) by (auto simp: responds_def)
  with assms(3,4) show ?thesis
    by (cases "dec_object gs (upd rid z) (JObj us)")
      (simp_all add: unmarshal_with_def dec_object_relevant [OF assms(2)] fld_def set_field_def sub_def and_then_def go_dec sanitize_valid)
qed

section \<open>What a registered adapter returns\<close>

definition parse_usage :: "bytes \<Rightarrow> bytes \<Rightarrow> provider_usage res" where
  "parse_usage name body = and_then (get_adapter NewRegistry name) (\<lambda>a. pa_ParseUsage a body)"

lemma parse_usage_registered:
  "parse_usage ''openai'' = OpenAI_ParseUsage" "parse_usage ''anthropic'' = Anthropic_ParseUsage"
  "parse_usage ''generic'' = Generic_ParseUsage"
  by (simp_all add: fun_eq_iff parse_usage_def get_adapter_def NewRegistry_def register_adapter_def OpenAIAdapter_def
      AnthropicAdapter_def GenericAdapter_def)


lemma generic_found: "get_adapter NewRegistry ''generic'' = Inr GenericAdapter"
  by (simp add: get_adapter_def NewRegistry_def register_adapter_def GenericAdapter_def)

definition chat_body :: "bytes \<Rightarrow> int \<Rightarrow> int \<Rightarrow> bytes" where
  "chat_body rid p c =
     jtext (JObj [(''id'', jstr rid), (''usage'', JObj [(''prompt_tokens'', jint p), (''completion_tokens'', jint c)])])"

lemma generic_reads:
  assumes "valid_utf8 rid" "int64 p" "int64 c"
  shows "Generic_ParseUsage (chat_body rid p c) =
    Inr (zero_usage\<lparr>u_InputTokens := p, u_OutputTokens := c, u_RequestID := rid\<rparr>)"
proof -
  have "json_parse (chat_body rid p c) =
      Some (JObj [(''id'', jstr rid), (''usage'', JObj [(''prompt_tokens'', jint p), (''completion_tokens'', jint c)])])"
    unfolding chat_body_def by (rule json_parse_jtext) (simp_all add: plain_raw_ok jint_def)
  with assms show ?thesis
    by (simp add: Generic_ParseUsage_def unmarshal_with_def dec_object_def generic_fields_def generic_usage_fields_def
        key_matches_plain fld_def sub_def set_field_def and_then_def wrap_err_def go_dec sanitize_valid zero_generic_def)
qed

text \<open>A body with other members around, for the OpenAI adapter.\<close>

definition completion_body :: "bytes \<Rightarrow> bytes \<Rightarrow> int \<Rightarrow> int \<Rightarrow> int \<Rightarrow> bytes" where
  "completion_body model rid p c q =
     jtext (JObj [(''model'', jstr model), (''id'', jstr rid),
       (''usage'', JObj [(''prompt_tokens'', jint p), (''completion_tokens'', jint c),
          (''completion_tokens_details'', JObj [(''reasoning_tokens'', jint q)])])])"

lemma completion_responds:
  assumes "valid_utf8 rid"
  shows "responds (completion_body model rid p c q) rid [(''prompt_tokens'', jint p), (''completion_tokens'', jint c),
    (''completion_tokens_details'', JObj [(''reasoning_tokens'', jint q)])]"
proof -
  have m: "plain_key ''model''" by (simp add: plain_key_def plain_char_def)
  have "json_parse (completion_body model rid p c q) =
      Some (JObj [(''model'', jstr model), (''id'', jstr rid), (''usage'', JObj [(''prompt_tokens'', jint p),
        (''completion_tokens'', jint c), (''completion_tokens_details'', JObj [(''reasoning_tokens'', jint q)])])])"
    unfolding completion_body_def by (rule json_parse_jtext) (simp_all add: plain_raw_ok jint_def m)
  with m assms show ?thesis by (simp add: responds_def relevant_def key_matches_plain)
qed


end
