(* ===== verification/ModelId.thy ===== *)
theory ModelId
  imports Provider
begin

text \<open>
  \<^verbatim>\<open>internal/model\<close>: the registry of model identities and the verification of an OMS bundle (a Sigstore
  bundle over the digest of a model's manifest). X.509, ECDSA and PEM are parameters.
\<close>

section \<open>Identities\<close>

record model_identity =
  mi_ModelName :: bytes
  mi_ModelDigest :: bytes
  mi_SignerIdentity :: bytes
  mi_RekorLogIndex :: int
  mi_Verified :: bool

record model_registry =
  mr_byName :: "bytes \<rightharpoonup> model_identity"
  mr_byDigest :: "bytes \<rightharpoonup> model_identity"

definition Register :: "bytes \<Rightarrow> model_identity \<Rightarrow> model_registry \<Rightarrow> unit res \<times> model_registry" where
  "Register modelName identity r =
     (if modelName = [] then (Inl (Err ''model name must not be empty''), r)
      else
        (let identity = identity\<lparr>mi_ModelName := modelName\<rparr>;
             r1 = r\<lparr>mr_byName := (mr_byName r)(modelName \<mapsto> identity)\<rparr>
         in (Inr (),
             if mi_ModelDigest identity \<noteq> []
             then r1\<lparr>mr_byDigest := (mr_byDigest r1)(mi_ModelDigest identity \<mapsto> identity)\<rparr> else r1)))"

definition Lookup :: "bytes \<Rightarrow> model_registry \<Rightarrow> model_identity option res" where
  "Lookup modelName r = Inr (mr_byName r modelName)"

definition LookupByDigest :: "bytes \<Rightarrow> model_registry \<Rightarrow> model_identity option res" where
  "LookupByDigest digest r = Inr (mr_byDigest r digest)"

definition known :: "bytes \<Rightarrow> bytes \<Rightarrow> model_identity" where
  "known name who = \<lparr>mi_ModelName = name, mi_ModelDigest = [], mi_SignerIdentity = who,
     mi_RekorLogIndex = 0, mi_Verified = False\<rparr>"

definition wellKnown :: "model_identity list" where
  "wellKnown =
     [known ''gpt-4o'' ''https://openai.com'',
      known ''gpt-4o-mini'' ''https://openai.com'',
      known ''gpt-4-turbo'' ''https://openai.com'',
      known ''claude-opus-4'' ''https://anthropic.com'',
      known ''claude-sonnet-4-5'' ''https://anthropic.com'',
      known ''claude-haiku-4-5'' ''https://anthropic.com'',
      known ''meta-llama/Llama-3.1-8B'' ''https://huggingface.co/meta-llama'',
      known ''meta-llama/Llama-3.1-70B'' ''https://huggingface.co/meta-llama'',
      known ''meta-llama/Llama-3.1-405B'' ''https://huggingface.co/meta-llama'',
      known ''google/gemini-1.5-pro'' ''https://ai.google.dev'',
      known ''google/gemini-1.5-flash'' ''https://ai.google.dev'',
      known ''mistralai/Mistral-7B-Instruct-v0.3'' ''https://mistral.ai'',
      known ''mistralai/Mixtral-8x7B-Instruct-v0.1'' ''https://mistral.ai'']"

definition loadWellKnown :: "model_registry \<Rightarrow> model_registry" where
  "loadWellKnown r = foldl (\<lambda>r i. r\<lparr>mr_byName := (mr_byName r)(mi_ModelName i \<mapsto> i)\<rparr>) r wellKnown"

definition NewModelRegistry :: model_registry where
  "NewModelRegistry = loadWellKnown \<lparr>mr_byName = Map.empty, mr_byDigest = Map.empty\<rparr>"

section \<open>The bundle\<close>

record oms_bundle =
  ob_RawBytes :: bytes
  ob_LogIndexes :: "bytes list"
  ob_Algorithm :: bytes
  ob_Digest :: bytes
  ob_Signature :: bytes

definition zero_bundle :: oms_bundle where
  "zero_bundle = \<lparr>ob_RawBytes = [], ob_LogIndexes = [], ob_Algorithm = [], ob_Digest = [], ob_Signature = []\<rparr>"

definition bundle_fields :: "oms_bundle fields" where
  "bundle_fields =
     [(''mediaType'', fld dec_str (\<lambda>_ b. b)),
      (''verificationMaterial'', same
         [(''certificate'', same [(''rawBytes'', fld dec_str (\<lambda>x b. b\<lparr>ob_RawBytes := x\<rparr>))]),
          (''tlogEntries'', slice [(''logIndex'', fld dec_str (\<lambda>x _. x))] [] ob_LogIndexes
             (\<lambda>xs b. b\<lparr>ob_LogIndexes := xs\<rparr>))]),
      (''messageSignature'', same
         [(''messageDigest'', same
             [(''algorithm'', fld dec_str (\<lambda>x b. b\<lparr>ob_Algorithm := x\<rparr>)),
              (''digest'', fld dec_str (\<lambda>x b. b\<lparr>ob_Digest := x\<rparr>))]),
          (''signature'', fld dec_str (\<lambda>x b. b\<lparr>ob_Signature := x\<rparr>))])]"

section \<open>Certificates\<close>

text \<open>
  Parsing, the chain to a pool of roots at a time, the ECDSA key if the certificate has one, and its names: the
  URIs with their schemes, the e-mail addresses, the common name. \<open>xl_verify\<close> is \<^verbatim>\<open>ecdsa.VerifyASN1\<close>, \<open>xl_pem\<close>
  the bytes of the first PEM block.
\<close>

record ('ct, 'rt, 'ky) x509_lib =
  xl_parse :: "bytes \<Rightarrow> 'ct res"
  xl_chain :: "'rt \<Rightarrow> gotime \<Rightarrow> 'ct \<Rightarrow> unit res"
  xl_not_before :: "'ct \<Rightarrow> gotime"
  xl_key :: "'ct \<Rightarrow> 'ky option"
  xl_verify :: "'ky \<Rightarrow> bytes \<Rightarrow> bytes \<Rightarrow> bool"
  xl_uris :: "'ct \<Rightarrow> (bytes \<times> bytes) list"
  xl_emails :: "'ct \<Rightarrow> bytes list"
  xl_common_name :: "'ct \<Rightarrow> bytes"
  xl_pem :: "bytes \<Rightarrow> bytes option"

definition isOIDCURI :: "bytes \<times> bytes \<Rightarrow> bool" where
  "isOIDCURI u = (fst u = ''https'' \<or> fst u = ''http'' \<or> fst u = ''spiffe'')"

definition extractURISAN :: "('ct, 'rt, 'ky) x509_lib \<Rightarrow> 'ct \<Rightarrow> bytes" where
  "extractURISAN xl cert =
     (case find isOIDCURI (xl_uris xl cert) of
        Some u \<Rightarrow> snd u
      | None \<Rightarrow> (case xl_emails xl cert of e # _ \<Rightarrow> e | [] \<Rightarrow> xl_common_name xl cert))"

text \<open>\<^verbatim>\<open>fmt.Sscanf(s, "%d", &idx)\<close>: spaces, a sign, digits; what follows is not read, a newline before the
  number is an error.\<close>

definition scan_decimal :: "bytes \<Rightarrow> int option" where
  "scan_decimal s =
     (let t = trim_left_space s;
          sgn = (if has_prefix ''+'' t \<or> has_prefix ''-'' t then take 1 t else []);
          ds = takeWhile is_digit (drop (length sgn) t)
      in if newline \<in> set (take (length s - length t) s) \<or> ds = [] then None else parse_int (sgn @ ds))"

text \<open>One second after, for a time without a fraction.\<close>

definition add_second :: "gotime \<Rightarrow> gotime" where
  "add_second t = t\<lparr>t_sec := t_sec t + 1\<rparr>"

record 'rt verify_options =
  vo_TrustRoots :: "'rt option"
  vo_SkipTlogVerification :: bool

definition b64_or :: "bytes \<Rightarrow> bytes \<Rightarrow> bytes res" where
  "b64_or what s = wrap_err what (or_fail (Foreign ''illegal base64 data'') (b64_decode s))"

definition VerifyModelIdentity ::
  "('ct, 'rt, 'ky) x509_lib \<Rightarrow> bytes \<Rightarrow> bytes \<Rightarrow> 'rt verify_options \<Rightarrow> model_identity res" where
  "VerifyModelIdentity xl bundleJSON modelName opts =
     (if bundleJSON = [] then Inl (Err ''bundle JSON is empty'')
      else
        and_then (wrap_err ''parse bundle'' (unmarshal_with (dec_object bundle_fields zero_bundle) bundleJSON)) (\<lambda>b.
        and_then (b64_or ''decode certificate'' (ob_RawBytes b)) (\<lambda>certDER.
        and_then (wrap_err ''parse certificate'' (xl_parse xl certDER)) (\<lambda>cert.
        and_then (case vo_TrustRoots opts of
                    None \<Rightarrow> Inr ()
                  | Some roots \<Rightarrow>
                      wrap_err ''certificate chain verification''
                        (xl_chain xl roots (add_second (xl_not_before xl cert)) cert)) (\<lambda>_.
        if ob_Algorithm b \<noteq> ''SHA2_256'' then Inl (Err (''unsupported digest algorithm: '' @ ob_Algorithm b))
        else
        and_then (b64_or ''decode message digest'' (ob_Digest b)) (\<lambda>digestBytes.
        if length digestBytes \<noteq> 32
        then Inl (Err (''expected 32-byte SHA256 digest, got '' @ itoa (int (length digestBytes)) @ '' bytes''))
        else
        and_then (b64_or ''decode signature'' (ob_Signature b)) (\<lambda>sigBytes.
        (case xl_key xl cert of
           None \<Rightarrow> Inl (Err ''certificate does not contain an ECDSA public key'')
         | Some ecPub \<Rightarrow>
             if \<not> xl_verify xl ecPub digestBytes sigBytes then Inl (Err ''signature verification failed'')
             else
               (let rekorIndex = (case ob_LogIndexes b of
                                    [] \<Rightarrow> - 1
                                  | i # _ \<Rightarrow> (case scan_decimal i of None \<Rightarrow> - 1 | Some n \<Rightarrow> n))
                in Inr \<lparr>mi_ModelName = modelName, mi_ModelDigest = hex_encode digestBytes,
                        mi_SignerIdentity = extractURISAN xl cert, mi_RekorLogIndex = rekorIndex,
                        mi_Verified = True\<rparr>)))))))))"

section \<open>A bundle with a PEM certificate\<close>

text \<open>
  \<^verbatim>\<open>json.Marshal\<close> of a \<^verbatim>\<open>json.RawMessage\<close> drops the whitespace and escapes \<^verbatim>\<open><\<close>, \<^verbatim>\<open>>\<close>, \<^verbatim>\<open>&\<close>,
  U+2028 and U+2029 where they stand.
\<close>

fun html_escape :: "bytes \<Rightarrow> bytes" where
  "html_escape [] = []"
| "html_escape (c # s) =
     (if c \<in> {CHR ''<'', CHR ''>'', CHR ''&''}
      then backslash # ''u00'' @ [hex_digit (code c div 16), hex_digit (code c mod 16)] @ html_escape s
      else if code c = 226 \<and> length s \<ge> 2 \<and> code (s ! 0) = 128 \<and> (code (s ! 1) = 168 \<or> code (s ! 1) = 169)
      then backslash # ''u202'' @ [hex_digit (code (s ! 1) mod 16)] @ html_escape (drop 2 s)
      else c # html_escape s)"

fun raw_escape :: "jval \<Rightarrow> jval" where
  "raw_escape (JStr s) = JStr (html_escape s)"
| "raw_escape (JArr vs) = JArr (map raw_escape vs)"
| "raw_escape (JObj ms) = JObj (map (\<lambda>(k, v). (html_escape k, raw_escape v)) ms)"
| "raw_escape v = v"

definition certificate_fields :: "bytes fields" where
  "certificate_fields = [(''certificate'', same [(''rawBytes'', fld dec_str (\<lambda>x _. x))])]"

definition ParseBundleFromPEM :: "('ct, 'rt, 'ky) x509_lib \<Rightarrow> bytes \<Rightarrow> bytes" where
  "ParseBundleFromPEM xl bundleJSON =
     (case unmarshal_with (dec_map Inr) bundleJSON of
        Inl e \<Rightarrow> bundleJSON
      | Inr raw \<Rightarrow>
          (case map_of raw ''verificationMaterial'' of
             None \<Rightarrow> bundleJSON
           | Some vm \<Rightarrow>
               (case dec_object certificate_fields [] vm of
                  Inl e \<Rightarrow> bundleJSON
                | Inr rawBytes \<Rightarrow>
                    (case b64_decode rawBytes of
                       Some _ \<Rightarrow> bundleJSON
                     | None \<Rightarrow>
                         (case xl_pem xl rawBytes of
                            None \<Rightarrow> bundleJSON
                          | Some der \<Rightarrow>
                              (let vm' = JObj [(''certificate'', JObj [(''rawBytes'', jstr (b64_encode der))])];
                                   out = AList.update ''verificationMaterial'' vm' raw
                               in jtext (JObj (map (\<lambda>(k, v). (json_escape k, raw_escape v)) (sort_key fst out)))))))))"

section \<open>Lemmas\<close>

lemma Register_Lookup:
  "modelName \<noteq> [] \<Longrightarrow>
   Lookup modelName (snd (Register modelName i r)) = Inr (Some (i\<lparr>mi_ModelName := modelName\<rparr>))"
  by (simp add: Lookup_def Register_def Let_def)

lemma Register_LookupByDigest:
  "modelName \<noteq> [] \<Longrightarrow> mi_ModelDigest i \<noteq> [] \<Longrightarrow>
   LookupByDigest (mi_ModelDigest i) (snd (Register modelName i r)) = Inr (Some (i\<lparr>mi_ModelName := modelName\<rparr>))"
  by (simp add: LookupByDigest_def Register_def Let_def)

text \<open>A built-in identity is never marked verified.\<close>

definition unverified_names :: "model_registry \<Rightarrow> bool" where
  "unverified_names r = (\<forall>n i. mr_byName r n = Some i \<longrightarrow> \<not> mi_Verified i)"

lemma foldl_unverified:
  "unverified_names r \<Longrightarrow> list_all (\<lambda>i. \<not> mi_Verified i) l \<Longrightarrow>
   unverified_names (foldl (\<lambda>r i. r\<lparr>mr_byName := (mr_byName r)(mi_ModelName i \<mapsto> i)\<rparr>) r l)"
proof (induction l arbitrary: r)
  case (Cons i l)
  have "unverified_names (r\<lparr>mr_byName := (mr_byName r)(mi_ModelName i \<mapsto> i)\<rparr>)"
    using Cons.prems by (simp add: unverified_names_def)
  moreover have "list_all (\<lambda>i. \<not> mi_Verified i) l" using Cons.prems(2) by simp
  ultimately show ?case unfolding foldl_Cons by (rule Cons.IH)
qed simp

lemma registry_unverified: "Lookup name NewModelRegistry = Inr (Some i) \<Longrightarrow> \<not> mi_Verified i"
proof -
  have "unverified_names NewModelRegistry"
    unfolding NewModelRegistry_def loadWellKnown_def
    by (rule foldl_unverified) (simp_all add: unverified_names_def wellKnown_def known_def)
  then show "Lookup name NewModelRegistry = Inr (Some i) \<Longrightarrow> \<not> mi_Verified i"
    by (simp add: Lookup_def unverified_names_def)
qed

end
