(* ===== verification/Energy.thy ===== *)
theory Energy
  imports Provider
begin

text \<open>
  \<^verbatim>\<open>internal/energy\<close>: energy per token from a benchmark table, carbon intensity of a region, and the
  conversion to CO2. The arithmetic is that of \<^verbatim>\<open>float64\<close>, every operation rounded (no fused multiply-add).
\<close>

section \<open>Energy\<close>

record energy_estimate =
  ee_Joules :: f64
  ee_Source :: bytes

text \<open>\<^verbatim>\<open>EnergyEstimator\<close> and \<^verbatim>\<open>CarbonLookup\<close>, the interfaces the server holds.\<close>

type_synonym estimator = "bytes \<Rightarrow> int \<Rightarrow> int \<Rightarrow> energy_estimate res"
type_synonym carbon_lookup = "bytes \<Rightarrow> f64 res"

definition SourceModelBenchmark :: bytes where "SourceModelBenchmark = ''model-benchmark''"

definition SourceNone :: bytes where "SourceNone = ''none''"

record model_benchmark =
  mb_Input :: f64
  mb_Output :: f64

text \<open>Joules per token, written in units of 0.0001.\<close>

definition benchmark :: "rat \<Rightarrow> rat \<Rightarrow> model_benchmark" where
  "benchmark i out = \<lparr>mb_Input = fl (i / 10000), mb_Output = fl (out / 10000)\<rparr>"

type_synonym benchmark_table = "bytes \<rightharpoonup> model_benchmark"

definition NewBenchmarkEstimator :: benchmark_table where
  "NewBenchmarkEstimator = map_of
     [(''gpt-4o'', benchmark 30 90),
      (''gpt-4o-mini'', benchmark 4 12),
      (''gpt-4-turbo'', benchmark 35 105),
      (''gpt-3.5-turbo'', benchmark 2 6),
      (''claude-opus-4'', benchmark 40 120),
      (''claude-sonnet-4-5'', benchmark 12 36),
      (''claude-haiku-4-5'', benchmark 3 9),
      (''claude-3-5-sonnet'', benchmark 10 30),
      (''claude-3-haiku'', benchmark 2 6),
      (''meta-llama/Llama-3.1-8B'', benchmark 1 3),
      (''meta-llama/Llama-3.1-70B'', benchmark 8 24),
      (''meta-llama/Llama-3.1-405B'', benchmark 45 135),
      (''google/gemini-1.5-pro'', benchmark 25 75),
      (''google/gemini-1.5-flash'', benchmark 3 9),
      (''mistralai/Mistral-7B-Instruct-v0.3'', benchmark 1 3),
      (''mistralai/Mixtral-8x7B-Instruct-v0.1'', benchmark 4 12)]"

definition Estimate :: "benchmark_table \<Rightarrow> estimator" where
  "Estimate e model inputTokens outputTokens =
     (case e model of
        None \<Rightarrow> Inr \<lparr>ee_Joules = Fin 0, ee_Source = SourceNone\<rparr>
      | Some b \<Rightarrow>
          (let joules = fadd (fmul (mb_Input b) (f_of_int inputTokens)) (fmul (mb_Output b) (f_of_int outputTokens))
           in Inr \<lparr>ee_Joules = joules, ee_Source = SourceModelBenchmark\<rparr>))"

definition RegisterModel :: "bytes \<Rightarrow> f64 \<Rightarrow> f64 \<Rightarrow> benchmark_table \<Rightarrow> unit res \<times> benchmark_table" where
  "RegisterModel model i out e =
     (if model = [] then (Inl (Err ''model name must not be empty''), e)
      else (Inr (), e(model \<mapsto> \<lparr>mb_Input = i, mb_Output = out\<rparr>)))"

definition CarbonEstimateKgCO2e :: "f64 \<Rightarrow> f64 \<Rightarrow> f64" where
  "CarbonEstimateKgCO2e joules gCO2ePerKWh = fdiv (fmul (fdiv joules (fl 3600000)) gCO2ePerKWh) (fl 1000)"

section \<open>Carbon intensity\<close>

type_synonym carbon_table = "bytes \<rightharpoonup> f64"

definition NewStaticCarbonLookup :: carbon_table where
  "NewStaticCarbonLookup = map_of
     [(''us-east-1'', fl 360),
      (''us-east-2'', fl 560),
      (''us-west-1'', fl 210),
      (''us-west-2'', fl 130),
      (''eu-west-1'', fl 280),
      (''eu-west-2'', fl 225),
      (''eu-west-3'', fl 60),
      (''eu-central-1'', fl 320),
      (''eu-north-1'', fl 20),
      (''ap-southeast-1'', fl 430),
      (''ap-northeast-1'', fl 490),
      (''ap-northeast-2'', fl 420),
      (''ap-south-1'', fl 700),
      (''ca-central-1'', fl 40),
      (''sa-east-1'', fl 74),
      (''us-central1'', fl 490),
      (''us-east4'', fl 360),
      (''us-west1'', fl 130),
      (''europe-west1'', fl 170),
      (''europe-west4'', fl 310),
      (''eastus'', fl 360),
      (''westus'', fl 200),
      (''westeurope'', fl 310),
      (''northeurope'', fl 280),
      (''swedencentral'', fl 20),
      (''global'', fl 436)]"

definition Intensity :: "carbon_table \<Rightarrow> carbon_lookup" where
  "Intensity l region =
     (case l region of
        Some v \<Rightarrow> Inr v
      | None \<Rightarrow>
          (case l ''global'' of
             Some v \<Rightarrow> Inr v
           | None \<Rightarrow> Inl (Err (''no carbon intensity data for region '' @ go_quote region))))"

definition RegisterRegion :: "bytes \<Rightarrow> f64 \<Rightarrow> carbon_table \<Rightarrow> carbon_table" where
  "RegisterRegion region g l = l(region \<mapsto> g)"

section \<open>Lemmas\<close>

text \<open>The built-in lookup answers for every region, and keeps answering after any registration.\<close>

lemma Intensity_total: "l ''global'' \<noteq> None \<Longrightarrow> \<exists>v. Intensity l region = Inr v"
  by (auto simp: Intensity_def split: option.splits)

lemma RegisterRegion_global: "l ''global'' \<noteq> None \<Longrightarrow> RegisterRegion region g l ''global'' \<noteq> None"
  by (simp add: RegisterRegion_def)

lemma static_global: "NewStaticCarbonLookup ''global'' \<noteq> None"
  by (simp add: NewStaticCarbonLookup_def)

lemma Intensity_registered: "Intensity (RegisterRegion region g l) region = Inr g"
  by (simp add: Intensity_def RegisterRegion_def)

lemma Estimate_unknown:
  "e model = None \<Longrightarrow> Estimate e model i out = Inr \<lparr>ee_Joules = Fin 0, ee_Source = SourceNone\<rparr>"
  by (simp add: Estimate_def)

end
