(* ===== verification/Attestation.thy ===== *)
theory Attestation
  imports Energy
begin

text \<open>
  \<^verbatim>\<open>internal/attestation\<close>: a receipt as an in-toto v1 statement, with the model's provenance and the energy
  footprint where the receipt has them.
\<close>

section \<open>The predicate\<close>

record model_provenance =
  mp_ModelName :: bytes
  mp_ModelDigest :: bytes
  mp_SignerIdentity :: bytes
  mp_Verified :: bool

record energy_footprint =
  ef_Joules :: f64
  ef_CarbonGCO2e :: f64
  ef_Region :: bytes

record siqlah_predicate =
  sp_Receipt :: receipt
  sp_ModelProvenance :: "model_provenance option"
  sp_EnergyFootprint :: "energy_footprint option"

definition buildPredicate :: "receipt \<Rightarrow> siqlah_predicate" where
  "buildPredicate r =
     \<lparr>sp_Receipt = r,
      sp_ModelProvenance =
        (if r_ModelSignerIdentity r \<noteq> [] \<or> r_ModelSignatureVerified r
         then Some \<lparr>mp_ModelName = r_Model r, mp_ModelDigest = r_ModelDigest r,
                    mp_SignerIdentity = r_ModelSignerIdentity r, mp_Verified = r_ModelSignatureVerified r\<rparr>
         else None),
      sp_EnergyFootprint =
        (if Fin 0 < r_EnergyEstimateJoules r
         then (let carbon = fdiv (fmul (r_CarbonIntensityGCO2ePerKWh r) (r_EnergyEstimateJoules r)) (fl 3600000)
               in Some \<lparr>ef_Joules = r_EnergyEstimateJoules r, ef_CarbonGCO2e = carbon, ef_Region = r_InferenceRegion r\<rparr>)
         else None)\<rparr>"

definition marshal_provenance :: "model_provenance \<Rightarrow> jval res" where
  "marshal_provenance p = jobj
     [m_str ''model_name'' (mp_ModelName p), m_str_opt ''model_digest'' (mp_ModelDigest p),
      m_str_opt ''signer_identity'' (mp_SignerIdentity p), m_bool ''verified'' (mp_Verified p)]"

definition marshal_footprint :: "energy_footprint \<Rightarrow> jval res" where
  "marshal_footprint f = jobj
     [m_float ''joules'' (ef_Joules f), m_float_opt ''carbon_gco2e'' (ef_CarbonGCO2e f),
      m_str_opt ''region'' (ef_Region f)]"

definition m_opt :: "bytes \<Rightarrow> ('a \<Rightarrow> jval res) \<Rightarrow> 'a option \<Rightarrow> member" where
  "m_opt k f x = (case x of None \<Rightarrow> (k, False, Inr JNull) | Some y \<Rightarrow> (k, True, f y))"

definition marshal_predicate :: "siqlah_predicate \<Rightarrow> jval res" where
  "marshal_predicate p = jobj
     [m_val ''receipt'' (jobj (receipt_members (sp_Receipt p))),
      m_opt ''model_provenance'' marshal_provenance (sp_ModelProvenance p),
      m_opt ''energy_footprint'' marshal_footprint (sp_EnergyFootprint p)]"

section \<open>The statement\<close>

definition StatementTypeURI :: bytes where "StatementTypeURI = ''https://in-toto.io/Statement/v1''"

definition PredicateTypeURI :: bytes where "PredicateTypeURI = ''https://siqlah.dev/receipt/v1''"

record resource_digest =
  rd_Name :: bytes
  rd_Digest :: "(bytes \<times> bytes) list"

record statement =
  sm_Type :: bytes
  sm_Subject :: "resource_digest list"
  sm_PredicateType :: bytes
  sm_Predicate :: siqlah_predicate

definition NewReceiptStatement :: "receipt option \<Rightarrow> statement res" where
  "NewReceiptStatement receipt =
     (case receipt of
        None \<Rightarrow> Inl (Err ''receipt must not be nil'')
      | Some r \<Rightarrow>
          if r_ResponseHash r = [] then Inl (Err (''receipt '' @ r_ID r @ '' is missing response hash''))
          else
            (let subjects = [\<lparr>rd_Name = ''response:'' @ r_ID r, rd_Digest = [(''sha256'', r_ResponseHash r)]\<rparr>];
                 subjects = (if r_RequestHash r \<noteq> []
                   then [\<lparr>rd_Name = ''request:'' @ r_ID r, rd_Digest = [(''sha256'', r_RequestHash r)]\<rparr>] @ subjects
                   else subjects)
             in Inr \<lparr>sm_Type = StatementTypeURI, sm_Subject = subjects, sm_PredicateType = PredicateTypeURI,
                     sm_Predicate = buildPredicate r\<rparr>))"

definition marshal_subject :: "resource_digest \<Rightarrow> jval res" where
  "marshal_subject d = jobj [m_str ''name'' (rd_Name d), m_val ''digest'' (Inr (jmap (rd_Digest d)))]"

definition marshal_statement :: "statement \<Rightarrow> jval res" where
  "marshal_statement s = jobj
     [m_str ''_type'' (sm_Type s), m_val ''subject'' (jarr (map marshal_subject (sm_Subject s))),
      m_str ''predicateType'' (sm_PredicateType s), m_val ''predicate'' (marshal_predicate (sm_Predicate s))]"

definition statement_Bytes :: "statement \<Rightarrow> bytes res" where
  "statement_Bytes s = (case marshal_statement s of Inl e \<Rightarrow> Inl e | Inr v \<Rightarrow> Inr (jtext v))"

section \<open>Lemmas\<close>

text \<open>A statement names the two hashes of its receipt, the request's first, and only hashes that are not empty.\<close>

lemma statement_subjects:
  assumes "NewReceiptStatement (Some r) = Inr s"
  shows "concat (map (map snd \<circ> rd_Digest) (sm_Subject s)) = filter (\<lambda>h. h \<noteq> []) [r_RequestHash r, r_ResponseHash r]"
  using assms by (auto simp: NewReceiptStatement_def Let_def split: if_splits)

lemma statement_carries_receipt:
  assumes "NewReceiptStatement (Some r) = Inr s"
  shows "sp_Receipt (sm_Predicate s) = r"
  using assms by (auto simp: NewReceiptStatement_def buildPredicate_def Let_def split: if_splits)

end
