(* ===== verification/X402.thy ===== *)
theory X402
  imports Provider
begin

text \<open>
  \<^verbatim>\<open>internal/x402\<close>: payment authorizations, their structural check, the header that carries one, the bridge
  that remembers which receipt was paid how, and the middleware that answers 402 without a header.
\<close>

section \<open>The messages\<close>

record payment_scheme =
  ps_Scheme :: bytes
  ps_Network :: bytes
  ps_Amount :: bytes
  ps_Token :: bytes
  ps_Recipient :: bytes

record payment_required =
  pr_Version :: bytes
  pr_Accepts :: "payment_scheme list"
  pr_RequestID :: bytes

record payment_authorization =
  pa_Scheme :: bytes
  pa_Network :: bytes
  pa_TxHash :: bytes
  pa_FromAddress :: bytes
  pa_Amount :: bytes
  pa_Token :: bytes
  pa_Recipient :: bytes
  pa_SignedAt :: bytes

record payment_response =
  pp_Receipt :: receipt
  pp_Payment :: "payment_authorization option"
  pp_PaymentVerified :: bool
  pp_PaymentError :: bytes

definition marshal_scheme :: "payment_scheme \<Rightarrow> jval res" where
  "marshal_scheme s = jobj
     [m_str ''scheme'' (ps_Scheme s), m_str ''network'' (ps_Network s), m_str ''amount'' (ps_Amount s),
      m_str ''token'' (ps_Token s), m_str ''recipient'' (ps_Recipient s)]"

text \<open>A \<^verbatim>\<open>nil\<close> list of schemes is \<^verbatim>\<open>null\<close>; the server's list comes from \<^verbatim>\<open>append\<close> or is \<^verbatim>\<open>nil\<close>.\<close>

definition marshal_required :: "payment_required \<Rightarrow> jval res" where
  "marshal_required p = jobj
     [m_str ''version'' (pr_Version p), m_val ''accepts'' (jslice (map marshal_scheme (pr_Accepts p))),
      m_str_opt ''request_id'' (pr_RequestID p)]"

definition marshal_auth :: "payment_authorization \<Rightarrow> jval res" where
  "marshal_auth a = jobj
     [m_str ''scheme'' (pa_Scheme a), m_str ''network'' (pa_Network a), m_str ''tx_hash'' (pa_TxHash a),
      m_str ''from_address'' (pa_FromAddress a), m_str ''amount'' (pa_Amount a), m_str ''token'' (pa_Token a),
      m_str ''recipient'' (pa_Recipient a), m_str ''signed_at'' (pa_SignedAt a)]"

definition marshal_payment_response :: "payment_response \<Rightarrow> jval res" where
  "marshal_payment_response p = jobj
     [m_val ''receipt'' (jobj (receipt_members (pp_Receipt p))),
      m_val ''payment'' (case pp_Payment p of None \<Rightarrow> Inr JNull | Some a \<Rightarrow> marshal_auth a),
      m_bool ''payment_verified'' (pp_PaymentVerified p), m_str_opt ''payment_error'' (pp_PaymentError p)]"

definition zero_auth :: payment_authorization where
  "zero_auth = \<lparr>pa_Scheme = [], pa_Network = [], pa_TxHash = [], pa_FromAddress = [], pa_Amount = [],
     pa_Token = [], pa_Recipient = [], pa_SignedAt = []\<rparr>"

definition auth_fields :: "payment_authorization fields" where
  "auth_fields =
     [(''scheme'', fld dec_str (\<lambda>x a. a\<lparr>pa_Scheme := x\<rparr>)),
      (''network'', fld dec_str (\<lambda>x a. a\<lparr>pa_Network := x\<rparr>)),
      (''tx_hash'', fld dec_str (\<lambda>x a. a\<lparr>pa_TxHash := x\<rparr>)),
      (''from_address'', fld dec_str (\<lambda>x a. a\<lparr>pa_FromAddress := x\<rparr>)),
      (''amount'', fld dec_str (\<lambda>x a. a\<lparr>pa_Amount := x\<rparr>)),
      (''token'', fld dec_str (\<lambda>x a. a\<lparr>pa_Token := x\<rparr>)),
      (''recipient'', fld dec_str (\<lambda>x a. a\<lparr>pa_Recipient := x\<rparr>)),
      (''signed_at'', fld dec_str (\<lambda>x a. a\<lparr>pa_SignedAt := x\<rparr>))]"

section \<open>The checks\<close>

definition VerifyPaymentAuth :: "payment_authorization option \<Rightarrow> unit res" where
  "VerifyPaymentAuth auth =
     (case auth of
        None \<Rightarrow> Inl (Err ''payment authorization is nil'')
      | Some a \<Rightarrow>
          if pa_Scheme a = [] then Inl (Err ''payment scheme is required'')
          else if \<not> has_prefix ''x402/'' (pa_Scheme a)
          then Inl (Err (''unsupported payment scheme '' @ go_quote (pa_Scheme a) @ '': must start with x402/''))
          else if pa_Network a = [] then Inl (Err ''payment network is required'')
          else if pa_TxHash a = [] then Inl (Err ''tx_hash is required'')
          else if pa_FromAddress a = [] then Inl (Err ''from_address is required'')
          else if pa_Amount a = [] then Inl (Err ''amount is required'')
          else if pa_Recipient a = [] then Inl (Err ''recipient is required'')
          else Inr ())"

definition PaymentHeader :: bytes where "PaymentHeader = ''X-Payment''"

definition x402Version :: bytes where "x402Version = ''0.1''"

definition NewPaymentRequired :: "bytes \<Rightarrow> payment_scheme list \<Rightarrow> payment_required" where
  "NewPaymentRequired requestID schemes =
     \<lparr>pr_Version = x402Version, pr_Accepts = schemes, pr_RequestID = requestID\<rparr>"

text \<open>Base64 first, then the header as it is.\<close>

definition ExtractPaymentAuth :: "http_request \<Rightarrow> payment_authorization res" where
  "ExtractPaymentAuth r =
     (let raw = get_or_empty (rq_headers r) PaymentHeader
      in if raw = [] then Inl (Err (''missing '' @ PaymentHeader @ '' header''))
         else (let decoded = (case b64_decode raw of Some d \<Rightarrow> d | None \<Rightarrow> raw)
               in wrap_err ''decode payment header'' (unmarshal_with (dec_object auth_fields zero_auth) decoded)))"

section \<open>The bridge\<close>

type_synonym bridge = "bytes \<rightharpoonup> payment_authorization"

definition NewBridge :: bridge where
  "NewBridge = Map.empty"

definition bridge_Store :: "bytes \<Rightarrow> payment_authorization \<Rightarrow> bridge \<Rightarrow> bridge" where
  "bridge_Store receiptID auth b = b(receiptID \<mapsto> auth)"

definition bridge_Get :: "bytes \<Rightarrow> bridge \<Rightarrow> payment_authorization option" where
  "bridge_Get receiptID b = b receiptID"

definition WrapReceipt :: "receipt \<Rightarrow> payment_authorization option \<Rightarrow> payment_response" where
  "WrapReceipt r auth =
     (case VerifyPaymentAuth auth of
        Inl e \<Rightarrow> \<lparr>pp_Receipt = r, pp_Payment = auth, pp_PaymentVerified = False, pp_PaymentError = err_text e\<rparr>
      | Inr _ \<Rightarrow> \<lparr>pp_Receipt = r, pp_Payment = auth, pp_PaymentVerified = True, pp_PaymentError = []\<rparr>)"

section \<open>The middleware\<close>

text \<open>The authorization travels in the context of the request.\<close>

definition WithPaymentAuth :: "payment_authorization \<Rightarrow> 'c \<times> payment_authorization option \<Rightarrow> 'c \<times> payment_authorization option" where
  "WithPaymentAuth auth ctx = (fst ctx, Some auth)"

definition PaymentAuthFromContext :: "'c \<times> payment_authorization option \<Rightarrow> payment_authorization option" where
  "PaymentAuthFromContext ctx = snd ctx"

definition PaymentMiddleware ::
  "('c \<times> payment_authorization option \<Rightarrow> 's handler) \<Rightarrow> payment_scheme list \<Rightarrow>
   'c \<times> payment_authorization option \<Rightarrow> 's handler" where
  "PaymentMiddleware next_handler schemes ctx r w s =
     (case ExtractPaymentAuth r of
        Inl e \<Rightarrow>
          Some (writeJSON 402 (marshal_required (NewPaymentRequired (get_or_empty (rq_headers r) ''X-Request-Id'') schemes)) w, s)
      | Inr auth \<Rightarrow> next_handler (WithPaymentAuth auth ctx) r w s)"

section \<open>Lemmas\<close>

text \<open>The check accepts exactly the authorizations with every required field and an x402 scheme.\<close>

lemma VerifyPaymentAuth_iff:
  "VerifyPaymentAuth (Some a) = Inr () \<longleftrightarrow>
     has_prefix ''x402/'' (pa_Scheme a) \<and>
     [] \<notin> set [pa_Network a, pa_TxHash a, pa_FromAddress a, pa_Amount a, pa_Recipient a]"
  by (auto simp: VerifyPaymentAuth_def has_prefix_def)

lemma WrapReceipt_verified: "pp_PaymentVerified (WrapReceipt r auth) \<longleftrightarrow> VerifyPaymentAuth auth = Inr ()"
  by (cases "VerifyPaymentAuth auth") (auto simp: WrapReceipt_def)


end
