(* ===== verification/ApiServer.thy ===== *)
theory ApiServer
  imports ModelId Attestation X402 Checkpoint
begin

text \<open>
  \<^verbatim>\<open>internal/api/server.go\<close> and \<^verbatim>\<open>ingest.go\<close>: the server, its construction, and how a request becomes a signed
  receipt. The handlers are functions of the request, the response writer and a state that holds the store,
  the x402 bridge and the number of identifiers and clock readings taken so far.
\<close>

section \<open>The server\<close>

record ('ct, 'rt, 'ky, 'sg, 'vf) api_lib =
  al_sha :: sha_fun
  al_ed :: ed25519
  al_note :: "('sg, 'vf) note_lib"
  al_x509 :: "('ct, 'rt, 'ky) x509_lib"
  al_uuid :: "nat \<Rightarrow> bytes"
  al_now :: "nat \<Rightarrow> gotime"
  al_rand :: "nat \<Rightarrow> bytes"

record 's server =
  sv_store :: "'s store"
  sv_builder :: "builder option"
  sv_operatorPub :: bytes
  sv_operatorPriv :: bytes
  sv_registry :: "bytes \<Rightarrow> provider_adapter res"
  sv_version :: bytes
  sv_logOrigin :: bytes
  sv_logBackend :: bytes
  sv_signerType :: bytes
  sv_rekorURL :: bytes
  sv_x402Recipient :: bytes
  sv_modelReg :: model_registry
  sv_energyEst :: benchmark_table
  sv_carbonLookup :: carbon_table
  sv_inferenceRegion :: bytes

record 's api =
  ap_store :: 's
  ap_bridge :: bridge
  ap_calls :: nat

definition NewWithOrigin ::
  "'s store \<Rightarrow> builder option \<Rightarrow> bytes \<Rightarrow> bytes \<Rightarrow> (bytes \<Rightarrow> provider_adapter res) \<Rightarrow> bytes \<Rightarrow> bytes \<Rightarrow> 's server" where
  "NewWithOrigin st b operatorPub operatorPriv reg version logOrigin =
     \<lparr>sv_store = st, sv_builder = b, sv_operatorPub = operatorPub, sv_operatorPriv = operatorPriv,
      sv_registry = reg, sv_version = (if version = [] then ''dev'' else version),
      sv_logOrigin = (if logOrigin = [] then ''siqlah.dev/log'' else logOrigin), sv_logBackend = [],
      sv_signerType = [], sv_rekorURL = [], sv_x402Recipient = [], sv_modelReg = NewModelRegistry,
      sv_energyEst = NewBenchmarkEstimator, sv_carbonLookup = NewStaticCarbonLookup, sv_inferenceRegion = []\<rparr>"

definition NewServer ::
  "'s store \<Rightarrow> builder option \<Rightarrow> bytes \<Rightarrow> bytes \<Rightarrow> (bytes \<Rightarrow> provider_adapter res) \<Rightarrow> bytes \<Rightarrow> 's server" where
  "NewServer st b operatorPub operatorPriv reg version = NewWithOrigin st b operatorPub operatorPriv reg version []"

definition NewWithOptions ::
  "'s store \<Rightarrow> builder option \<Rightarrow> bytes \<Rightarrow> bytes \<Rightarrow> (bytes \<Rightarrow> provider_adapter res) \<Rightarrow> bytes \<Rightarrow> bytes \<Rightarrow> 's server" where
  "NewWithOptions st b operatorPub operatorPriv reg version inferenceRegion =
     (NewWithOrigin st b operatorPub operatorPriv reg version [])\<lparr>sv_inferenceRegion := inferenceRegion\<rparr>"

definition WithX402Recipient :: "bytes \<Rightarrow> 's server \<Rightarrow> 's server" where
  "WithX402Recipient addr sv = sv\<lparr>sv_x402Recipient := addr\<rparr>"

definition WithRekorURL :: "bytes \<Rightarrow> 's server \<Rightarrow> 's server" where
  "WithRekorURL url sv = sv\<lparr>sv_rekorURL := url\<rparr>"

definition WithBackendInfo :: "bytes \<Rightarrow> bytes \<Rightarrow> 's server \<Rightarrow> 's server" where
  "WithBackendInfo logBackend signerType sv = sv\<lparr>sv_logBackend := logBackend, sv_signerType := signerType\<rparr>"

section \<open>Steps of a handler\<close>

definition fail :: "int \<Rightarrow> bytes \<Rightarrow> writer \<Rightarrow> 's \<Rightarrow> 's reply" where
  "fail st msg w a = Some (writeError st msg w, a)"

definition send :: "int \<Rightarrow> jval res \<Rightarrow> writer \<Rightarrow> 's \<Rightarrow> 's reply" where
  "send st v w a = Some (writeJSON st v w, a)"

text \<open>A value or an error, a call of the store: an error ends the handler with a status and the text of the error.\<close>

definition check :: "'a res \<Rightarrow> int \<Rightarrow> writer \<Rightarrow> 's \<Rightarrow> ('a \<Rightarrow> 's reply) \<Rightarrow> 's reply" where
  "check x st w a k = (case x of Inl e \<Rightarrow> fail st (err_text e) w a | Inr v \<Rightarrow> k v)"

definition on_store :: "('s, 'a) op \<Rightarrow> ('s api, 'a) op" where
  "on_store p a = (case p (ap_store a) of (r, s) \<Rightarrow> (r, a\<lparr>ap_store := s\<rparr>))"

definition call :: "('s, 'a) op \<Rightarrow> int \<Rightarrow> writer \<Rightarrow> 's api \<Rightarrow> ('a \<Rightarrow> 's api \<Rightarrow> 's api reply) \<Rightarrow> 's api reply" where
  "call p st w a k = (case on_store p a of (r, a') \<Rightarrow> check r st w a' (\<lambda>v. k v a'))"

section \<open>Ingest requests\<close>

record ingest_request =
  ir_Provider :: bytes
  ir_Tenant :: bytes
  ir_Model :: bytes
  ir_ResponseBody :: bytes
  ir_RequestBody :: bytes
  ir_RequestID :: bytes
  ir_ModelSignatureBundle :: bytes

definition zero_ingest :: ingest_request where
  "zero_ingest = \<lparr>ir_Provider = [], ir_Tenant = [], ir_Model = [], ir_ResponseBody = [], ir_RequestBody = [],
     ir_RequestID = [], ir_ModelSignatureBundle = []\<rparr>"

definition plain :: "(jval \<Rightarrow> 'r \<Rightarrow> 'r res) \<Rightarrow> bytes \<Rightarrow> jval \<Rightarrow> 'r \<Rightarrow> 'r res" where
  "plain d raw v r = d v r"

text \<open>A \<^verbatim>\<open>json.RawMessage\<close> takes the text of any value, \<^verbatim>\<open>null\<close> too.\<close>

definition ingest_fields :: "ingest_request raw_fields" where
  "ingest_fields =
     [(''provider'', plain (fld dec_str (\<lambda>x r. r\<lparr>ir_Provider := x\<rparr>))),
      (''tenant'', plain (fld dec_str (\<lambda>x r. r\<lparr>ir_Tenant := x\<rparr>))),
      (''model'', plain (fld dec_str (\<lambda>x r. r\<lparr>ir_Model := x\<rparr>))),
      (''response_body'', (\<lambda>raw _ r. Inr (r\<lparr>ir_ResponseBody := raw\<rparr>))),
      (''request_body'', (\<lambda>raw _ r. Inr (r\<lparr>ir_RequestBody := raw\<rparr>))),
      (''request_id'', plain (fld dec_str (\<lambda>x r. r\<lparr>ir_RequestID := x\<rparr>))),
      (''model_signature_bundle'', plain (fld dec_str (\<lambda>x r. r\<lparr>ir_ModelSignatureBundle := x\<rparr>)))]"

definition decode_ingest :: "bytes \<Rightarrow> ingest_request res" where
  "decode_ingest raw = dec_raw_object ingest_fields zero_ingest raw"

text \<open>The items of a batch, each decoded over the one an earlier \<^verbatim>\<open>items\<close> member left in its place.\<close>

fun decode_items :: "ingest_request list \<Rightarrow> bytes list \<Rightarrow> ingest_request list res" where
  "decode_items old [] = Inr []"
| "decode_items old (raw # raws) =
     and_then (dec_raw_object ingest_fields (case old of [] \<Rightarrow> zero_ingest | x # _ \<Rightarrow> x) raw) (\<lambda>y.
     and_then (decode_items (drop 1 old) raws) (\<lambda>ys. Inr (y # ys)))"

definition batch_fields :: "ingest_request list raw_fields" where
  "batch_fields = [(''items'', (\<lambda>raw _ old. and_then (dec_raw_list Inr raw) (decode_items old)))]"

definition decode_batch :: "bytes \<Rightarrow> ingest_request list res" where
  "decode_batch raw = dec_raw_object batch_fields [] raw"

definition validateIngestRequest :: "ingest_request \<Rightarrow> unit res" where
  "validateIngestRequest req =
     (if ir_Provider req = [] then Inl (Err ''provider is required'')
      else if ir_Model req = [] then Inl (Err ''model is required'')
      else if ir_ResponseBody req = [] then Inl (Err ''response_body is required'')
      else Inr ())"

definition hashBytes :: "sha_fun \<Rightarrow> bytes \<Rightarrow> bytes" where
  "hashBytes sha b = (if b = [] then [] else hex_encode (h32 sha b))"

section \<open>Building a receipt\<close>

definition populateModelIdentity ::
  "('ct, 'rt, 'ky) x509_lib \<Rightarrow> model_registry \<Rightarrow> receipt \<Rightarrow> bytes \<Rightarrow> receipt" where
  "populateModelIdentity xl reg r bundleJSON =
     (if bundleJSON \<noteq> [] then
        (case VerifyModelIdentity xl (ParseBundleFromPEM xl bundleJSON) (r_Model r)
                \<lparr>vo_TrustRoots = None, vo_SkipTlogVerification = False\<rparr> of
           Inl e \<Rightarrow> r
         | Inr i \<Rightarrow>
             (let r1 = r\<lparr>r_ModelSignerIdentity := mi_SignerIdentity i, r_ModelSignatureVerified := mi_Verified i\<rparr>
              in if mi_ModelDigest i \<noteq> [] \<and> r_ModelDigest r1 = [] then r1\<lparr>r_ModelDigest := mi_ModelDigest i\<rparr> else r1))
      else
        (case Lookup (r_Model r) reg of
           Inl e \<Rightarrow> r
         | Inr None \<Rightarrow> r
         | Inr (Some i) \<Rightarrow>
             r\<lparr>r_ModelSignerIdentity := mi_SignerIdentity i, r_ModelSignatureVerified := mi_Verified i\<rparr>))"

definition populateEnergyFields :: "benchmark_table \<Rightarrow> carbon_table \<Rightarrow> bytes \<Rightarrow> receipt \<Rightarrow> receipt" where
  "populateEnergyFields est carbon region r =
     (case Estimate est (r_Model r) (r_InputTokens r) (r_OutputTokens r) of
        Inl e \<Rightarrow> r\<lparr>r_EnergySource := SourceNone\<rparr>
      | Inr x \<Rightarrow>
          if ee_Source x = SourceNone then r\<lparr>r_EnergySource := SourceNone\<rparr>
          else
            (let r1 = r\<lparr>r_EnergyEstimateJoules := ee_Joules x, r_EnergySource := ee_Source x\<rparr>
             in if region = [] then r1
                else case Intensity carbon region of
                    Inl e \<Rightarrow> r1
                  | Inr g \<Rightarrow> r1\<lparr>r_CarbonIntensityGCO2ePerKWh := g, r_InferenceRegion := region\<rparr>))"

text \<open>The receipt before its identity and energy fields, and the whole: \<open>n\<close> counts the identifiers taken.\<close>

definition fresh_receipt ::
  "('ct, 'rt, 'ky, 'sg, 'vf) api_lib \<Rightarrow> 's server \<Rightarrow> nat \<Rightarrow> ingest_request \<Rightarrow> provider_usage \<Rightarrow> receipt" where
  "fresh_receipt al sv n req usage =
     zero_receipt\<lparr>r_ID := al_uuid al n, r_Version := ''1.1.0'', r_Tenant := ir_Tenant req,
       r_Provider := ir_Provider req, r_Model := ir_Model req, r_InputTokens := u_InputTokens usage,
       r_OutputTokens := u_OutputTokens usage, r_ReasoningTokens := u_ReasoningTokens usage,
       r_RequestHash := hashBytes (al_sha al) (ir_RequestBody req),
       r_ResponseHash := hashBytes (al_sha al) (ir_ResponseBody req),
       r_RequestID := (if ir_RequestID req = [] then u_RequestID usage else ir_RequestID req),
       r_Timestamp := utc (al_now al n), r_SignerIdentity := hex_encode (sv_operatorPub sv)\<rparr>"

definition buildReceipt ::
  "('ct, 'rt, 'ky, 'sg, 'vf) api_lib \<Rightarrow> 's server \<Rightarrow> nat \<Rightarrow> ingest_request \<Rightarrow> receipt res" where
  "buildReceipt al sv n req =
     and_then (sv_registry sv (ir_Provider req)) (\<lambda>adapter.
     and_then (pa_ParseUsage adapter (ir_ResponseBody req)) (\<lambda>usage.
     let r0 = fresh_receipt al sv n req usage;
         r1 = populateModelIdentity (al_x509 al) (sv_modelReg sv) r0 (ir_ModelSignatureBundle req);
         r2 = populateEnergyFields (sv_energyEst sv) (sv_carbonLookup sv) (sv_inferenceRegion sv) r1
     in (case SignReceipt (al_ed al) r2 (sv_operatorPriv sv) of (r3, e) \<Rightarrow>
         and_then e (\<lambda>_. Inr (r3\<lparr>r_Verified := True\<rparr>)))))"

text \<open>The receipt takes the next identifier and the next reading of the clock.\<close>

definition next_receipt ::
  "('ct, 'rt, 'ky, 'sg, 'vf) api_lib \<Rightarrow> 's server \<Rightarrow> ingest_request \<Rightarrow> ('s api, receipt) op" where
  "next_receipt al sv req a = (buildReceipt al sv (ap_calls a) req, a\<lparr>ap_calls := ap_calls a + 1\<rparr>)"

definition marshal_receipt_value :: "receipt \<Rightarrow> jval res" where
  "marshal_receipt_value r = jobj (receipt_members r)"

section \<open>The ingest handlers\<close>

definition handleIngest ::
  "('ct, 'rt, 'ky, 'sg, 'vf) api_lib \<Rightarrow> 's server \<Rightarrow> 's api handler" where
  "handleIngest al sv r w a =
     (case decode_limited (2 ^ 20) decode_ingest (rq_body r) of
        TooLarge \<Rightarrow> fail 413 ''request body exceeds 1 MiB limit'' w a
      | Decoded x \<Rightarrow>
          check (wrap_err ''invalid JSON'' x) 400 w a (\<lambda>req.
          check (validateIngestRequest req) 400 w a (\<lambda>_.
          (case next_receipt al sv req a of (b, a) \<Rightarrow>
           check b 400 w a (\<lambda>receipt.
           call (wrap_op ''store receipt'' (S_AppendReceipt (sv_store sv) receipt)) 500 w a (\<lambda>_ a.
           send 201 (marshal_receipt_value receipt) w a))))))"

text \<open>The loop over the items stops at the first that fails; nothing is stored before it has passed them all.\<close>

fun build_items ::
  "('ct, 'rt, 'ky, 'sg, 'vf) api_lib \<Rightarrow> 's server \<Rightarrow> ingest_request list \<Rightarrow> ('s api, receipt list) op" where
  "build_items al sv [] = ret_op []"
| "build_items al sv (item # items) =
     bind_op (wrap_op ''item error'' (lift_op (validateIngestRequest item))) (\<lambda>_.
     bind_op (wrap_op ''item error'' (next_receipt al sv item)) (\<lambda>r.
     bind_op (build_items al sv items) (\<lambda>rs. ret_op (r # rs))))"

definition maxBatchItems :: nat where
  "maxBatchItems = 500"

definition handleIngestBatch ::
  "('ct, 'rt, 'ky, 'sg, 'vf) api_lib \<Rightarrow> 's server \<Rightarrow> 's api handler" where
  "handleIngestBatch al sv r w a =
     (case decode_limited (10 * 2 ^ 20) decode_batch (rq_body r) of
        TooLarge \<Rightarrow> fail 413 ''request body exceeds 10 MiB limit'' w a
      | Decoded x \<Rightarrow>
          check (wrap_err ''invalid JSON'' x) 400 w a (\<lambda>items.
          if items = [] then fail 400 ''items must not be empty'' w a
          else if length items > maxBatchItems
          then fail 400 (''batch exceeds maximum of '' @ itoa (int maxBatchItems) @ '' items'') w a
          else
            (case build_items al sv items a of (b, a) \<Rightarrow>
             check b 400 w a (\<lambda>receipts.
             call (wrap_op ''store receipts'' (S_AppendReceiptsBatch (sv_store sv) receipts)) 500 w a (\<lambda>_ a.
             send 201 (jobj [m_int ''count'' (int (length receipts)),
                             m_val ''receipts'' (jarr (map marshal_receipt_value receipts))]) w a)))))"

section \<open>Reading receipts\<close>

definition query_param :: "http_request \<Rightarrow> bytes \<Rightarrow> bytes" where
  "query_param r k = get_or_empty (rq_query r) k"

definition positive_int :: "bytes \<Rightarrow> int option" where
  "positive_int s = (case parse_int s of None \<Rightarrow> None | Some n \<Rightarrow> if n \<le> 0 then None else Some n)"

definition page :: "http_request \<Rightarrow> int \<times> int" where
  "page r =
     (let offset = atoi_or_zero (query_param r ''offset'');
          limit = atoi_or_zero (query_param r ''limit'');
          limit = (if limit \<le> 0 then 50 else limit);
          limit = (if limit > 500 then 500 else limit);
          offset = (if offset < 0 then 0 else offset)
      in (offset, limit))"

definition handleListReceipts :: "'s server \<Rightarrow> 's api handler" where
  "handleListReceipts sv r w a =
     (if query_param r ''batch_start'' \<noteq> [] then
        (case positive_int (query_param r ''batch_start'') of
           None \<Rightarrow> fail 400 ''batch_start must be a positive integer'' w a
         | Some batchStart \<Rightarrow>
             (case positive_int (query_param r ''batch_end'') of
                None \<Rightarrow> fail 400 ''batch_end must be a positive integer'' w a
              | Some batchEnd \<Rightarrow>
                  if batchStart > batchEnd then fail 400 ''batch_start must not exceed batch_end'' w a
                  else call (wrap_op ''fetch receipts'' (S_GetReceiptsByRange (sv_store sv) batchStart batchEnd)) 500 w a
                         (\<lambda>receipts a.
                          send 200 (jobj [m_val ''receipts'' (jslice (map marshal_receipt_value receipts))]) w a)))
      else
        (case page r of (offset, limit) \<Rightarrow>
         call (wrap_op ''list receipts'' (S_ListReceipts (sv_store sv) offset limit)) 500 w a (\<lambda>stored a.
         send 200 (jobj [m_val ''receipts'' (jarr (map (\<lambda>sr. marshal_receipt_value (sr_Receipt sr)) stored)),
                         m_int ''offset'' offset, m_int ''limit'' limit, m_int ''count'' (int (length stored))]) w a)))"

text \<open>The receipt a path names, or the answer that it is missing.\<close>

definition with_receipt ::
  "'s server \<Rightarrow> http_request \<Rightarrow> writer \<Rightarrow> 's api \<Rightarrow> (stored_receipt \<Rightarrow> 's api \<Rightarrow> 's api reply) \<Rightarrow> 's api reply" where
  "with_receipt sv r w a k =
     call (wrap_op ''fetch receipt'' (S_GetReceiptByID (sv_store sv) (get_or_empty (rq_values r) ''id''))) 500 w a
       (\<lambda>sr a. case sr of None \<Rightarrow> fail 404 ''receipt not found'' w a | Some x \<Rightarrow> k x a)"

definition handleGetReceipt :: "'s server \<Rightarrow> 's api handler" where
  "handleGetReceipt sv r w a =
     with_receipt sv r w a (\<lambda>sr a. send 200 (marshal_receipt_value (sr_Receipt sr)) w a)"

end
