(* ===== verification/ApiHandlers.thy ===== *)
theory ApiHandlers
  imports ApiServer
begin

text \<open>
  \<^verbatim>\<open>internal/api\<close>: the handlers for checkpoints, proofs, witnesses, statistics, attestations and payments.
\<close>

section \<open>Checkpoints\<close>

text \<open>\<^verbatim>\<open>store.Checkpoint\<close> has no struct tags: the names are those of its fields.\<close>

definition marshal_checkpoint :: "store_checkpoint \<Rightarrow> jval res" where
  "marshal_checkpoint c = jobj
     [m_int ''ID'' (cp_ID c), m_int ''BatchStart'' (cp_BatchStart c), m_int ''BatchEnd'' (cp_BatchEnd c),
      m_int ''TreeSize'' (cp_TreeSize c), m_str ''RootHex'' (cp_RootHex c),
      m_str ''PreviousRootHex'' (cp_PreviousRootHex c), m_time ''IssuedAt'' (cp_IssuedAt c),
      m_str ''OperatorSigHex'' (cp_OperatorSigHex c), m_int ''RekorLogIndex'' (cp_RekorLogIndex c)]"

definition parseID :: "http_request \<Rightarrow> bytes \<Rightarrow> int res" where
  "parseID r name =
     (case positive_int (get_or_empty (rq_values r) name) of
        None \<Rightarrow> Inl (Err (name @ '' must be a positive integer''))
      | Some n \<Rightarrow> Inr n)"

text \<open>A \<^verbatim>\<open>nil\<close> builder panics; a build that does not return does not answer.\<close>

definition handleBuildCheckpoint ::
  "('ct, 'rt, 'ky, 'sg, 'vf) api_lib \<Rightarrow> 's server \<Rightarrow> 's api handler" where
  "handleBuildCheckpoint al sv r w a =
     Option.bind (sv_builder sv) (\<lambda>b.
     Option.bind (BuildAndSign (sv_store sv) (al_sha al) (al_ed al) (al_now al (ap_calls a)) b (ap_store a)) (\<lambda>(x, s).
     let a = a\<lparr>ap_store := s, ap_calls := ap_calls a + 1\<rparr>
     in check (wrap_err ''build checkpoint'' x) 500 w a (\<lambda>cp.
        (case cp of
           None \<Rightarrow> send 200 (jobj [m_str ''message'' ''no unbatched receipts'']) w a
         | Some c \<Rightarrow> send 201 (marshal_checkpoint c) w a))))"

definition handleListCheckpoints :: "'s server \<Rightarrow> 's api handler" where
  "handleListCheckpoints sv r w a =
     (let offset = atoi_or_zero (query_param r ''offset'');
          limit = atoi_or_zero (query_param r ''limit'');
          limit = (if limit \<le> 0 \<or> limit > 100 then 20 else limit)
      in call (wrap_op ''list checkpoints'' (S_ListCheckpoints (sv_store sv) offset limit)) 500 w a (\<lambda>cps a.
         send 200 (jobj [m_val ''checkpoints'' (jslice (map marshal_checkpoint cps)),
                         m_int ''limit'' limit, m_int ''offset'' offset]) w a))"

definition with_checkpoint ::
  "'s server \<Rightarrow> http_request \<Rightarrow> writer \<Rightarrow> 's api \<Rightarrow> (store_checkpoint \<Rightarrow> 's api \<Rightarrow> 's api reply) \<Rightarrow> 's api reply" where
  "with_checkpoint sv r w a k =
     check (parseID r ''id'') 400 w a (\<lambda>n.
     call (wrap_op ''get checkpoint'' (S_GetCheckpoint (sv_store sv) n)) 500 w a (\<lambda>cp a.
     case cp of None \<Rightarrow> fail 404 ''checkpoint not found'' w a | Some c \<Rightarrow> k c a))"

text \<open>The operator's signed note over a stored checkpoint, with the words the three handlers use for its errors.\<close>

definition uint64_of :: "int \<Rightarrow> nat" where
  "uint64_of i = nat (i mod 2 ^ 64)"

definition operator_note ::
  "('ct, 'rt, 'ky, 'sg, 'vf) api_lib \<Rightarrow> 's server \<Rightarrow> bytes \<Rightarrow> bytes \<Rightarrow> store_checkpoint \<Rightarrow> (bytes \<times> bytes) res" where
  "operator_note al sv no_root no_signer cp =
     and_then (wrap_err no_root (or_fail (Foreign ''encoding/hex'') (hex_decode (cp_RootHex cp)))) (\<lambda>rootBytes.
     let body = FormatCheckpoint (sv_logOrigin sv) (uint64_of (cp_TreeSize cp)) rootBytes
     in and_then (wrap_err no_signer
                   (NewNoteSigner (al_note al) (al_sha al) (al_ed al) (sv_logOrigin sv) (sv_operatorPriv sv))) (\<lambda>signer.
        and_then (wrap_err ''sign checkpoint'' (SignCheckpoint (al_note al) body signer)) (\<lambda>signed.
        Inr (rootBytes, signed))))"

definition send_text :: "bytes \<Rightarrow> writer \<Rightarrow> 's \<Rightarrow> 's reply" where
  "send_text b w a = Some (write_body b (set_header ''Content-Type'' ''text/plain; charset=utf-8'' w), a)"

definition handleGetCheckpoint ::
  "('ct, 'rt, 'ky, 'sg, 'vf) api_lib \<Rightarrow> 's server \<Rightarrow> 's api handler" where
  "handleGetCheckpoint al sv r w a =
     with_checkpoint sv r w a (\<lambda>cp a.
     if str_contains ''text/plain'' (get_or_empty (rq_headers r) ''Accept'')
     then check (operator_note al sv ''decode root'' ''create signer'' cp) 500 w a (\<lambda>(_, signed). send_text signed w a)
     else send 200 (marshal_checkpoint cp) w a)"

record verify_response =
  vr_OperatorValid :: bool
  vr_OperatorError :: bytes
  vr_Witnesses :: "(bytes \<times> bytes) list"
  vr_RekorAnchored :: bool
  vr_RekorLogIndex :: int
  vr_RekorEntryURL :: bytes

definition marshal_verify_response :: "verify_response \<Rightarrow> jval res" where
  "marshal_verify_response v = jobj
     [m_bool ''operator_valid'' (vr_OperatorValid v), m_str_opt ''operator_error'' (vr_OperatorError v),
      m_val ''witnesses'' (Inr (jmap (vr_Witnesses v))), m_bool ''rekor_anchored'' (vr_RekorAnchored v),
      m_int_opt ''rekor_log_index'' (vr_RekorLogIndex v), m_str_opt ''rekor_entry_url'' (vr_RekorEntryURL v)]"

definition verify_checkpoint_response ::
  "ed25519 \<Rightarrow> 's server \<Rightarrow> store_checkpoint \<Rightarrow> (bytes \<times> bytes) list \<Rightarrow> verify_response" where
  "verify_checkpoint_response c sv cp ws =
     (let v = (case VerifyOperatorSignature c cp (sv_operatorPub sv) of
                 Inl e \<Rightarrow> \<lparr>vr_OperatorValid = False, vr_OperatorError = err_text e, vr_Witnesses = ws,
                          vr_RekorAnchored = False, vr_RekorLogIndex = 0, vr_RekorEntryURL = []\<rparr>
               | Inr _ \<Rightarrow> \<lparr>vr_OperatorValid = True, vr_OperatorError = [], vr_Witnesses = ws,
                          vr_RekorAnchored = False, vr_RekorLogIndex = 0, vr_RekorEntryURL = []\<rparr>);
          rekorBase = (if sv_rekorURL sv = [] then ''https://rekor.sigstore.dev'' else sv_rekorURL sv)
      in if cp_RekorLogIndex cp \<ge> 0
         then v\<lparr>vr_RekorAnchored := True, vr_RekorLogIndex := cp_RekorLogIndex cp,
                vr_RekorEntryURL := rekorBase @ ''/api/v1/log/entries?logIndex='' @ itoa (cp_RekorLogIndex cp)\<rparr>
         else v)"

definition handleVerifyCheckpoint ::
  "('ct, 'rt, 'ky, 'sg, 'vf) api_lib \<Rightarrow> 's server \<Rightarrow> 's api handler" where
  "handleVerifyCheckpoint al sv r w a =
     check (parseID r ''id'') 400 w a (\<lambda>n.
     with_checkpoint sv r w a (\<lambda>cp a.
     call (wrap_op ''fetch witnesses'' (S_WitnessSignatures (sv_store sv) n)) 500 w a (\<lambda>ws a.
     send 200 (marshal_verify_response (verify_checkpoint_response (al_ed al) sv cp ws)) w a)))"

record witness_request =
  wq_WitnessID :: bytes
  wq_SigHex :: bytes

definition witness_request_fields :: "witness_request fields" where
  "witness_request_fields =
     [(''witness_id'', fld dec_str (\<lambda>x q. q\<lparr>wq_WitnessID := x\<rparr>)),
      (''sig_hex'', fld dec_str (\<lambda>x q. q\<lparr>wq_SigHex := x\<rparr>))]"

definition handleWitnessSubmit :: "'s server \<Rightarrow> 's api handler" where
  "handleWitnessSubmit sv r w a =
     check (parseID r ''id'') 400 w a (\<lambda>n.
     with_checkpoint sv r w a (\<lambda>cp a.
     check (wrap_err ''invalid JSON''
              (decode_stream (dec_object witness_request_fields \<lparr>wq_WitnessID = [], wq_SigHex = []\<rparr>) (rq_body r)))
       400 w a (\<lambda>q.
     if wq_WitnessID q = [] \<or> wq_SigHex q = [] then fail 400 ''witness_id and sig_hex are required'' w a
     else call (wrap_op ''store witness sig'' (S_AddWitnessSignature (sv_store sv) n (wq_WitnessID q) (wq_SigHex q)))
            500 w a (\<lambda>_ a. send 201 (jobj [m_str ''status'' ''accepted'']) w a))))"

section \<open>Proofs\<close>

record inclusion_response =
  ipr_ReceiptID :: bytes
  ipr_CheckpointID :: int
  ipr_LeafIndex :: int
  ipr_TreeSize :: int
  ipr_RootHex :: bytes
  ipr_Proof :: "bytes list"

definition jstrings :: "bytes list \<Rightarrow> jval res" where
  "jstrings xs = Inr (JArr (map jstr xs))"

definition marshal_inclusion :: "inclusion_response \<Rightarrow> jval res" where
  "marshal_inclusion p = jobj
     [m_str ''receipt_id'' (ipr_ReceiptID p), m_int ''checkpoint_id'' (ipr_CheckpointID p),
      m_int ''leaf_index'' (ipr_LeafIndex p), m_int ''tree_size'' (ipr_TreeSize p),
      m_str ''root_hex'' (ipr_RootHex p), m_val ''proof'' (jstrings (ipr_Proof p))]"

record consistency_response =
  cpr_OldCheckpointID :: int
  cpr_NewCheckpointID :: int
  cpr_OldSize :: int
  cpr_NewSize :: int
  cpr_OldRootHex :: bytes
  cpr_NewRootHex :: bytes
  cpr_Proof :: "bytes list"

definition marshal_consistency :: "consistency_response \<Rightarrow> jval res" where
  "marshal_consistency p = jobj
     [m_int ''old_checkpoint_id'' (cpr_OldCheckpointID p), m_int ''new_checkpoint_id'' (cpr_NewCheckpointID p),
      m_int ''old_size'' (cpr_OldSize p), m_int ''new_size'' (cpr_NewSize p),
      m_str ''old_root_hex'' (cpr_OldRootHex p), m_str ''new_root_hex'' (cpr_NewRootHex p),
      m_val ''proof'' (jstrings (cpr_Proof p))]"

definition leafFromReceipt :: "sha_fun \<Rightarrow> receipt \<Rightarrow> bytes res" where
  "leafFromReceipt sha r =
     and_then (wrap_err (''canonical bytes for receipt '' @ r_ID r) (CanonicalBytes r)) (\<lambda>cb. Inr (HashLeaf sha cb))"

definition leavesFromReceipts :: "sha_fun \<Rightarrow> receipt list \<Rightarrow> bytes list res" where
  "leavesFromReceipts sha rs = map_res (leafFromReceipt sha) rs"

text \<open>The last receipt with the identifier.\<close>

fun last_index :: "bytes \<Rightarrow> receipt list \<Rightarrow> int \<Rightarrow> int \<Rightarrow> int" where
  "last_index targetID [] i index = index"
| "last_index targetID (r # rs) i index = last_index targetID rs (i + 1) (if r_ID r = targetID then i else index)"

definition buildLeavesAndIndex :: "sha_fun \<Rightarrow> receipt list \<Rightarrow> bytes \<Rightarrow> (bytes list \<times> int) res" where
  "buildLeavesAndIndex sha rs targetID =
     and_then (leavesFromReceipts sha rs) (\<lambda>leaves.
     let index = last_index targetID rs 0 (- 1)
     in if index < 0 then Inl (Err (''receipt '' @ targetID @ '' not found in checkpoint range''))
        else Inr (leaves, index))"

definition hexSlice :: "bytes list \<Rightarrow> bytes list" where
  "hexSlice hs = map FormatRoot hs"

definition findCheckpointForRow :: "'s store \<Rightarrow> int \<Rightarrow> ('s, store_checkpoint option) op" where
  "findCheckpointForRow S rowID = S_GetCheckpointForRow S rowID"

text \<open>The handler from the point where it has the checkpoint \<open>c\<close> of the receipt \<open>n\<close>.\<close>

definition prove_in ::
  "('ct, 'rt, 'ky, 'sg, 'vf) api_lib \<Rightarrow> 's server \<Rightarrow> bytes \<Rightarrow> writer \<Rightarrow> store_checkpoint \<Rightarrow> 's api \<Rightarrow> 's api reply" where
  "prove_in al sv n w c a =
     call (wrap_op ''fetch receipts'' (S_GetReceiptsByRange (sv_store sv) (cp_BatchStart c) (cp_BatchEnd c)))
       500 w a (\<lambda>rs a.
     check (wrap_err ''build leaves'' (buildLeavesAndIndex (al_sha al) rs n)) 500 w a (\<lambda>(leaves, index).
     Option.bind (InclusionProof (al_sha al) leaves index) (\<lambda>p.
     check (wrap_err ''inclusion proof'' p) 500 w a (\<lambda>path.
     send 200 (marshal_inclusion
       \<lparr>ipr_ReceiptID = n, ipr_CheckpointID = cp_ID c, ipr_LeafIndex = index, ipr_TreeSize = cp_TreeSize c,
        ipr_RootHex = cp_RootHex c, ipr_Proof = hexSlice path\<rparr>) w a))))"

definition handleInclusionProof ::
  "('ct, 'rt, 'ky, 'sg, 'vf) api_lib \<Rightarrow> 's server \<Rightarrow> 's api handler" where
  "handleInclusionProof al sv r w a =
     (let n = get_or_empty (rq_values r) ''id''
      in with_receipt sv r w a (\<lambda>sr a.
         call (wrap_op ''find checkpoint'' (findCheckpointForRow (sv_store sv) (sr_RowID sr))) 500 w a (\<lambda>cp a.
         case cp of
           None \<Rightarrow> fail 404 ''receipt has not been batched into a checkpoint yet'' w a
         | Some c \<Rightarrow> prove_in al sv n w c a)))"

text \<open>An error of \<^verbatim>\<open>GetCheckpoint\<close> counts as a missing checkpoint.\<close>

definition checkpoint_or_404 ::
  "'s server \<Rightarrow> bytes \<Rightarrow> int \<Rightarrow> writer \<Rightarrow> 's api \<Rightarrow> (store_checkpoint \<Rightarrow> 's api \<Rightarrow> 's api reply) \<Rightarrow> 's api reply" where
  "checkpoint_or_404 sv msg n w a k =
     (case on_store (S_GetCheckpoint (sv_store sv) n) a of
        (Inr (Some c), a) \<Rightarrow> k c a
      | (_, a) \<Rightarrow> fail 404 msg w a)"

definition handleConsistencyProof ::
  "('ct, 'rt, 'ky, 'sg, 'vf) api_lib \<Rightarrow> 's server \<Rightarrow> 's api handler" where
  "handleConsistencyProof al sv r w a =
     check (parseID r ''id'') 400 w a (\<lambda>newID.
     check (parseID r ''old_id'') 400 w a (\<lambda>oldID.
     checkpoint_or_404 sv ''new checkpoint not found'' newID w a (\<lambda>newCP a.
     checkpoint_or_404 sv ''old checkpoint not found'' oldID w a (\<lambda>oldCP a.
     call (wrap_op ''fetch old receipts'' (S_GetReceiptsByRange (sv_store sv) 1 (cp_BatchEnd oldCP))) 500 w a (\<lambda>oldReceipts a.
     call (wrap_op ''fetch new receipts'' (S_GetReceiptsByRange (sv_store sv) 1 (cp_BatchEnd newCP))) 500 w a (\<lambda>newReceipts a.
     let oldSize = int (length oldReceipts); newSize = int (length newReceipts)
     in if oldSize \<ge> newSize
        then fail 400 (''old checkpoint has '' @ itoa oldSize @ '' cumulative receipts, new has '' @ itoa newSize @
                       '' '' @ sig_mark @ ''old must be strictly smaller'') w a
        else
          check (wrap_err ''build leaves'' (leavesFromReceipts (al_sha al) newReceipts)) 500 w a (\<lambda>leaves.
          Option.bind (ConsistencyProof (al_sha al) oldSize newSize leaves) (\<lambda>p.
          check (wrap_err ''consistency proof'' p) 500 w a (\<lambda>pf.
          let oldLeaves = (case leavesFromReceipts (al_sha al) oldReceipts of Inl _ \<Rightarrow> [] | Inr ls \<Rightarrow> ls)
          in Option.bind (BuildRoot (al_sha al) oldLeaves) (\<lambda>oldRoot.
             Option.bind (BuildRoot (al_sha al) leaves) (\<lambda>newRoot.
             send 200 (marshal_consistency
               \<lparr>cpr_OldCheckpointID = oldID, cpr_NewCheckpointID = newID, cpr_OldSize = oldSize, cpr_NewSize = newSize,
                cpr_OldRootHex = FormatRoot oldRoot, cpr_NewRootHex = FormatRoot newRoot,
                cpr_Proof = hexSlice pf\<rparr>) w a)))))))))))"

definition handleLogCheckpoint :: "'s server \<Rightarrow> 's api handler" where
  "handleLogCheckpoint sv r w a =
     call (wrap_op ''Tessera log not available'' (S_GetLogCheckpoint (sv_store sv))) 503 w a (\<lambda>lcp a.
     if get_or_empty (rq_headers r) ''Accept'' = ''application/json''
     then send 200 (jobj [m_str ''root_hex'' (lc_RootHex lcp), m_int ''tree_size'' (lc_TreeSize lcp)]) w a
     else Some (write_body (lc_RawNote lcp)
                  (write_header 200 (set_header ''Content-Type'' ''text/plain; charset=utf-8'' w)), a))"

section \<open>Witnesses\<close>

definition with_latest ::
  "'s server \<Rightarrow> writer \<Rightarrow> 's api \<Rightarrow> (store_checkpoint \<Rightarrow> 's api \<Rightarrow> 's api reply) \<Rightarrow> 's api reply" where
  "with_latest sv w a k =
     call (wrap_op ''fetch latest checkpoint'' (S_LatestCheckpoint (sv_store sv))) 500 w a (\<lambda>cp a.
     case cp of None \<Rightarrow> fail 404 ''no checkpoints yet'' w a | Some c \<Rightarrow> k c a)"

definition handleC2SPCheckpoint ::
  "('ct, 'rt, 'ky, 'sg, 'vf) api_lib \<Rightarrow> 's server \<Rightarrow> 's api handler" where
  "handleC2SPCheckpoint al sv r w a =
     with_latest sv w a (\<lambda>cp a.
     check (operator_note al sv ''decode root hex'' ''create note signer'' cp) 500 w a (\<lambda>(_, signed). send_text signed w a))"

text \<open>One \<^verbatim>\<open>Read\<close> of at most 64 KiB; the error of the store is only logged.\<close>

definition handleC2SPCosign ::
  "('ct, 'rt, 'ky, 'sg, 'vf) api_lib \<Rightarrow> 's server \<Rightarrow> 's api handler" where
  "handleC2SPCosign al sv r w a =
     (if get_or_empty (rq_headers r) ''Content-Type'' \<noteq> ''text/plain'' \<and>
         get_or_empty (rq_headers r) ''Content-Type'' \<noteq> ''text/plain; charset=utf-8''
      then fail 415 ''Content-Type must be text/plain'' w a
      else
        (case rq_read r (2 ^ 16) of (raw, failed) \<Rightarrow>
         if failed \<and> raw = [] then fail 400 ''empty body'' w a
         else
           check (wrap_err ''parse checkpoint'' (ParseCheckpoint raw)) 400 w a (\<lambda>cp.
           check (wrap_err ''create operator verifier''
                    (NewNoteVerifier (al_note al) (sv_logOrigin sv) (sv_operatorPub sv))) 500 w a (\<lambda>v.
           check (wrap_err ''operator signature invalid'' (OpenCheckpoint (al_note al) raw [v])) 400 w a (\<lambda>_.
           (case on_store (S_StoreCosignature (sv_store sv) (hex_encode (c2_RootHash cp)) raw) a of (_, a) \<Rightarrow>
            Some (write_body (jtext (JObj [(''status'', jstr ''accepted'')]))
                    (write_header 202 (set_header ''Content-Type'' ''application/json'' w)), a)))))))"

definition handleC2SPCosignedCheckpoint ::
  "('ct, 'rt, 'ky, 'sg, 'vf) api_lib \<Rightarrow> 's server \<Rightarrow> 's api handler" where
  "handleC2SPCosignedCheckpoint al sv r w a =
     with_latest sv w a (\<lambda>cp a.
     check (operator_note al sv ''decode root hex'' ''create note signer'' cp) 500 w a (\<lambda>(rootBytes, signed).
     call (wrap_op ''fetch cosignatures'' (S_GetCosignatures (sv_store sv) (hex_encode rootBytes))) 500 w a (\<lambda>cosigs a.
     check (wrap_err ''merge cosignatures'' (MergeCosignatures signed cosigs)) 500 w a (\<lambda>combined.
     send_text combined w a))))"

section \<open>Health, statistics, energy, attestation\<close>

definition rfc3339_utc :: "gotime \<Rightarrow> bytes" where
  "rfc3339_utc t = date_time (t_sec t) 0 @ ''Z''"

definition marshal_health :: "'s server \<Rightarrow> bytes \<Rightarrow> gotime \<Rightarrow> jval res" where
  "marshal_health sv st now = jobj
     [m_str ''status'' st, m_str ''version'' (sv_version sv), m_str_opt ''log_backend'' (sv_logBackend sv),
      m_str_opt ''signer_type'' (sv_signerType sv), m_str ''timestamp'' (rfc3339_utc now)]"

definition handleHealth :: "('ct, 'rt, 'ky, 'sg, 'vf) api_lib \<Rightarrow> 's server \<Rightarrow> 's api handler" where
  "handleHealth al sv r w a =
     (let now = al_now al (ap_calls a); a = a\<lparr>ap_calls := ap_calls a + 1\<rparr>
      in case on_store (S_Stats (sv_store sv)) a of
           (Inl e, a) \<Rightarrow> send 503 (marshal_health sv ''degraded'' now) w a
         | (Inr _, a) \<Rightarrow> send 200 (marshal_health sv ''ok'' now) w a)"

definition marshal_stats :: "store_stats \<Rightarrow> jval res" where
  "marshal_stats st = jobj
     [m_int ''total_receipts'' (st_TotalReceipts st), m_int ''total_checkpoints'' (st_TotalCheckpoints st),
      m_int ''pending_batch'' (st_PendingBatch st), m_int ''total_witness_sigs'' (st_TotalWitnessSigs st)]"

definition handleStats :: "'s server \<Rightarrow> 's api handler" where
  "handleStats sv r w a =
     call (wrap_op ''fetch stats'' (S_Stats (sv_store sv))) 500 w a (\<lambda>st a. send 200 (marshal_stats st) w a)"

definition handleEnergyStats :: "'s server \<Rightarrow> 's api handler" where
  "handleEnergyStats sv r w a =
     (let g = (if sv_inferenceRegion sv = [] then Fin 0
               else case Intensity (sv_carbonLookup sv) (sv_inferenceRegion sv) of Inr g \<Rightarrow> g | Inl _ \<Rightarrow> Fin 0)
      in send 200 (jobj [m_str_opt ''inference_region'' (sv_inferenceRegion sv),
                         m_float_opt ''carbon_intensity_gco2e_per_kwh'' g,
                         m_bool ''energy_estimation_enabled'' True]) w a)"

definition handleAttestation :: "'s server \<Rightarrow> 's api handler" where
  "handleAttestation sv r w a =
     with_receipt sv r w a (\<lambda>sr a.
     check (wrap_err ''build attestation'' (NewReceiptStatement (Some (sr_Receipt sr)))) 500 w a (\<lambda>stmt.
     check (wrap_err ''serialize attestation'' (statement_Bytes stmt)) 500 w a (\<lambda>b.
     Some (write_body b (write_header 200 (set_header ''Content-Type'' ''application/vnd.in-toto+json'' w)), a))))"

section \<open>Payments\<close>

definition paymentSchemes :: "'s server \<Rightarrow> payment_scheme list" where
  "paymentSchemes sv =
     (let recipient = (if sv_x402Recipient sv = [] then ''0x0000000000000000000000000000000000000000''
                       else sv_x402Recipient sv)
      in [\<lparr>ps_Scheme = ''x402/evm-token'', ps_Network = ''base-mainnet'', ps_Amount = ''1000000'',
           ps_Token = ''0x833589fcd6edb6e08f4c7c32d4f71b54bda02913'', ps_Recipient = recipient\<rparr>])"

text \<open>\<^verbatim>\<open>decodeJSON\<close>: the error of the size limit is not told apart.\<close>

definition limited_res :: "'a limited \<Rightarrow> 'a res" where
  "limited_res x = (case x of TooLarge \<Rightarrow> Inl (Err ''http: request body too large'') | Decoded y \<Rightarrow> y)"

definition handleIngestWithPayment ::
  "('ct, 'rt, 'ky, 'sg, 'vf) api_lib \<Rightarrow> 's server \<Rightarrow> 's api handler" where
  "handleIngestWithPayment al sv r w a =
     (case ExtractPaymentAuth r of
        Inl e \<Rightarrow>
          (let w = write_header 402 (set_header ''Content-Type'' ''application/json'' w)
           in send 402 (marshal_required (NewPaymentRequired (get_or_empty (rq_headers r) ''X-Request-Id'') (paymentSchemes sv))) w a)
      | Inr auth \<Rightarrow>
          check (wrap_err ''invalid JSON'' (limited_res (decode_limited (2 ^ 20) decode_ingest (rq_body r)))) 400 w a (\<lambda>req.
          (case next_receipt al sv req a of (b, a) \<Rightarrow>
           check b 400 w a (\<lambda>receipt.
           call (wrap_op ''store receipt'' (S_AppendReceipt (sv_store sv) receipt)) 500 w a (\<lambda>_ a.
           let a = a\<lparr>ap_bridge := bridge_Store (r_ID receipt) auth (ap_bridge a)\<rparr>
           in send 201 (marshal_payment_response (WrapReceipt receipt (Some auth))) w a)))))"

definition handleGetReceiptPayment :: "'s server \<Rightarrow> 's api handler" where
  "handleGetReceiptPayment sv r w a =
     with_receipt sv r w a (\<lambda>sr a.
     case bridge_Get (get_or_empty (rq_values r) ''id'') (ap_bridge a) of
       None \<Rightarrow> fail 404 ''no payment record for this receipt'' w a
     | Some auth \<Rightarrow> send 200 (marshal_payment_response (WrapReceipt (sr_Receipt sr) (Some auth))) w a)"

section \<open>Routes and middleware\<close>

text \<open>A pattern is a method and segments; a \<open>Wild\<close> segment takes one that is not empty and names it.\<close>

datatype segment = Lit bytes | Wild bytes

fun match_path :: "segment list \<Rightarrow> bytes list \<Rightarrow> (bytes \<times> bytes) list option" where
  "match_path [] [] = Some []"
| "match_path (Lit l # ps) (s # ss) = (if l = s then match_path ps ss else None)"
| "match_path (Wild n # ps) (s # ss) = (if s = [] then None else map_option ((#) (n, s)) (match_path ps ss))"
| "match_path _ _ = None"

definition Routes ::
  "('ct, 'rt, 'ky, 'sg, 'vf) api_lib \<Rightarrow> 's server \<Rightarrow> (bytes \<times> segment list \<times> 's api handler) list" where
  "Routes al sv =
     [(''POST'', [Lit ''v1'', Lit ''receipts''], handleIngest al sv),
      (''POST'', [Lit ''v1'', Lit ''receipts'', Lit ''batch''], handleIngestBatch al sv),
      (''GET'', [Lit ''v1'', Lit ''receipts''], handleListReceipts sv),
      (''GET'', [Lit ''v1'', Lit ''receipts'', Wild ''id''], handleGetReceipt sv),
      (''GET'', [Lit ''v1'', Lit ''receipts'', Wild ''id'', Lit ''proof''], handleInclusionProof al sv),
      (''GET'', [Lit ''v1'', Lit ''receipts'', Wild ''id'', Lit ''attestation''], handleAttestation sv),
      (''POST'', [Lit ''v1'', Lit ''checkpoints'', Lit ''build''], handleBuildCheckpoint al sv),
      (''GET'', [Lit ''v1'', Lit ''checkpoints''], handleListCheckpoints sv),
      (''GET'', [Lit ''v1'', Lit ''checkpoints'', Wild ''id''], handleGetCheckpoint al sv),
      (''GET'', [Lit ''v1'', Lit ''checkpoints'', Wild ''id'', Lit ''verify''], handleVerifyCheckpoint al sv),
      (''POST'', [Lit ''v1'', Lit ''checkpoints'', Wild ''id'', Lit ''witness''], handleWitnessSubmit sv),
      (''GET'', [Lit ''v1'', Lit ''checkpoints'', Wild ''id'', Lit ''consistency'', Wild ''old_id''],
         handleConsistencyProof al sv),
      (''GET'', [Lit ''v1'', Lit ''log'', Lit ''checkpoint''], handleLogCheckpoint sv),
      (''GET'', [Lit ''v1'', Lit ''witness'', Lit ''checkpoint''], handleC2SPCheckpoint al sv),
      (''POST'', [Lit ''v1'', Lit ''witness'', Lit ''cosign''], handleC2SPCosign al sv),
      (''GET'', [Lit ''v1'', Lit ''witness'', Lit ''cosigned-checkpoint''], handleC2SPCosignedCheckpoint al sv),
      (''POST'', [Lit ''v1'', Lit ''receipts'', Lit ''with-payment''], handleIngestWithPayment al sv),
      (''GET'', [Lit ''v1'', Lit ''receipts'', Wild ''id'', Lit ''payment''], handleGetReceiptPayment sv),
      (''GET'', [Lit ''v1'', Lit ''health''], handleHealth al sv),
      (''GET'', [Lit ''v1'', Lit ''stats''], handleStats sv),
      (''GET'', [Lit ''v1'', Lit ''stats'', Lit ''energy''], handleEnergyStats sv)]"

text \<open>\<^verbatim>\<open>http.ServeMux\<close>: GET patterns take HEAD, 405 with the allowed methods when only the method differs.\<close>

definition method_ok :: "bytes \<Rightarrow> bytes \<Rightarrow> bool" where
  "method_ok pat m = (m = pat \<or> pat = ''GET'' \<and> m = ''HEAD'')"

definition allowed :: "(bytes \<times> segment list \<times> 'h) list \<Rightarrow> bytes list \<Rightarrow> bytes list" where
  "allowed rs path =
     sort (remdups (concat (map (\<lambda>(m, ps, _). if match_path ps path = None then []
                                  else if m = ''GET'' then [''GET'', ''HEAD''] else [m]) rs)))"

definition http_error :: "int \<Rightarrow> bytes \<Rightarrow> writer \<Rightarrow> writer" where
  "http_error st msg w =
     write_body (msg @ [newline])
       (write_header st (set_header ''X-Content-Type-Options'' ''nosniff''
          (set_header ''Content-Type'' ''text/plain; charset=utf-8'' w)))"

definition serve_mux :: "(bytes \<times> segment list \<times> 's handler) list \<Rightarrow> 's handler" where
  "serve_mux rs r w a =
     (case List.find (\<lambda>(m, ps, _). method_ok m (rq_method r) \<and> match_path ps (rq_path r) \<noteq> None) rs of
        Some (m, ps, h) \<Rightarrow> h (r\<lparr>rq_values := the (match_path ps (rq_path r))\<rparr>) w a
      | None \<Rightarrow>
          if allowed rs (rq_path r) \<noteq> []
          then Some (http_error 405 ''Method Not Allowed''
                       (set_header ''Allow'' (join '', '' (allowed rs (rq_path r))) w), a)
          else Some (http_error 404 ''404 page not found'' w, a))"

definition requestIDMiddleware :: "(nat \<Rightarrow> bytes) \<Rightarrow> 's api handler \<Rightarrow> 's api handler" where
  "requestIDMiddleware rand next_handler r w a =
     (let given = get_or_empty (rq_headers r) ''X-Request-Id''
      in if given \<noteq> [] then next_handler r (set_header ''X-Request-Id'' given w) a
         else next_handler r (set_header ''X-Request-Id'' (hex_encode (rand (ap_calls a))) w)
                (a\<lparr>ap_calls := ap_calls a + 1\<rparr>))"

text \<open>The status the log line shows is the last one passed to \<^verbatim>\<open>WriteHeader\<close>; the response is passed through.\<close>

definition loggingMiddleware :: "'s handler \<Rightarrow> 's handler" where
  "loggingMiddleware next_handler r w a = next_handler r w a"

definition corsMiddleware :: "'s handler \<Rightarrow> 's handler" where
  "corsMiddleware next_handler r w a =
     (let w = set_header ''Access-Control-Allow-Headers'' ''Content-Type, Authorization, X-Request-ID''
                (set_header ''Access-Control-Allow-Methods'' ''GET, POST, OPTIONS''
                   (set_header ''Access-Control-Allow-Origin'' ''*'' w))
      in if rq_method r = ''OPTIONS'' then Some (write_header 204 w, a) else next_handler r w a)"

definition Handler :: "('ct, 'rt, 'ky, 'sg, 'vf) api_lib \<Rightarrow> 's server \<Rightarrow> 's api handler" where
  "Handler al sv = corsMiddleware (requestIDMiddleware (al_rand al) (loggingMiddleware (serve_mux (Routes al sv))))"

end
