(* ===== verification/ApiProofs.thy ===== *)
theory ApiProofs
  imports ApiHandlers Ledger
begin

text \<open>
  The server over a SQLite store: what its handlers keep of the database, for every request. A handler keeps a
  property of the database when every operation it calls does; reads are separated from writes, so that the same
  lemmas show that GET requests change no table and that the server only moves along the ledger's steps.
\<close>

section \<open>Handlers that keep a property of the database\<close>

definition reply_keeps :: "('s \<Rightarrow> bool) \<Rightarrow> 's api reply \<Rightarrow> bool" where
  "reply_keeps P x = (case x of None \<Rightarrow> True | Some (w, a) \<Rightarrow> P (ap_store a))"

definition handler_keeps :: "('s \<Rightarrow> bool) \<Rightarrow> 's api handler \<Rightarrow> bool" where
  "handler_keeps P h = (\<forall>r w a. P (ap_store a) \<longrightarrow> reply_keeps P (h r w a))"

lemma handler_keepsI: "(\<And>r w a. P (ap_store a) \<Longrightarrow> reply_keeps P (h r w a)) \<Longrightarrow> handler_keeps P h"
  by (simp add: handler_keeps_def)

lemma handler_keepsD: "handler_keeps P h \<Longrightarrow> P (ap_store a) \<Longrightarrow> h r w a = Some (w', a') \<Longrightarrow> P (ap_store a')"
proof -
  assume "handler_keeps P h" and "P (ap_store a)" and h: "h r w a = Some (w', a')"
  have "reply_keeps P (h r w a)" using \<open>handler_keeps P h\<close> \<open>P (ap_store a)\<close> unfolding handler_keeps_def by blast
  with h show "P (ap_store a')" by (simp add: reply_keeps_def)
qed

named_theorems replies \<open>parts of a handler that keep a property\<close>

lemma reply_Some [replies]: "P (ap_store a) \<Longrightarrow> reply_keeps P (Some (w, a))"
  by (simp add: reply_keeps_def)

lemma reply_None [replies]: "reply_keeps P None"
  by (simp add: reply_keeps_def)

lemma reply_fail [replies]: "P (ap_store a) \<Longrightarrow> reply_keeps P (fail st msg w a)"
  by (simp add: fail_def reply_keeps_def)

lemma reply_send [replies]: "P (ap_store a) \<Longrightarrow> reply_keeps P (send st v w a)"
  by (simp add: send_def reply_keeps_def)

lemma reply_send_text [replies]: "P (ap_store a) \<Longrightarrow> reply_keeps P (send_text b w a)"
  by (simp add: send_text_def reply_keeps_def)

lemma reply_check [replies]:
  "P (ap_store a) \<Longrightarrow> (\<And>v. x = Inr v \<Longrightarrow> reply_keeps P (k v)) \<Longrightarrow> reply_keeps P (check x st w a k)"
  by (cases x) (simp_all add: check_def reply_fail)

lemma reply_bind [replies]:
  "(\<And>v. x = Some v \<Longrightarrow> reply_keeps P (k v)) \<Longrightarrow> reply_keeps P (Option.bind x k)"
  by (cases x) (simp_all add: reply_keeps_def)

lemma reply_case_option [replies]:
  "(x = None \<Longrightarrow> reply_keeps P y) \<Longrightarrow> (\<And>v. x = Some v \<Longrightarrow> reply_keeps P (k v)) \<Longrightarrow>
     reply_keeps P (case x of None \<Rightarrow> y | Some v \<Rightarrow> k v)"
  by (cases x) simp_all

lemma reply_case_limited [replies]:
  "reply_keeps P y \<Longrightarrow> (\<And>v. reply_keeps P (k v)) \<Longrightarrow> reply_keeps P (case x of TooLarge \<Rightarrow> y | Decoded v \<Rightarrow> k v)"
  by (cases x) simp_all

lemma reply_case_pair [replies]:
  "(\<And>u v. x = (u, v) \<Longrightarrow> reply_keeps P (k u v)) \<Longrightarrow> reply_keeps P (case x of (u, v) \<Rightarrow> k u v)"
  by (cases x) simp

lemma reply_case_sum [replies]:
  "(\<And>e. reply_keeps P (f e)) \<Longrightarrow> (\<And>v. x = Inr v \<Longrightarrow> reply_keeps P (k v)) \<Longrightarrow>
     reply_keeps P (case x of Inl e \<Rightarrow> f e | Inr v \<Rightarrow> k v)"
  by (cases x) simp_all

lemma reply_if [replies]: "(c \<Longrightarrow> reply_keeps P x) \<Longrightarrow> (\<not> c \<Longrightarrow> reply_keeps P y) \<Longrightarrow> reply_keeps P (if c then x else y)"
  by simp

lemma reply_let [replies]: "reply_keeps P (k x) \<Longrightarrow> reply_keeps P (let y = x in k y)"
  by simp

lemma reply_call [replies]:
  assumes "P (ap_store a)" and "keeps P p" and "\<And>v a. P (ap_store a) \<Longrightarrow> reply_keeps P (k v a)"
  shows "reply_keeps P (call p st w a k)"
proof -
  obtain r s where p: "p (ap_store a) = (r, s)" by (metis prod.exhaust)
  have "P s" using keepsD [OF assms(2,1)] p by simp
  then show ?thesis using assms(3) by (auto simp: call_def on_store_def p intro!: reply_check)
qed

lemma on_store_keeps: "keeps P p \<Longrightarrow> P (ap_store a) \<Longrightarrow> on_store p a = (r, a') \<Longrightarrow> P (ap_store a')"
  by (auto simp: on_store_def split: prod.splits dest: keepsD)

section \<open>Reads and writes of the SQLite store\<close>

text \<open>A property that a query of the database keeps.\<close>

locale db_reads =
  fixes P :: "db \<Rightarrow> bool"
  assumes probe: "P st \<Longrightarrow> P (snd (query (\<lambda>_. ()) st))"
begin

lemma query_keeps: "keeps P (query f)"
proof (rule keepsI)
  fix s assume "P s"
  moreover have "snd (query f s) = snd (query (\<lambda>_. ()) s)"
    by (auto simp: query_def sql_def split: list.split option.split)
  ultimately show "P (snd (query f s))" using probe by simp
qed

lemma rows_err_keeps: "keeps P rows_err"
  unfolding rows_err_def by (rule query_keeps)

lemma GetReceiptByID_keeps: "keeps P (GetReceiptByID i)"
  unfolding GetReceiptByID_def
proof (intro keeps_bind query_keeps keeps_ret)
  fix x and row :: "receipt_row option"
  show "keeps P (case row of None \<Rightarrow> ret_op None
     | Some rw \<Rightarrow> bind_op (wrap_op ''unmarshal receipt'' (lift_op (unmarshal_receipt (rr_json rw))))
         (\<lambda>r. ret_op (Some \<lparr>sr_RowID = rr_id rw, sr_Receipt = r\<rparr>)))"
    by (cases row) (simp_all add: keeps_bind keeps_wrap)
qed

lemma scan_keeps: "keeps P (scanReceipts rows)" "keeps P (scanStoredReceipts rows)"
  unfolding scanReceipts_def scanStoredReceipts_def by (intro keeps_bind rows_err_keeps keeps_ret)+

lemma list_keeps:
  "keeps P (ListReceipts i n)" "keeps P (GetReceiptsByRange i n)" "keeps P (ListCheckpoints i n)"
  unfolding ListReceipts_def GetReceiptsByRange_def ListCheckpoints_def
  by (intro keeps_bind query_keeps scan_keeps rows_err_keeps keeps_ret)+

lemma get_keeps:
  "keeps P (GetCheckpoint n)" "keeps P (GetCheckpointForRow n)" "keeps P LatestCheckpoint"
  unfolding GetCheckpoint_def GetCheckpointForRow_def LatestCheckpoint_def by (rule query_keeps)+

lemma sigs_keeps: "keeps P (WitnessSignatures n)" "keeps P (GetCosignatures h)" "keeps P Stats"
  unfolding WitnessSignatures_def GetCosignatures_def Stats_def
  by (intro keeps_bind query_keeps rows_err_keeps keeps_ret)+

lemma log_keeps: "keeps P (S_GetLogCheckpoint sqlite_store)"
  by (simp add: sqlite_store_def)

lemmas reads = keeps_wrap GetReceiptByID_keeps list_keeps get_keeps sigs_keeps log_keeps

text \<open>The handlers of the GET routes.\<close>

lemma with_receipt_keeps:
  "P (ap_store a) \<Longrightarrow> sv_store sv = sqlite_store \<Longrightarrow> (\<And>sr a. P (ap_store a) \<Longrightarrow> reply_keeps P (k sr a)) \<Longrightarrow>
   reply_keeps P (with_receipt sv r w a k)"
  unfolding with_receipt_def by (simp, intro replies reads) simp_all

lemma with_checkpoint_keeps:
  "P (ap_store a) \<Longrightarrow> sv_store sv = sqlite_store \<Longrightarrow> (\<And>c a. P (ap_store a) \<Longrightarrow> reply_keeps P (k c a)) \<Longrightarrow>
   reply_keeps P (with_checkpoint sv r w a k)"
  unfolding with_checkpoint_def by (simp, intro replies reads) simp_all

lemma with_latest_keeps:
  "P (ap_store a) \<Longrightarrow> sv_store sv = sqlite_store \<Longrightarrow> (\<And>c a. P (ap_store a) \<Longrightarrow> reply_keeps P (k c a)) \<Longrightarrow>
   reply_keeps P (with_latest sv w a k)"
  unfolding with_latest_def by (simp, intro replies reads) simp_all

lemma checkpoint_or_404_keeps:
  assumes "P (ap_store a)" "sv_store sv = sqlite_store" "\<And>c a. P (ap_store a) \<Longrightarrow> reply_keeps P (k c a)"
  shows "reply_keeps P (checkpoint_or_404 sv msg n w a k)"
proof -
  obtain x a' where x: "on_store (GetCheckpoint n) a = (x, a')" by (metis prod.exhaust)
  have "P (ap_store a')" using on_store_keeps [OF get_keeps(1) assms(1) x] .
  with assms(2,3) x show ?thesis
    by (cases x) (auto simp: checkpoint_or_404_def intro: reply_fail split: option.splits)
qed

lemmas parts = replies with_receipt_keeps with_checkpoint_keeps with_latest_keeps checkpoint_or_404_keeps reads

lemma read_handlers_keep:
  assumes sv: "sv_store sv = sqlite_store"
  shows "handler_keeps P (handleListReceipts sv)" "handler_keeps P (handleGetReceipt sv)"
    "handler_keeps P (handleInclusionProof al sv)" "handler_keeps P (handleAttestation sv)"
    "handler_keeps P (handleListCheckpoints sv)" "handler_keeps P (handleGetCheckpoint al sv)"
    "handler_keeps P (handleVerifyCheckpoint al sv)" "handler_keeps P (handleConsistencyProof al sv)"
    "handler_keeps P (handleLogCheckpoint sv)" "handler_keeps P (handleC2SPCheckpoint al sv)"
    "handler_keeps P (handleC2SPCosignedCheckpoint al sv)" "handler_keeps P (handleGetReceiptPayment sv)"
    "handler_keeps P (handleStats sv)" "handler_keeps P (handleEnergyStats sv)"
  unfolding handleListReceipts_def [abs_def] handleGetReceipt_def [abs_def] handleInclusionProof_def [abs_def]
    handleAttestation_def [abs_def] handleListCheckpoints_def [abs_def] handleGetCheckpoint_def [abs_def]
    handleVerifyCheckpoint_def [abs_def] handleConsistencyProof_def [abs_def] handleLogCheckpoint_def [abs_def]
    handleC2SPCheckpoint_def [abs_def] handleC2SPCosignedCheckpoint_def [abs_def]
    handleGetReceiptPayment_def [abs_def] handleStats_def [abs_def] handleEnergyStats_def [abs_def]
    findCheckpointForRow_def prove_in_def sv sqlite_store_sel
  by (intro handler_keepsI parts sv; assumption)+

lemma health_keeps:
  assumes sv: "sv_store sv = sqlite_store"
  shows "handler_keeps P (handleHealth al sv)"
proof (rule handler_keepsI)
  fix r w and a :: "db api" assume a: "P (ap_store a)"
  let ?a = "a\<lparr>ap_calls := ap_calls a + 1\<rparr>"
  obtain x a' where x: "on_store Stats ?a = (x, a')" by (metis prod.exhaust)
  have "P (ap_store a')" by (rule on_store_keeps [OF sigs_keeps(3) _ x]) (simp add: a)
  with x show "reply_keeps P (handleHealth al sv r w a)"
    by (cases x) (simp_all add: handleHealth_def Let_def sv reply_send)
qed

end

text \<open>The mux, the middleware and the routes.\<close>

lemma mux_keeps:
  assumes "\<And>m ps h. (m, ps, h) \<in> set rs \<Longrightarrow> method_ok m (rq_method r) \<Longrightarrow> handler_keeps P h" and "P (ap_store a)"
  shows "reply_keeps P (serve_mux rs r w a)"
proof (cases "List.find (\<lambda>(m, ps, _). method_ok m (rq_method r) \<and> match_path ps (rq_path r) \<noteq> None) rs")
  case None
  with assms(2) show ?thesis by (simp add: serve_mux_def reply_keeps_def)
next
  case (Some x)
  obtain m ps h where x: "x = (m, ps, h)" by (metis prod.exhaust)
  from Some x have "(m, ps, h) \<in> set rs" "method_ok m (rq_method r)" by (auto simp: find_Some_iff) (metis nth_mem)
  with assms have "handler_keeps P h" "P (ap_store a)" by auto
  with Some x show ?thesis by (simp add: serve_mux_def handler_keeps_def)
qed

lemma Handler_keeps:
  assumes "\<And>m ps h. (m, ps, h) \<in> set (Routes al sv) \<Longrightarrow> method_ok m (rq_method r) \<Longrightarrow> handler_keeps P h" and "P (ap_store a)"
  shows "reply_keeps P (Handler al sv r w a)"
proof -
  have "reply_keeps P (requestIDMiddleware (al_rand al) (loggingMiddleware (serve_mux (Routes al sv))) r w' a)" for w'
    using assms by (auto simp: requestIDMiddleware_def loggingMiddleware_def Let_def intro!: mux_keeps)
  with assms(2) show ?thesis by (simp add: Handler_def corsMiddleware_def Let_def reply_Some)
qed

text \<open>Reading changes no table: the interface of reads on the tables of the database.\<close>

interpretation same_tables: db_reads "\<lambda>st. tables st = t" for t
  by unfold_locales (metis query_tables prod.collapse)

lemma get_routes:
  assumes "(m, ps, h) \<in> set (Routes al sv)" and "method_ok m ''GET'' \<or> method_ok m ''HEAD''"
  shows "m = ''GET''"
  using assms by (auto simp: Routes_def method_ok_def)

lemma get_handlers:
  assumes "(''GET'', ps, h) \<in> set (Routes al sv)"
  shows "h \<in> {handleListReceipts sv, handleGetReceipt sv, handleInclusionProof al sv, handleAttestation sv,
    handleListCheckpoints sv, handleGetCheckpoint al sv, handleVerifyCheckpoint al sv, handleConsistencyProof al sv,
    handleLogCheckpoint sv, handleC2SPCheckpoint al sv, handleC2SPCosignedCheckpoint al sv, handleGetReceiptPayment sv,
    handleHealth al sv, handleStats sv, handleEnergyStats sv}"
  using assms by (auto simp: Routes_def)

lemma post_handlers:
  assumes "(m, ps, h) \<in> set (Routes al sv)" and "m \<noteq> ''GET''"
  shows "h \<in> {handleIngest al sv, handleIngestBatch al sv, handleBuildCheckpoint al sv, handleWitnessSubmit sv,
    handleC2SPCosign al sv, handleIngestWithPayment al sv}"
  using assms by (auto simp: Routes_def)

section \<open>The writing handlers\<close>

lemma next_receipt_store: "next_receipt al sv req a = (x, a') \<Longrightarrow> ap_store a' = ap_store a"
  by (auto simp: next_receipt_def)

lemma build_items_store: "build_items al sv items a = (x, a') \<Longrightarrow> ap_store a' = ap_store a"
proof (induction items arbitrary: a x a')
  case (Cons item items)
  have keep: "keeps (\<lambda>b. ap_store b = ap_store a) (build_items al sv (item # items))"
  proof -
    have "keeps (\<lambda>b. ap_store b = ap_store a) (next_receipt al sv item)"
      by (rule keepsI) (simp add: next_receipt_def)
    moreover have "keeps (\<lambda>b. ap_store b = ap_store a) (build_items al sv items)"
      by (rule keepsI) (metis Cons.IH prod.collapse)
    ultimately show ?thesis by (simp add: keeps_bind keeps_wrap)
  qed
  from keepsD [OF this, of a] Cons.prems show ?case by simp
qed (simp add: ret_op_def)

text \<open>A property that the writes of the server keep too.\<close>

locale ledger_writes = db_reads P for P +
  fixes sha :: sha_fun and c :: ed25519 and b :: builder
  assumes append_keeps: "keeps P (AppendReceipt r)"
    and batch_keeps: "keeps P (AppendReceiptsBatch rs)"
    and witness_keeps: "keeps P (AddWitnessSignature n i s)"
    and cosig_keeps: "keeps P (StoreCosignature h t)"
    and build_keeps: "P st \<Longrightarrow> BuildAndSign sqlite_store sha c now b st = Some (x, st') \<Longrightarrow> P st'"
begin

lemmas writes = append_keeps batch_keeps witness_keeps cosig_keeps

lemma ingest_keeps:
  assumes sv: "sv_store sv = sqlite_store"
  shows "handler_keeps P (handleIngest al sv)" "handler_keeps P (handleIngestBatch al sv)"
    "handler_keeps P (handleWitnessSubmit sv)"
  unfolding handleIngest_def [abs_def] handleIngestBatch_def [abs_def] handleWitnessSubmit_def [abs_def] sv sqlite_store_sel
  by (intro handler_keepsI parts writes sv; simp add: build_items_store next_receipt_store)+

lemma payment_keeps:
  assumes sv: "sv_store sv = sqlite_store"
  shows "handler_keeps P (handleIngestWithPayment al sv)"
  unfolding handleIngestWithPayment_def [abs_def] sv sqlite_store_sel
  by (intro handler_keepsI parts writes sv; simp add: next_receipt_store)

lemma cosign_keeps:
  assumes sv: "sv_store sv = sqlite_store"
  shows "handler_keeps P (handleC2SPCosign al sv)"
proof -
  have "on_store (StoreCosignature h t) a = (x, a') \<Longrightarrow> P (ap_store a) \<Longrightarrow> P (ap_store a')" for h t a x a'
    using on_store_keeps [OF cosig_keeps] by blast
  then show ?thesis
    unfolding handleC2SPCosign_def [abs_def] sv sqlite_store_sel by (intro handler_keepsI parts; simp)
qed

lemma build_handler_keeps:
  assumes sv: "sv_store sv = sqlite_store" "sv_builder sv = Some b" "al_sha al = sha" "al_ed al = c"
  shows "handler_keeps P (handleBuildCheckpoint al sv)"
proof (rule handler_keepsI)
  fix r w and a :: "db api" assume "P (ap_store a)"
  then have "P s" if "BuildAndSign sqlite_store sha c (al_now al (ap_calls a)) b (ap_store a) = Some (x, s)" for x s
    using build_keeps that by blast
  then show "reply_keeps P (handleBuildCheckpoint al sv r w a)"
    unfolding handleBuildCheckpoint_def sv by (intro reply_bind) (auto simp: Let_def intro!: replies)
qed

lemma server_keeps:
  assumes sv: "sv_store sv = sqlite_store" "sv_builder sv = Some b" "al_sha al = sha" "al_ed al = c" and "P (ap_store a)"
  shows "reply_keeps P (Handler al sv r w a)"
proof (rule Handler_keeps)
  show "P (ap_store a)" by (rule assms(5))
  fix m ps h assume h: "(m, ps, h) \<in> set (Routes al sv)"
  show "handler_keeps P h"
  proof (cases "m = ''GET''")
    case True
    with h have "(''GET'', ps, h) \<in> set (Routes al sv)" by simp
    from get_handlers [OF this] read_handlers_keep [OF sv(1)] health_keeps [OF sv(1)] show ?thesis by blast
  next
    case False
    from post_handlers [OF h False] ingest_keeps [OF sv(1)] payment_keeps [OF sv(1)] cosign_keeps [OF sv(1)]
      build_handler_keeps [OF sv]
    show ?thesis by blast
  qed
qed

end

lemma reach_healthy: "ledger_reach sha c b st \<Longrightarrow> db_faults st = []"
  using reach_inv by (auto simp: ledger_inv_def)

interpretation ledger_run: ledger_writes "ledger_reach sha c b" sha c b for sha c b
proof unfold_locales
  show "ledger_reach sha c b st \<Longrightarrow> ledger_reach sha c b (snd (query (\<lambda>_. ()) st))" for st
    by (simp add: reach_healthy)
  show "keeps (ledger_reach sha c b) (AppendReceipt r)" for r
    by (rule keepsI, erule ledger_reach.step, rule ledger_step.append) (rule prod.collapse [symmetric])
  show "keeps (ledger_reach sha c b) (AppendReceiptsBatch rs)" for rs
    by (rule keepsI, erule ledger_reach.step, rule ledger_step.append_batch) (rule prod.collapse [symmetric])
  show "keeps (ledger_reach sha c b) (AddWitnessSignature n i s)" for n i s
    by (rule keepsI, erule ledger_reach.step, rule ledger_step.witness) (rule prod.collapse [symmetric])
  show "keeps (ledger_reach sha c b) (StoreCosignature h t)" for h t
    by (rule keepsI, erule ledger_reach.step, rule ledger_step.cosig) (rule prod.collapse [symmetric])
  show "ledger_reach sha c b st \<Longrightarrow> BuildAndSign sqlite_store sha c now b st = Some (x, st') \<Longrightarrow> ledger_reach sha c b st'"
    for st now x st' by (erule ledger_reach.step, erule ledger_step.build)
qed

text \<open>The states a server reaches by answering requests, from an empty database.\<close>

inductive api_reach :: "('ct, 'rt, 'ky, 'sg, 'vf) api_lib \<Rightarrow> db server \<Rightarrow> db api \<Rightarrow> bool" for al sv where
  fresh: "ap_store a = empty_db \<Longrightarrow> api_reach al sv a"
| answer: "api_reach al sv a \<Longrightarrow> Handler al sv r w a = Some (w', a') \<Longrightarrow> api_reach al sv a'"

end
