(* ===== verification/ApiClaims.thy ===== *)
theory ApiClaims
  imports ApiProofs
begin

text \<open>
  What clients may rely on: GET requests read only, the server follows the ledger, the proofs it serves verify,
  a batch is bounded and all or nothing; and what they may not: the receipts it signs do not verify.
\<close>

section \<open>An example server\<close>

definition toy_x509 :: "(unit, unit, unit) x509_lib" where
  "toy_x509 = \<lparr>xl_parse = (\<lambda>_. Inl (Err ''no certificate'')), xl_chain = (\<lambda>_ _ _. Inr ()),
     xl_not_before = (\<lambda>_. unix_time 0), xl_key = (\<lambda>_. None), xl_verify = (\<lambda>_ _ _. False), xl_uris = (\<lambda>_. []),
     xl_emails = (\<lambda>_. []), xl_common_name = (\<lambda>_. []), xl_pem = (\<lambda>_. None)\<rparr>"

definition toy_api :: "(unit, unit, unit, bytes, bytes) api_lib" where
  "toy_api = \<lparr>al_sha = (\<lambda>x. x), al_ed = toy_scheme, al_note = toy_notes, al_x509 = toy_x509,
     al_uuid = (\<lambda>_. ''id-1''), al_now = (\<lambda>n. unix_time 1768473000), al_rand = (\<lambda>_. ''12345678'')\<rparr>"

definition toy_server :: "db server" where
  "toy_server = NewServer sqlite_store (Some (NewBuilder ''k'' 0)) ''k'' ''k'' (get_adapter NewRegistry) ''v1''"

lemma toy_server_sel [simp]:
  "sv_store toy_server = sqlite_store" "sv_builder toy_server = Some (NewBuilder ''k'' 0)"
  "sv_operatorPub toy_server = ''k''" "sv_operatorPriv toy_server = ''k''"
  "sv_registry toy_server = get_adapter NewRegistry" "sv_modelReg toy_server = NewModelRegistry"
  "sv_energyEst toy_server = NewBenchmarkEstimator" "sv_inferenceRegion toy_server = []"
  by (simp_all add: toy_server_def NewServer_def NewWithOrigin_def)

lemma toy_api_sel [simp]:
  "al_sha toy_api = (\<lambda>x. x)" "al_ed toy_api = toy_scheme" "al_x509 toy_api = toy_x509"
  "al_uuid toy_api n = ''id-1''" "al_now toy_api n = unix_time 1768473000"
  "al_rand toy_api n = ''12345678''"
  by (simp_all add: toy_api_def)

definition request :: "bytes \<Rightarrow> bytes list \<Rightarrow> bytes \<Rightarrow> http_request" where
  "request m path body = \<lparr>rq_method = m, rq_path = path, rq_values = [], rq_query = [], rq_headers = [],
     rq_body = body, rq_read = (\<lambda>_. ([], True))\<rparr>"

definition fresh_api :: "db \<Rightarrow> db api" where
  "fresh_api st = \<lparr>ap_store = st, ap_bridge = NewBridge, ap_calls = 0\<rparr>"

lemma toy_stats: "\<exists>w a. Handler toy_api toy_server (request ''GET'' [''v1'', ''stats''] []) new_writer (fresh_api st) = Some (w, a)"
  by (simp add: Handler_def corsMiddleware_def requestIDMiddleware_def loggingMiddleware_def serve_mux_def Routes_def
      request_def method_ok_def Let_def handleStats_def call_def check_def fail_def send_def get_or_empty_def
      split: prod.split sum.split)

lemma toy_build:
  "\<exists>w a. Handler toy_api toy_server (request ''POST'' [''v1'', ''checkpoints'', ''build''] []) new_writer (fresh_api empty_db) = Some (w, a)"
  by (simp add: Handler_def corsMiddleware_def requestIDMiddleware_def loggingMiddleware_def serve_mux_def Routes_def
      request_def method_ok_def Let_def handleBuildCheckpoint_def check_def send_def get_or_empty_def fresh_api_def
      BuildAndSign_def FetchUnbatched_healthy wrap_op_def unbatched_def sql_limit_def empty_db_def)

section \<open>Served proofs\<close>

lemma check_200:
  assumes "check x st new_writer a k = Some (w', a')" and "wr_sent w' = Some (200, hs)" and "st \<noteq> 200"
  obtains v where "x = Inr v" "k v = Some (w', a')"
proof (cases x)
  case (Inl e)
  with assms have False
    by (auto simp: check_def fail_def writeError_def writeJSON_def encode_json_def write_body_def write_header_def
        set_header_def new_writer_def split: sum.splits)
  then show ?thesis ..
next
  case (Inr v)
  with assms(1) that show ?thesis by (simp add: check_def)
qed

lemma call_200:
  assumes "call p st new_writer a k = Some (w', a')" and "wr_sent w' = Some (200, hs)" and "st \<noteq> 200"
  obtains v s where "p (ap_store a) = (Inr v, s)" "k v (a\<lparr>ap_store := s\<rparr>) = Some (w', a')"
proof -
  obtain x s where p: "p (ap_store a) = (x, s)" by (metis prod.exhaust)
  with assms(1) have "check x st new_writer (a\<lparr>ap_store := s\<rparr>) (\<lambda>v. k v (a\<lparr>ap_store := s\<rparr>)) = Some (w', a')"
    by (simp add: call_def on_store_def)
  from check_200 [OF this assms(2,3)] p that show ?thesis by blast
qed

lemma fail_not_200: "fail st msg new_writer a = Some (w', a') \<Longrightarrow> wr_sent w' = Some (200, hs) \<Longrightarrow> st = 200"
  by (auto simp: fail_def writeError_def writeJSON_def encode_json_def write_body_def write_header_def
      set_header_def new_writer_def split: sum.splits)

lemma last_index_spec:
  "last_index i rs n d = d \<or> (\<exists>j < length rs. last_index i rs n d = n + int j \<and> r_ID (rs ! j) = i)"
proof (induction rs arbitrary: n d)
  case (Cons r rs)
  from Cons [of "n + 1" "if r_ID r = i then n else d"] show ?case
  proof
    assume "last_index i rs (n + 1) (if r_ID r = i then n else d) = (if r_ID r = i then n else d)"
    then show ?thesis by (cases "r_ID r = i") auto
  next
    assume "\<exists>j<length rs. last_index i rs (n + 1) (if r_ID r = i then n else d) = n + 1 + int j \<and> r_ID (rs ! j) = i"
    then obtain j where "j < length rs" "last_index i rs (n + 1) (if r_ID r = i then n else d) = n + 1 + int j"
      "r_ID (rs ! j) = i" by blast
    then show ?thesis by (intro disjI2 exI [of _ "Suc j"]) simp
  qed
qed simp

lemma map_res_same:
  "map_res f xs = Inr ys \<Longrightarrow> map_res g xs = Inr zs \<Longrightarrow>
   (\<And>x y z. f x = Inr y \<Longrightarrow> g x = Inr z \<Longrightarrow> y = z) \<Longrightarrow> ys = zs"
  by (induction xs arbitrary: ys zs) (auto split: sum.splits)

lemma leaves_agree:
  assumes "map_res unmarshal_row rows = Inr rs" and "leavesFromReceipts sha rs = Inr ls"
    and "map_res (row_leaf sha) rows = Inr ms"
  shows "ls = ms"
proof -
  have "map_res (\<lambda>rw. and_then (unmarshal_row rw) (leafFromReceipt sha)) rows = Inr ls"
    unfolding map_res_compose [OF assms(1)] using assms(2) by (simp add: leavesFromReceipts_def)
  then show ?thesis using assms(3)
  proof (rule map_res_same)
    fix rw l m assume "and_then (unmarshal_row rw) (leafFromReceipt sha) = Inr l" "row_leaf sha rw = Inr m"
    then show "l = m"
      by (auto simp: and_then_Inr leafFromReceipt_def row_leaf_def receipt_leaf_def stored_row_def wrap_err_Inr)
  qed
qed

lemma GetReceiptByID_state: "db_faults st = [] \<Longrightarrow> GetReceiptByID i st = (x, s) \<Longrightarrow> s = st"
proof -
  assume f: "db_faults st = []" and g: "GetReceiptByID i st = (x, s)"
  have "db_reads (\<lambda>s. s = st)" by unfold_locales (simp add: f)
  from keepsD [OF db_reads.GetReceiptByID_keeps [OF this], of st i] g show "s = st" by simp
qed


definition inclusion_body :: "store_checkpoint \<Rightarrow> bytes \<Rightarrow> int \<Rightarrow> bytes list \<Rightarrow> bytes" where
  "inclusion_body c n i p =
     (case marshal_inclusion \<lparr>ipr_ReceiptID = n, ipr_CheckpointID = cp_ID c, ipr_LeafIndex = i,
        ipr_TreeSize = cp_TreeSize c, ipr_RootHex = cp_RootHex c, ipr_Proof = hexSlice p\<rparr> of
      Inl _ \<Rightarrow> [] | Inr v \<Rightarrow> jtext v @ [newline])"

lemma send_body: "send st v new_writer a = Some (w', a') \<Longrightarrow> wr_body w' = (case v of Inl _ \<Rightarrow> [] | Inr x \<Rightarrow> jtext x @ [newline])"
  by (auto simp: send_def writeJSON_def encode_json_def write_body_def write_header_def
      set_header_def new_writer_def split: sum.splits)

lemma mpath_hashes: "list_all (\<lambda>x. length x = 32) xs \<Longrightarrow> list_all (\<lambda>h. length h = 32) (mpath sha xs i)"
proof (induction sha xs i rule: mpath.induct)
  case (1 sha xs i)
  have "list_all (\<lambda>x. length x = 32) (take (p2 (length xs)) xs)" "list_all (\<lambda>x. length x = 32) (drop (p2 (length xs)) xs)"
    using "1.prems" by (auto simp: list_all_iff dest: in_set_takeD in_set_dropD)
  with "1.IH" show ?case by (subst mpath.simps) (auto simp: mth_length)
qed

lemma leaves_hashes: "leavesFromReceipts sha rs = Inr leaves \<Longrightarrow> list_all (\<lambda>x. length x = 32) leaves"
  by (induction rs arbitrary: leaves)
    (auto simp: leavesFromReceipts_def leafFromReceipt_def and_then_Inr split: sum.splits)

lemma accepted_root:
  "VerifyInclusion sha leaf rt i n p = Some True \<Longrightarrow> length leaf = 32 \<Longrightarrow> length rt = 32"
  by (auto simp: VerifyInclusion_def climb_length split: if_splits Option.bind_splits)

lemma prove_in_200:
  assumes sv: "sv_store sv = sqlite_store" and inv: "ledger_inv (al_sha al) st" and k: "k \<in> set (checkpoints st)"
    and small: "length (receipts st) \<le> 2 ^ 62" and st: "ap_store a = st"
    and ans: "prove_in al sv n new_writer (scanCheckpointRow k) a = Some (w', a')" and ok: "wr_sent w' = Some (200, hs)"
  shows "\<exists>rs leaves rt i p.
    map_res unmarshal_row (in_range k st) = Inr rs \<and> i < length rs \<and>
    r_ID (rs ! i) = n \<and> leafFromReceipt (al_sha al) (rs ! i) = Inr (leaves ! i) \<and>
    FormatRoot rt = ck_root_hex k \<and>
    VerifyInclusion (al_sha al) (leaves ! i) rt (int i) (ck_tree_size k) p = Some True \<and>
    list_all (\<lambda>h. length h = 32) p \<and> length rt = 32 \<and>
    wr_body w' = inclusion_body (scanCheckpointRow k) n (int i) p"
proof -
  have f: "db_faults st = []" using inv by (simp add: ledger_inv_def)
  let ?sha = "al_sha al"
  from call_200 [OF ans [unfolded prove_in_def sv sqlite_store_sel] ok] obtain rs s where
    rs: "wrap_op ''fetch receipts'' (GetReceiptsByRange (ck_batch_start k) (ck_batch_end k)) st = (Inr rs, s)" and
    k1: "check (wrap_err ''build leaves'' (buildLeavesAndIndex ?sha rs n)) 500 new_writer (a\<lparr>ap_store := s\<rparr>)
      (\<lambda>(leaves, index). Option.bind (InclusionProof ?sha leaves index) (\<lambda>p.
        check (wrap_err ''inclusion proof'' p) 500 new_writer (a\<lparr>ap_store := s\<rparr>) (\<lambda>path.
        send 200 (marshal_inclusion
          \<lparr>ipr_ReceiptID = n, ipr_CheckpointID = cp_ID (scanCheckpointRow k), ipr_LeafIndex = index,
           ipr_TreeSize = cp_TreeSize (scanCheckpointRow k), ipr_RootHex = cp_RootHex (scanCheckpointRow k),
           ipr_Proof = hexSlice path\<rparr>) new_writer (a\<lparr>ap_store := s\<rparr>)))) = Some (w', a')"
    by (auto simp: st scanCheckpointRow_def)
  from check_200 [OF k1 ok] obtain leaves index where
    li: "buildLeavesAndIndex ?sha rs n = Inr (leaves, index)" and
    k2: "Option.bind (InclusionProof ?sha leaves index) (\<lambda>p.
        check (wrap_err ''inclusion proof'' p) 500 new_writer (a\<lparr>ap_store := s\<rparr>) (\<lambda>path.
        send 200 (marshal_inclusion
          \<lparr>ipr_ReceiptID = n, ipr_CheckpointID = cp_ID (scanCheckpointRow k), ipr_LeafIndex = index,
           ipr_TreeSize = cp_TreeSize (scanCheckpointRow k), ipr_RootHex = cp_RootHex (scanCheckpointRow k),
           ipr_Proof = hexSlice path\<rparr>) new_writer (a\<lparr>ap_store := s\<rparr>))) = Some (w', a')"
    by (auto simp: wrap_err_Inr)
  then obtain x where x: "InclusionProof ?sha leaves index = Some x"
    and k3: "check (wrap_err ''inclusion proof'' x) 500 new_writer (a\<lparr>ap_store := s\<rparr>) (\<lambda>path.
        send 200 (marshal_inclusion
          \<lparr>ipr_ReceiptID = n, ipr_CheckpointID = cp_ID (scanCheckpointRow k), ipr_LeafIndex = index,
           ipr_TreeSize = cp_TreeSize (scanCheckpointRow k), ipr_RootHex = cp_RootHex (scanCheckpointRow k),
           ipr_Proof = hexSlice path\<rparr>) new_writer (a\<lparr>ap_store := s\<rparr>)) = Some (w', a')"
    by (cases "InclusionProof ?sha leaves index") auto
  from check_200 [OF k3 ok] obtain path where path: "x = Inr path" and
    body: "wr_body w' = inclusion_body (scanCheckpointRow k) n index path"
    by (auto simp: wrap_err_Inr inclusion_body_def dest!: send_body)
  have range: "map_res unmarshal_row (in_range k st) = Inr rs"
    using rs by (auto simp: wrap_op_Inr GetReceiptsByRange_healthy [OF f] in_range_def)
  have lv: "leavesFromReceipts ?sha rs = Inr leaves" and ix: "last_index n rs 0 (- 1) = index" "\<not> index < 0"
    using li by (auto simp: buildLeavesAndIndex_def and_then_Inr Let_def split: if_splits)
  obtain i where i: "i < length rs" "index = int i" "r_ID (rs ! i) = n"
    using last_index_spec [of n rs 0 "- 1"] ix by auto
  obtain ls rt where c: "map_res (row_leaf ?sha) (in_range k st) = Inr ls" "BuildRoot ?sha ls = Some rt"
    "ck_root_hex k = FormatRoot rt" "ck_tree_size k = int (length (in_range k st))"
    using inv_range [OF inv k] by (auto simp: commits_def)
  have ls: "ls = leaves" using leaves_agree [OF range lv c(1)] by simp
  have len: "length leaves = length rs" "length rs = length (in_range k st)"
    using lv map_res_Inr_length [OF range] by (auto simp: leavesFromReceipts_def dest: map_res_Inr_length)
  have "length (in_range k st) \<le> length (receipts st)" by (simp add: in_range_def)
  then have "fits leaves" using small len by (simp add: fits_def)
  from tree.verifiable [OF this, of i ?sha] obtain r p where
    "BuildRoot ?sha leaves = Some r" "InclusionProof ?sha leaves (int i) = Some (Inr p)"
    "VerifyInclusion ?sha (leaves ! i) r (int i) (int (length leaves)) p = Some True"
    using i(1) len(1) by auto
  then have v: "VerifyInclusion ?sha (leaves ! i) rt (int i) (ck_tree_size k) path = Some True"
    using x path i(2) c(2,4) ls len by simp
  have "leafFromReceipt ?sha (rs ! i) = Inr (leaves ! i)"
    using map_res_Inr_nth [OF lv [unfolded leavesFromReceipts_def] i(1)] .
  moreover have "path = mpath ?sha leaves i"
    using InclusionProof_mpath [OF \<open>fits leaves\<close>, of i ?sha] x path i len by simp
  then have "list_all (\<lambda>h. length h = 32) path" using mpath_hashes [OF leaves_hashes [OF lv]] by simp
  moreover have "length (leaves ! i) = 32" using leaves_hashes [OF lv] i(1) len by (simp add: list_all_length)
  with accepted_root [OF v] have "length rt = 32" by blast
  ultimately show ?thesis
    using range i v c(3) body
    by (intro exI [of _ rs] exI [of _ leaves] exI [of _ rt] exI [of _ i] exI [of _ path]) simp
qed

text \<open>The sample ledger: one receipt, one checkpoint over it.\<close>

lemma extract_marshalled:
  assumes "receipt_ok r" and "marshal_receipt r = Inr js"
  shows "json_extract_id js = Inr (Some (r_ID r))"
proof -
  obtain xs where xs: "marshal_members (receipt_members r) = Inr xs" "json_parse js = Some (JObj xs)"
    using parse_marshal [OF receipt_members_ok [OF assms(1)]] assms(2) unfolding marshal_receipt_def by blast
  then have "map_of xs ''id'' = Some (jstr (r_ID r))"
    by (simp add: receipt_members_def m_str_def split: sum.splits) auto
  moreover have "valid_utf8 (r_ID r)" using assms(1) by (simp add: receipt_ok_def)
  ultimately show ?thesis using xs(2) by (simp add: json_extract_id_def unquote_json_escape sanitize_valid)
qed

lemma sample_ledger:
  obtains st k js where "ledger_reach (\<lambda>x. x) toy_scheme (NewBuilder ''k'' 0) st" "checkpoints st = [k]"
    "receipts st = [\<lparr>rr_id = 1, rr_json = js, rr_batched = True\<rparr>]" "marshal_receipt sample_receipt = Inr js"
    "unmarshal_receipt js = Inr sample_receipt" "ck_batch_start k = 1" "ck_batch_end k = 1"
    "ck_id k = 1" "ck_tree_size k = 1"
proof -
  obtain st0 rw where st0: "AppendReceipt sample_receipt empty_db = (Inr 1, st0)" "db_faults st0 = []" "db_inv st0"
    "unbatched st0 = [rw]" "stored_row rw = Inr \<lparr>sr_RowID = 1, sr_Receipt = sample_receipt\<rparr>" by (rule sample_store)
  obtain js where js: "marshal_receipt sample_receipt = Inr js" "receipts st0 = [\<lparr>rr_id = 1, rr_json = js, rr_batched = False\<rparr>]"
    using AppendReceipt_Inr [OF st0(1)] by (auto simp: empty_db_def)
  have rw: "rw = \<lparr>rr_id = 1, rr_json = js, rr_batched = False\<rparr>" using st0(4) js(2) by (simp add: unbatched_def)
  have un: "unmarshal_receipt js = Inr sample_receipt"
    using unmarshal_receipt_marshal [OF sample_receipt_ok] js(1) by auto
  have n: "next_batch (NewBuilder ''k'' 0) st0 = [rw]"
    using st0(4) by (simp add: next_batch_def NewBuilder_def sql_limit_def)
  obtain cb where cb: "CanonicalBytes sample_receipt = Inr cb" using CanonicalBytes_Inr [OF sample_receipt_sane] by blast
  have l: "leafable (\<lambda>x. x) st0" "next_batch (NewBuilder ''k'' 0) st0 \<noteq> []"
    using st0 cb n by (simp_all add: leafable_def row_leaf_def receipt_leaf_def)
  obtain cp st where b: "BuildAndSign sqlite_store (\<lambda>x. x) toy_scheme (unix_time 100) (NewBuilder ''k'' 0) st0 = Some (Inr (Some cp), st)"
    using build_succeeds [OF st0(2) l] st0(4) by force
  have "ledger_reach (\<lambda>x. x) toy_scheme (NewBuilder ''k'' 0) st0"
    using ledger_reach.step [OF ledger_reach.start ledger_step.append [OF st0(1)]] .
  then have reach: "ledger_reach (\<lambda>x. x) toy_scheme (NewBuilder ''k'' 0) st" by (rule ledger_reach.step) (rule ledger_step.build [OF b])
  have "checkpoints st0 = []" using AppendReceipt_frame [OF st0(1)] by (simp add: empty_db_def)
  moreover have "checkpoints_seq st0 = 0"
    using st0(1) js(1) by (auto simp: AppendReceipt_def bind_op_def sql_def empty_db_def insert_receipt_def Let_def)
  ultimately obtain k where
    "checkpoints st = [k]" "ck_batch_start k = 1" "ck_batch_end k = 1" "receipts st = [\<lparr>rr_id = 1, rr_json = js, rr_batched = True\<rparr>]"
    "ck_id k = 1" "ck_tree_size k = 1"
    using build_success [OF b st0(2)] n rw js(2) map_res_Inr_length
    by (fastforce simp: Let_def mark_def row_of_def issued_def)
  with reach js(1) un that show ?thesis by blast
qed

section \<open>The receipts the server signs\<close>

lemma populate_Verified [simp]:
  "r_Verified (populateModelIdentity xl reg r bj) = r_Verified r"
  "r_Verified (populateEnergyFields est carbon region r) = r_Verified r"
  by (auto simp: populateModelIdentity_def populateEnergyFields_def Lookup_def Let_def split: sum.splits option.splits)

lemma fresh_Verified [simp]: "\<not> r_Verified (fresh_receipt al sv n req usage)"
  by (simp add: fresh_receipt_def zero_receipt_def)

text \<open>A built receipt: the signature is over the canonical bytes of a receipt that is not marked verified.\<close>

lemma buildReceipt_signed:
  assumes "buildReceipt al sv n req = Inr r"
  obtains r1 b where "\<not> r_Verified r1" "r_SignatureHex r1 = []" "CanonicalBytes r1 = Inr b"
    "r = r1\<lparr>r_SignatureHex := hex_encode (ed_sign (al_ed al) (sv_operatorPriv sv) b), r_Verified := True\<rparr>"
proof -
  obtain usage where u: "(case SignReceipt (al_ed al)
          (populateEnergyFields (sv_energyEst sv) (sv_carbonLookup sv) (sv_inferenceRegion sv)
            (populateModelIdentity (al_x509 al) (sv_modelReg sv) (fresh_receipt al sv n req usage) (ir_ModelSignatureBundle req)))
          (sv_operatorPriv sv) of (r3, e) \<Rightarrow> and_then e (\<lambda>_. Inr (r3\<lparr>r_Verified := True\<rparr>))) = Inr r"
    using assms unfolding buildReceipt_def and_then_Inr Let_def by blast
  define r2 where "r2 = populateEnergyFields (sv_energyEst sv) (sv_carbonLookup sv) (sv_inferenceRegion sv)
            (populateModelIdentity (al_x509 al) (sv_modelReg sv) (fresh_receipt al sv n req usage) (ir_ModelSignatureBundle req))"
  obtain r3 e where s: "SignReceipt (al_ed al) r2 (sv_operatorPriv sv) = (r3, e)" by (metis prod.exhaust)
  then have e: "e = Inr ()" and r: "r = r3\<lparr>r_Verified := True\<rparr>" using u by (auto simp: r2_def [symmetric] and_then_Inr)
  have r2: "\<not> r_Verified r2" by (simp add: r2_def)
  define r1 where "r1 = (if r_SignerType r2 = [] then r2\<lparr>r_SignerType := ''ed25519''\<rparr> else r2)\<lparr>r_SignatureHex := []\<rparr>"
  have "\<not> r_Verified r1" "r_SignatureHex r1 = []" using r2 by (simp_all add: r1_def)
  moreover obtain b where "CanonicalBytes r1 = Inr b"
    "r3 = r1\<lparr>r_SignatureHex := hex_encode (ed_sign (al_ed al) (sv_operatorPriv sv) b)\<rparr>"
    using s e by (auto simp: SignReceipt_def r1_def [symmetric] Let_def split: sum.splits)
  ultimately show ?thesis using r that by auto
qed

lemma VerifyReceipt_parts:
  assumes "VerifyReceipt c r pk = Inr ()"
  obtains sig b where "hex_decode (r_SignatureHex r) = Some sig" "CanonicalBytes r = Inr b" "ed_verify c pk b sig"
  using assms by (auto simp: VerifyReceipt_def split: if_splits option.splits sum.splits)

definition toy_request :: ingest_request where
  "toy_request = zero_ingest\<lparr>ir_Provider := ''generic'', ir_Model := ''m'', ir_ResponseBody := chat_body ''chat-1'' 120 80\<rparr>"

lemma toy_receipt: "\<exists>r. buildReceipt toy_api toy_server 0 toy_request = Inr r \<and> receipt_ok r"
proof -
  let ?u = "zero_usage\<lparr>u_InputTokens := 120, u_OutputTokens := 80, u_RequestID := ''chat-1''\<rparr>"
  have u: "pa_ParseUsage GenericAdapter (chat_body ''chat-1'' 120 80) = Inr ?u"
    unfolding GenericAdapter_def by (simp add: generic_reads valid_utf8_ascii int64_def del: valid_utf8.simps)
  let ?f = "fresh_receipt toy_api toy_server 0 toy_request ?u"
  have m: "populateModelIdentity toy_x509 NewModelRegistry ?f [] = ?f"
    by (simp add: populateModelIdentity_def Lookup_def NewModelRegistry_def loadWellKnown_def wellKnown_def known_def
        fresh_receipt_def toy_request_def)
  have e: "populateEnergyFields NewBenchmarkEstimator cl [] ?f = ?f\<lparr>r_EnergySource := SourceNone\<rparr>" for cl
    by (simp add: populateEnergyFields_def Estimate_def NewBenchmarkEstimator_def fresh_receipt_def toy_request_def)
  define r2 where "r2 = ?f\<lparr>r_EnergySource := SourceNone\<rparr>"
  have "time_ok (unix_time 1768473000)" by code_simp
  then have "time_ok (utc (unix_time 1768473000))" by (simp add: utc_def unix_time_def)
  moreover have "valid_utf8 (hashBytes (\<lambda>x. x) b)" for b by (simp add: hashBytes_def valid_utf8_hex)
  ultimately have ok: "receipt_ok r2"
    by (simp add: r2_def receipt_ok_def fresh_receipt_def toy_request_def zero_ingest_def zero_receipt_def SourceNone_def
        valid_utf8_ascii valid_utf8_hex int64_def float_ok_def is_f64_def is_finite_def del: valid_utf8.simps hex_encode.simps)
  then have "sane_floats r2" by (simp add: receipt_ok_def sane_floats_def float_ok_def)
  from SignReceipt_parts [OF this, of toy_scheme "''k''"] obtain r1 b where
    s: "SignReceipt toy_scheme r2 ''k'' = (r1\<lparr>r_SignatureHex := hex_encode (ed_sign toy_scheme ''k'' b)\<rparr>, Inr ())" and
    r1: "r1 = (if r_SignerType r2 = [] then r2\<lparr>r_SignerType := ''ed25519''\<rparr> else r2)\<lparr>r_SignatureHex := []\<rparr>" by blast
  have "receipt_ok (r1\<lparr>r_SignatureHex := hex_encode (ed_sign toy_scheme ''k'' b), r_Verified := True\<rparr>)"
    using ok unfolding r1 receipt_ok_def by (simp add: valid_utf8_hex valid_utf8_ascii del: valid_utf8.simps)
  moreover have "buildReceipt toy_api toy_server 0 toy_request =
      Inr (r1\<lparr>r_SignatureHex := hex_encode (ed_sign toy_scheme ''k'' b), r_Verified := True\<rparr>)"
    using u m e s unfolding r2_def
    by (simp add: buildReceipt_def generic_found toy_request_def [of] Let_def zero_ingest_def)
  ultimately show ?thesis by blast
qed

section \<open>Batches\<close>

lemma build_items_length: "build_items al sv items a = (Inr rs, a') \<Longrightarrow> length rs = length items"
proof (induction items arbitrary: a rs)
  case (Cons item items)
  then obtain r as a1 where "build_items al sv items a1 = (Inr as, a')" "rs = r # as"
    by (auto simp: bind_op_Inr)
  with Cons.IH show ?case by simp
qed (simp add: ret_op_def)

lemma batch_rows:
  "AppendReceiptsBatch rs st = (x, st') \<Longrightarrow>
     \<exists>rows. receipts st' = receipts st @ rows \<and> (rows = [] \<or> length rows = length rs)"
proof -
  assume "AppendReceiptsBatch rs st = (x, st')"
  from AppendReceiptsBatch_cases [OF this] show ?thesis
  proof (elim disjE exE conjE)
    assume "tables st' = tables st"
    then show ?thesis by (metis append_Nil2 tables_sel(1))
  next
    fix ids st1 st2
    assume a: "tables st1 = tables st" "append_loop rs st1 = (Inr ids, st2)" "tables st' = tables st2"
    then have "receipts st1 = receipts st" "receipts st' = receipts st2" by (metis tables_sel(1))+
    with append_loop_Inr [OF a(2)] show ?thesis by (auto dest: map_res_Inr_length)
  qed
qed

lemma handleIngestBatch_rows:
  assumes "sv_store sv = sqlite_store" and "handleIngestBatch al sv r w a = Some (w', a')"
  shows "\<exists>rows. receipts (ap_store a') = receipts (ap_store a) @ rows \<and>
     (rows = [] \<or> (\<exists>items. decode_limited (10 * 2 ^ 20) decode_batch (rq_body r) = Decoded (Inr items) \<and>
                           length rows = length items \<and> length items \<le> maxBatchItems))"
proof (cases "decode_limited (10 * 2 ^ 20) decode_batch (rq_body r)")
  case TooLarge
  with assms(2) show ?thesis by (simp add: handleIngestBatch_def fail_def)
next
  case (Decoded x)
  show ?thesis
  proof (cases "\<exists>items. x = Inr items \<and> items \<noteq> [] \<and> length items \<le> maxBatchItems")
    case False
    with Decoded assms(2) have "ap_store a' = ap_store a"
      by (cases x) (auto simp: handleIngestBatch_def check_def fail_def wrap_err_def split: if_splits)
    then show ?thesis by simp
  next
    case True
    then obtain items where items: "x = Inr items" "items \<noteq> []" "length items \<le> maxBatchItems" by blast
    obtain y a1 where y: "build_items al sv items a = (y, a1)" by (metis prod.exhaust)
    have a1: "ap_store a1 = ap_store a" by (rule build_items_store [OF y])
    show ?thesis
    proof (cases y)
      case (Inl e)
      with Decoded items y assms(2) a1 show ?thesis
        by (simp add: handleIngestBatch_def check_def fail_def wrap_err_def)
    next
      case (Inr rs)
      obtain z s where z: "AppendReceiptsBatch rs (ap_store a) = (z, s)" by (metis prod.exhaust)
      have "ap_store a' = s"
        using Decoded items y Inr assms z a1
        by (auto simp: handleIngestBatch_def check_def fail_def wrap_err_def call_def on_store_def wrap_op_def send_def
            split: sum.splits)
      with batch_rows [OF z] Decoded items build_items_length [of al sv items a rs a1] y Inr show ?thesis by auto
    qed
  qed
qed

section \<open>A batch of one item\<close>

text \<open>The text of a request, \<open>~\<close> standing for the quotation mark.\<close>

definition quoted_text :: "bytes \<Rightarrow> bytes" where
  "quoted_text s = map (\<lambda>c. if c = CHR ''~'' then quote else c) s"

definition item_text :: bytes where
  "item_text = quoted_text ''{~provider~:~generic~,~model~:~m~,~response_body~:{~id~:~chat-1~,~usage~:{~prompt_tokens~:120,~completion_tokens~:80}}}''"

definition batch_text :: bytes where
  "batch_text = quoted_text ''{~items~:['' @ item_text @ '']}''"

lemma batch_first: "map_option snd (json_first batch_text) = Some batch_text"
  by code_simp

lemma batch_members: "raw_members (length batch_text) (drop 1 (skip_ws batch_text)) = [(''items'', CHR ''['' # item_text @ '']'')]"
  by code_simp

lemma batch_object: "(case json_parse batch_text of Some (JObj _) \<Rightarrow> True | _ \<Rightarrow> False)"
  by code_simp

lemma batch_elements: "dec_raw_list Inr (CHR ''['' # item_text @ '']'') = Inr [item_text]"
  by code_simp

lemma item_members: "raw_members (length item_text) (drop 1 (skip_ws item_text)) = [(''provider'', quoted_text ''~generic~''), (''model'', quoted_text ''~m~''), (''response_body'', chat_body ''chat-1'' 120 80)]"
  by code_simp

lemma item_object: "(case json_parse item_text of Some (JObj _) \<Rightarrow> True | _ \<Rightarrow> False)"
  by code_simp

lemma item_strings: "json_parse (quoted_text ''~generic~'') = Some (JStr ''generic'')" "json_parse (quoted_text ''~m~'') = Some (JStr ''m'')"
  by code_simp+

lemma batch_values: "json_parse (CHR ''['' # item_text @ '']'') \<noteq> None"  "json_parse (chat_body ''chat-1'' 120 80) \<noteq> None"
  by code_simp+

lemma batch_lookup: "lookup_raw batch_fields ''items'' = Some (\<lambda>raw _ old. and_then (dec_raw_list Inr raw) (decode_items old))"
  by (simp add: batch_fields_def, code_simp)

lemma plain_ingest: "plain_key ''provider''" "plain_key ''tenant''" "plain_key ''model''" "plain_key ''response_body''"
  "plain_key ''generic''" "plain_key ''m''"
  by (simp_all add: plain_key_def plain_char_def)

lemma ingest_lookup:
  "lookup_raw ingest_fields ''provider'' = Some (plain (fld dec_str (\<lambda>x r. r\<lparr>ir_Provider := x\<rparr>)))"
  "lookup_raw ingest_fields ''model'' = Some (plain (fld dec_str (\<lambda>x r. r\<lparr>ir_Model := x\<rparr>)))"
  "lookup_raw ingest_fields ''response_body'' = Some (\<lambda>raw _ r. Inr (r\<lparr>ir_ResponseBody := raw\<rparr>))"
  by (simp_all add: ingest_fields_def key_matches_plain plain_ingest)

lemma item_decodes: "dec_raw_object ingest_fields zero_ingest item_text = Inr toy_request"
proof -
  obtain ms where "json_parse item_text = Some (JObj ms)" using item_object by (auto split: option.splits jval.splits)
  then have "dec_raw_object ingest_fields zero_ingest item_text = decode_raw_members ingest_fields
      [(''provider'', quoted_text ''~generic~''), (''model'', quoted_text ''~m~''), (''response_body'', chat_body ''chat-1'' 120 80)] zero_ingest"
    unfolding dec_raw_object_def item_members by simp
  moreover obtain v where "json_parse (chat_body ''chat-1'' 120 80) = Some v" using batch_values(2) by blast
  moreover have "unquote ''generic'' = ''generic''" "unquote ''m'' = ''m''" by (rule plain_unquote, rule plain_ingest)+
  then have "plain (fld dec_str (\<lambda>x r. r\<lparr>ir_Provider := x\<rparr>)) raw (JStr ''generic'') q = Inr (q\<lparr>ir_Provider := ''generic''\<rparr>)"
    "plain (fld dec_str (\<lambda>x r. r\<lparr>ir_Model := x\<rparr>)) raw (JStr ''m'') q = Inr (q\<lparr>ir_Model := ''m''\<rparr>)" for raw and q :: ingest_request
    by (simp_all only: plain_def fld_def set_field_def dec_str_def jval.case sum.case jval.distinct if_False)
  ultimately show ?thesis
    by (simp only: decode_raw_members.simps ingest_lookup item_strings option.case and_then_def sum.case) (simp add: toy_request_def zero_ingest_def)
qed

lemma batch_decodes: "decode_limited (10 * 2 ^ 20) decode_batch batch_text = Decoded (Inr [toy_request])"
proof -
  have len: "length batch_text \<le> 10 * 2 ^ 20" by (simp add: batch_text_def item_text_def quoted_text_def)
  obtain v where "json_first (take (10 * 2 ^ 20) batch_text) = Some (v, batch_text)" using batch_first len by auto
  moreover obtain ms where "json_parse batch_text = Some (JObj ms)" using batch_object by (auto split: option.splits jval.splits)
  then have "decode_batch batch_text = decode_raw_members batch_fields [(''items'', CHR ''['' # item_text @ '']'')] []"
    unfolding decode_batch_def dec_raw_object_def batch_members by simp
  moreover obtain z where "json_parse (CHR ''['' # item_text @ '']'') = Some z" using batch_values(1) by blast
  ultimately show ?thesis
    by (simp add: decode_limited_def batch_lookup batch_elements item_decodes)
qed

section \<open>Properties\<close>

text \<open>C29. A GET or HEAD request, whatever its path, parameters and headers, and whichever database calls fail,
  changes no table of the SQLite store.\<close>

theorem get_changes_nothing:
  assumes "sv_store sv = sqlite_store" and "rq_method r = ''GET'' \<or> rq_method r = ''HEAD''"
    and "Handler al sv r w a = Some (w', a')"
  shows "tables (ap_store a') = tables (ap_store a)"
proof -
  have "reply_keeps (\<lambda>st. tables st = tables (ap_store a)) (Handler al sv r w a)"
  proof (rule Handler_keeps)
    fix m ps h assume h: "(m, ps, h) \<in> set (Routes al sv)" "method_ok m (rq_method r)"
    have "m = ''GET''" using get_routes [OF h(1)] h(2) assms(2) by auto
    with h(1) have "(''GET'', ps, h) \<in> set (Routes al sv)" by simp
    from get_handlers [OF this] same_tables.read_handlers_keep [OF assms(1), where t = "tables (ap_store a)"]
      same_tables.health_keeps [OF assms(1), where t = "tables (ap_store a)"]
    show "handler_keeps (\<lambda>st. tables st = tables (ap_store a)) h" by blast
  qed simp
  with assms(3) show ?thesis by (simp add: reply_keeps_def)
qed

theorem get_changes_nothing_witness:
  "\<exists>w a. Handler toy_api toy_server (request ''GET'' [''v1'', ''stats''] []) new_writer (fresh_api empty_db) = Some (w, a) \<and>
         tables (ap_store a) = tables empty_db"
proof -
  obtain w a where h: "Handler toy_api toy_server (request ''GET'' [''v1'', ''stats''] []) new_writer (fresh_api empty_db) = Some (w, a)"
    using toy_stats by blast
  have "tables (ap_store a) = tables (ap_store (fresh_api empty_db))"
    by (rule get_changes_nothing [OF _ _ h]) (simp_all add: request_def)
  with h show ?thesis by (simp add: fresh_api_def)
qed

text \<open>Whatever requests the server answers, in whatever order, its database is one the ledger reaches: the
  server refines the ledger's state machine, so every invariant of its reachable states holds of the server.\<close>

theorem server_refines_ledger:
  assumes "sv_store sv = sqlite_store" and "sv_builder sv = Some b" and "api_reach al sv a"
  shows "ledger_reach (al_sha al) (al_ed al) b (ap_store a)"
  using assms(3)
proof (induction rule: api_reach.induct)
  case (fresh a)
  then show ?case by (simp add: ledger_reach.start)
next
  case (answer a r w w' a')
  from ledger_run.server_keeps [OF assms(1,2) refl refl answer.IH, of r w] answer.hyps(2)
  show ?case by (simp add: reply_keeps_def)
qed

theorem server_refines_ledger_witness:
  "\<exists>w a. Handler toy_api toy_server (request ''POST'' [''v1'', ''checkpoints'', ''build''] []) new_writer (fresh_api empty_db) =
           Some (w, a) \<and> ledger_reach (\<lambda>x. x) toy_scheme (NewBuilder ''k'' 0) (ap_store a)"
proof -
  obtain w a where h: "Handler toy_api toy_server (request ''POST'' [''v1'', ''checkpoints'', ''build''] []) new_writer
      (fresh_api empty_db) = Some (w, a)"
    using toy_build by blast
  have "api_reach toy_api toy_server (fresh_api empty_db)" by (rule api_reach.fresh) (simp add: fresh_api_def)
  then have "api_reach toy_api toy_server a" using h by (rule api_reach.answer)
  from server_refines_ledger [OF toy_server_sel(1,2) this] h show ?thesis by auto
qed

lemma sample_served:
  obtains st w a k js where "ledger_reach (\<lambda>x. x) toy_scheme (NewBuilder ''k'' 0) st" "checkpoints st = [k]"
    "receipts st = [\<lparr>rr_id = 1, rr_json = js, rr_batched = True\<rparr>]" "unmarshal_receipt js = Inr sample_receipt"
    "ck_id k = 1" "ck_tree_size k = 1"
    "handleInclusionProof toy_api toy_server ((request ''GET'' [] [])\<lparr>rq_values := [(''id'', ''rec-1'')]\<rparr>) new_writer (fresh_api st) = Some (w, a)"
    "wr_sent w = Some (200, [(''Content-Type'', ''application/json'')])"
proof -
  obtain st k js where st: "ledger_reach (\<lambda>x. x) toy_scheme (NewBuilder ''k'' 0) st" "checkpoints st = [k]"
    "receipts st = [\<lparr>rr_id = 1, rr_json = js, rr_batched = True\<rparr>]" "marshal_receipt sample_receipt = Inr js"
    "unmarshal_receipt js = Inr sample_receipt" "ck_batch_start k = 1" "ck_batch_end k = 1"
    "ck_id k = 1" "ck_tree_size k = 1" by (rule sample_ledger)
  let ?r = "(request ''GET'' [] [])\<lparr>rq_values := [(''id'', ''rec-1'')]\<rparr>"
  have f: "db_faults st = []" by (rule reach_healthy [OF st(1)])
  have i: "r_ID sample_receipt = ''rec-1''" by (simp add: sample_receipt_def)
  have x: "json_extract_id js = Inr (Some ''rec-1'')" using extract_marshalled [OF sample_receipt_ok st(4)] i by simp
  have g: "GetReceiptByID ''rec-1'' st = (Inr (Some \<lparr>sr_RowID = 1, sr_Receipt = sample_receipt\<rparr>), st)"
    using f st(3,5) x by (simp add: GetReceiptByID_def bind_op_def wrap_op_def)
  have c: "GetCheckpointForRow 1 st = (Inr (Some (scanCheckpointRow k)), st)"
    using f st(2,6,7) by (simp add: GetCheckpointForRow_def scanCheckpoint_def)
  have rs: "GetReceiptsByRange 1 1 st = (Inr [sample_receipt], st)"
    using f st(3,5) by (simp add: GetReceiptsByRange_healthy unmarshal_row_def)
  obtain cb where cb: "CanonicalBytes sample_receipt = Inr cb" using CanonicalBytes_Inr [OF sample_receipt_sane] by blast
  have lv: "buildLeavesAndIndex (\<lambda>x. x) [sample_receipt] ''rec-1'' = Inr ([HashLeaf (\<lambda>x. x) cb], 0)"
    using cb i by (simp add: buildLeavesAndIndex_def leavesFromReceipts_def leafFromReceipt_def)
  obtain p where p: "InclusionProof (\<lambda>x. x) [HashLeaf (\<lambda>x. x) cb] 0 = Some (Inr p)"
    using tree.verifiable [of "[HashLeaf (\<lambda>x. x) cb]" 0 "\<lambda>x. x"] by (auto simp: fits_def)
  obtain w a where h: "handleInclusionProof toy_api toy_server ?r new_writer (fresh_api st) = Some (w, a)"
    and ok: "wr_sent w = Some (200, [(''Content-Type'', ''application/json'')])"
    using g c rs lv p st(6,7)
    by (auto simp: handleInclusionProof_def with_receipt_def call_def on_store_def wrap_op_def fresh_api_def check_def
        get_or_empty_def findCheckpointForRow_def prove_in_def scanCheckpointRow_def send_def writeJSON_def
        encode_json_def write_body_def write_header_def set_header_def new_writer_def split: sum.splits)
  show ?thesis by (rule that [OF st(1-3,5,8,9) h ok])
qed

lemma served_proof:
  assumes "sv_store sv = sqlite_store" and "ledger_reach (al_sha al) c b (ap_store a)"
    and "length (receipts (ap_store a)) \<le> 2 ^ 62"
    and "handleInclusionProof al sv r new_writer a = Some (w', a')" and "wr_sent w' = Some (200, hs)"
  shows "\<exists>k \<in> set (checkpoints (ap_store a)). \<exists>rs leaves rt i p.
    map_res unmarshal_row (in_range k (ap_store a)) = Inr rs \<and> i < length rs \<and>
    r_ID (rs ! i) = get_or_empty (rq_values r) ''id'' \<and> leafFromReceipt (al_sha al) (rs ! i) = Inr (leaves ! i) \<and>
    FormatRoot rt = ck_root_hex k \<and>
    VerifyInclusion (al_sha al) (leaves ! i) rt (int i) (ck_tree_size k) p = Some True \<and>
    list_all (\<lambda>h. length h = 32) p \<and> length rt = 32 \<and>
    wr_body w' = inclusion_body (scanCheckpointRow k) (get_or_empty (rq_values r) ''id'') (int i) p"
proof -
  let ?st = "ap_store a" and ?n = "get_or_empty (rq_values r) ''id''"
  have f: "db_faults ?st = []" by (rule reach_healthy [OF assms(2)])
  note ok = assms(5) and ans = assms(4) [unfolded handleInclusionProof_def Let_def with_receipt_def assms(1)
      sqlite_store_sel findCheckpointForRow_def]
  from call_200 [OF ans ok] obtain sr s1 where
    g: "wrap_op ''fetch receipt'' (GetReceiptByID ?n) ?st = (Inr sr, s1)" and
    k1: "(case sr of None \<Rightarrow> fail 404 ''receipt not found'' new_writer (a\<lparr>ap_store := s1\<rparr>)
      | Some x \<Rightarrow> call (wrap_op ''find checkpoint'' (GetCheckpointForRow (sr_RowID x))) 500 new_writer (a\<lparr>ap_store := s1\<rparr>)
          (\<lambda>cp a. case cp of
             None \<Rightarrow> fail 404 ''receipt has not been batched into a checkpoint yet'' new_writer a
           | Some c \<Rightarrow> prove_in al sv ?n new_writer c a)) = Some (w', a')"
    by auto
  have s1: "s1 = ?st" using g GetReceiptByID_state [OF f] by (auto simp: wrap_op_Inr)
  obtain x where x: "sr = Some x" using k1 fail_not_200 [OF _ ok] by (cases sr) fastforce+
  have ne: "(500 :: int) \<noteq> 200" by simp
  from call_200 [OF k1 [unfolded x option.case] ok ne] obtain cp s2 where
    cp: "wrap_op ''find checkpoint'' (GetCheckpointForRow (sr_RowID x)) (ap_store (a\<lparr>ap_store := s1\<rparr>)) = (Inr cp, s2)" and
    k2: "(case cp of
             None \<Rightarrow> fail 404 ''receipt has not been batched into a checkpoint yet'' new_writer (a\<lparr>ap_store := s1, ap_store := s2\<rparr>)
           | Some c \<Rightarrow> prove_in al sv ?n new_writer c (a\<lparr>ap_store := s1, ap_store := s2\<rparr>)) = Some (w', a')"
    by blast
  have s2: "s2 = ?st"
    "cp = scanCheckpoint (List.find (\<lambda>k. ck_batch_start k \<le> sr_RowID x \<and> ck_batch_end k \<ge> sr_RowID x) (checkpoints ?st))"
    using cp f s1 by (auto simp: wrap_op_Inr GetCheckpointForRow_def)
  have "cp \<noteq> None" using k2 fail_not_200 [OF _ ok] by (cases cp) fastforce+
  then obtain k where fd: "List.find (\<lambda>k. ck_batch_start k \<le> sr_RowID x \<and> ck_batch_end k \<ge> sr_RowID x) (checkpoints ?st) = Some k"
    and "cp = Some (scanCheckpointRow k)"
    using s2(2) by (auto simp: scanCheckpoint_def)
  moreover have "k \<in> set (checkpoints ?st)" using fd by (auto simp: find_Some_iff)
  ultimately have k: "k \<in> set (checkpoints ?st)" "cp = Some (scanCheckpointRow k)" by simp_all
  with k2 have "prove_in al sv ?n new_writer (scanCheckpointRow k) (a\<lparr>ap_store := s1, ap_store := s2\<rparr>) = Some (w', a')" by simp
  from prove_in_200 [OF assms(1) reach_inv [OF assms(2)] k(1) assms(3) _ this ok] s2(1) show ?thesis
    by (intro bexI [OF _ k(1)]) simp
qed



text \<open>C31. A receipt the server signs does not verify: \<^verbatim>\<open>Verified\<close> is set after the signature was made, although the
  canonical bytes hold it. Whatever the request, if no signature is valid for two messages under the operator's key,
  \<^verbatim>\<open>VerifyReceipt\<close> rejects the receipt that \<^verbatim>\<open>POST /v1/receipts\<close> stores and returns.\<close>

theorem ingested_receipt_rejected:
  assumes "buildReceipt al sv n req = Inr r" and "receipt_ok r"
    and "\<And>m. ed_correct (al_ed al) (sv_operatorPriv sv) m" and "ed_public (al_ed al) (sv_operatorPriv sv) = pk"
    and "\<And>m m' sig. ed_verify (al_ed al) pk m sig \<Longrightarrow> ed_verify (al_ed al) pk m' sig \<Longrightarrow> m = m'"
  shows "VerifyReceipt (al_ed al) r pk \<noteq> Inr ()"
proof
  assume v: "VerifyReceipt (al_ed al) r pk = Inr ()"
  obtain r1 b where r1: "\<not> r_Verified r1" "r_SignatureHex r1 = []" "CanonicalBytes r1 = Inr b"
    "r = r1\<lparr>r_SignatureHex := hex_encode (ed_sign (al_ed al) (sv_operatorPriv sv) b), r_Verified := True\<rparr>"
    by (rule buildReceipt_signed [OF assms(1)])
  have "ed_verify (al_ed al) pk b (ed_sign (al_ed al) (sv_operatorPriv sv) b)"
    using assms(3) [of b] assms(4) by (simp add: ed_correct_def)
  moreover obtain sig b' where b': "hex_decode (r_SignatureHex r) = Some sig" "CanonicalBytes r = Inr b'"
    "ed_verify (al_ed al) pk b' sig" by (rule VerifyReceipt_parts [OF v])
  moreover have "sig = ed_sign (al_ed al) (sv_operatorPriv sv) b" using b'(1) r1(4) by (simp add: hex_decode_encode)
  ultimately have "CanonicalBytes r1 = CanonicalBytes r" using assms(5) r1(3) b'(2,3) by simp
  moreover have "receipt_ok r1" using assms(2) r1(2,4) by (simp add: receipt_ok_def)
  ultimately have "r1\<lparr>r_SignatureHex := []\<rparr> = r\<lparr>r_SignatureHex := []\<rparr>" using canonical_eq assms(2) by blast
  then have "r_Verified r1 = r_Verified r" by (cases r; cases r1) simp
  with r1(1,4) show False by simp
qed

theorem ingested_receipt_rejected_witness:
  "\<exists>r. buildReceipt toy_api toy_server 0 toy_request = Inr r \<and> VerifyReceipt toy_scheme r ''k'' \<noteq> Inr ()"
proof -
  obtain r where r: "buildReceipt toy_api toy_server 0 toy_request = Inr r" "receipt_ok r" using toy_receipt by blast
  have "VerifyReceipt (al_ed toy_api) r ''k'' \<noteq> Inr ()"
    by (rule ingested_receipt_rejected [OF r]) (simp_all add: toy_correct, simp_all add: toy_scheme_def)
  with r show ?thesis by auto
qed

text \<open>C32. \<^verbatim>\<open>POST /v1/receipts/batch\<close> stores all the items of the request or none, and never more than 500, whatever the
  body and whichever database calls fail.\<close>

theorem batch_bounded:
  assumes "sv_store sv = sqlite_store" and "handleIngestBatch al sv r w a = Some (w', a')"
  shows "\<exists>rows. receipts (ap_store a') = receipts (ap_store a) @ rows \<and> length rows \<le> 500 \<and>
     (rows \<noteq> [] \<longrightarrow> (\<exists>items. decode_limited (10 * 2 ^ 20) decode_batch (rq_body r) = Decoded (Inr items) \<and>
                            length rows = length items))"
proof -
  from handleIngestBatch_rows [OF assms] obtain rows where
    "receipts (ap_store a') = receipts (ap_store a) @ rows"
    "rows = [] \<or> (\<exists>items. decode_limited (10 * 2 ^ 20) decode_batch (rq_body r) = Decoded (Inr items) \<and>
                           length rows = length items \<and> length items \<le> maxBatchItems)" by blast
  then show ?thesis by (auto simp: maxBatchItems_def)
qed

theorem batch_bounded_witness:
  "\<exists>w a. handleIngestBatch toy_api toy_server ((request ''POST'' [] [])\<lparr>rq_body := batch_text\<rparr>) new_writer (fresh_api empty_db) = Some (w, a) \<and>
         length (receipts (ap_store a)) = 1 \<and>
         (\<exists>items. decode_limited (10 * 2 ^ 20) decode_batch batch_text = Decoded (Inr items) \<and> length items = 1)"
proof -
  let ?rq = "(request ''POST'' [] [])\<lparr>rq_body := batch_text\<rparr>"
  obtain r where r: "buildReceipt toy_api toy_server 0 toy_request = Inr r" "receipt_ok r" using toy_receipt by blast
  obtain js where js: "marshal_receipt r = Inr js" using unmarshal_receipt_marshal [OF r(2)] by blast
  have d: "decode_limited (10 * 2 ^ 20) decode_batch (rq_body ?rq) = Decoded (Inr [toy_request])" using batch_decodes by simp
  have b: "build_items toy_api toy_server [toy_request] (fresh_api empty_db) = (Inr [r], (fresh_api empty_db)\<lparr>ap_calls := 1\<rparr>)"
    using r(1) by (simp add: bind_op_def wrap_op_def lift_op_def next_receipt_def fresh_api_def validateIngestRequest_def toy_request_def zero_ingest_def chat_body_def)
  have st: "AppendReceiptsBatch [r] empty_db = (Inr [1], snd (insert_receipt js empty_db))"
    using js by (simp add: AppendReceiptsBatch_def bind_op_def wrap_op_def query_def sql_def rollback_to_def empty_db_def insert_receipt_def Let_def)
  have "\<exists>w a. handleIngestBatch toy_api toy_server ?rq new_writer (fresh_api empty_db) = Some (w, a) \<and> length (receipts (ap_store a)) = 1"
    using d b st by (simp add: handleIngestBatch_def check_def call_def on_store_def wrap_op_def maxBatchItems_def send_def fresh_api_def insert_receipt_def empty_db_def toy_server_sel)
  then obtain w a where h: "handleIngestBatch toy_api toy_server ?rq new_writer (fresh_api empty_db) = Some (w, a)"
    "length (receipts (ap_store a)) = 1" by blast
  with batch_bounded [OF toy_server_sel(1) h(1)] show ?thesis by (fastforce simp: fresh_api_def empty_db_def)
qed

end
