(* ===== verification/Tokenizer.thy ===== *)
theory Tokenizer
  imports Provider
begin

text \<open>
  \<^verbatim>\<open>internal/tokenizer\<close>: the wrapper of the Rust tokenizer. The C function is a parameter that takes the two
  C strings and gives a C string or \<^verbatim>\<open>NULL\<close>; a C string ends at its first NUL.
\<close>

record tokenize_result =
  tk_TokenCount :: int
  tk_BoundaryRootHex :: bytes
  tk_TokenizerHash :: bytes
  tk_Verified :: bool

definition c_string :: "bytes \<Rightarrow> bytes" where
  "c_string s = takeWhile (\<lambda>c. code c \<noteq> 0) s"

definition unverified :: tokenize_result where
  "unverified = \<lparr>tk_TokenCount = 0, tk_BoundaryRootHex = [], tk_TokenizerHash = [], tk_Verified = False\<rparr>"

definition rust_fields :: "tokenize_result fields" where
  "rust_fields =
     [(''token_count'', fld dec_int64 (\<lambda>x r. r\<lparr>tk_TokenCount := x\<rparr>)),
      (''boundary_root_hex'', fld dec_str (\<lambda>x r. r\<lparr>tk_BoundaryRootHex := x\<rparr>)),
      (''tokenizer_hash'', fld dec_str (\<lambda>x r. r\<lparr>tk_TokenizerHash := x\<rparr>))]"

text \<open>The result comes with every error too.\<close>

definition Tokenize :: "(bytes \<Rightarrow> bytes \<Rightarrow> bytes option) \<Rightarrow> bytes \<Rightarrow> bytes \<Rightarrow> tokenize_result \<times> goerr option" where
  "Tokenize siqlah_tokenize text tokenizerJSON =
     (case siqlah_tokenize (c_string text) (c_string tokenizerJSON) of
        None \<Rightarrow> (unverified, Some (Err ''siqlah_tokenize returned nil''))
      | Some raw \<Rightarrow>
          (case unmarshal_with (dec_object rust_fields unverified) (c_string raw) of
             Inl e \<Rightarrow> (unverified, Some (Wrap ''unmarshal result'' e))
           | Inr rr \<Rightarrow> (rr\<lparr>tk_Verified := True\<rparr>, None)))"

section \<open>Lemmas\<close>

lemma Tokenize_verified: "tk_Verified (fst (Tokenize f text js)) \<longleftrightarrow> snd (Tokenize f text js) = None"
  by (simp add: Tokenize_def unverified_def split: option.splits sum.splits)

lemma Tokenize_total: "snd (Tokenize f text js) \<noteq> None \<Longrightarrow> fst (Tokenize f text js) = unverified"
  by (auto simp: Tokenize_def split: option.splits sum.splits)

end
