(* ===== verification/GoOs.thy ===== *)
theory GoOs
  imports GoHttp
begin

text \<open>
  What the commands and daemons use of Go: fixed-point printing of a float, \<^verbatim>\<open>time.Duration\<close> as
  nanoseconds with its text, the process (files, standard output and error, log, network), and the flags
  of a command line.
\<close>

section \<open>Printing numbers\<close>

text \<open>\<^verbatim>\<open>%.nf\<close>: the exact value, rounded half to even at \<open>n\<close> digits.\<close>

definition fmt_fixed :: "nat \<Rightarrow> f64 \<Rightarrow> bytes" where
  "fmt_fixed n x =
     (case x of
        NaN \<Rightarrow> ''NaN'' | PInf \<Rightarrow> ''+Inf'' | NInf \<Rightarrow> ''-Inf''
      | _ \<Rightarrow>
          (let k = nat (round_half_even (\<bar>fval x\<bar> * 10 ^ n))
           in (if neg_bit x then ''-'' else []) @ itoa_nat (k div 10 ^ n) @
              (if n = 0 then [] else ''.'' @ pad_zero n (itoa_nat (k mod 10 ^ n)))))"

section \<open>Durations\<close>

definition second :: int where "second = 1000000000"

text \<open>\<open>fraction\<close> of \<open>v\<close> after a decimal point at \<open>prec\<close> digits, trailing zeros dropped, and what is before it.\<close>

definition fmt_frac :: "nat \<Rightarrow> int \<Rightarrow> bytes" where
  "fmt_frac prec v = itoa (v div 10 ^ prec) @ fraction (v mod 10 ^ prec * 10 ^ (9 - prec))"

definition duration_text :: "int \<Rightarrow> bytes" where
  "duration_text d =
     (let u = \<bar>d\<bar>;
          s = (if u = 0 then ''0s''
               else if u < 1000 then itoa u @ ''ns''
               else if u < 1000000 then fmt_frac 3 u @ [char_of (194 :: nat), char_of (181 :: nat)] @ ''s''
               else if u < second then fmt_frac 6 u @ ''ms''
               else let m = u div (60 * second); r = fmt_frac 9 (u mod (60 * second)) @ ''s''
                    in if m = 0 then r
                       else let r' = itoa (m mod 60) @ ''m'' @ r
                            in if m div 60 = 0 then r' else itoa (m div 60) @ ''h'' @ r')
      in (if d < 0 then ''-'' else []) @ s)"

definition duration_units :: "(bytes \<times> nat) list" where
  "duration_units =
     [(''ns'', 1), (''us'', 1000), ([char_of (194 :: nat), char_of (181 :: nat)] @ ''s'', 1000),
      ([char_of (206 :: nat), char_of (188 :: nat)] @ ''s'', 1000), (''ms'', 1000000), (''s'', 1000000000),
      (''m'', 60000000000), (''h'', 3600000000000)]"

text \<open>\<^verbatim>\<open>leadingInt\<close> fails above \<open>2 ^ 63\<close>; \<^verbatim>\<open>leadingFraction\<close> keeps the digits that fit and their scale.\<close>

definition leading_int :: "bytes \<Rightarrow> nat option" where
  "leading_int ds = (if digits_val ds \<le> 2 ^ 63 then Some (digits_val ds) else None)"

fun leading_fraction :: "bytes \<Rightarrow> nat \<Rightarrow> nat \<Rightarrow> nat \<times> nat" where
  "leading_fraction [] x scale = (x, scale)"
| "leading_fraction (c # ds) x scale =
     (if x > (2 ^ 63 - 1) div 10 \<or> x * 10 + digit_val c > 2 ^ 63 then (x, scale)
      else leading_fraction ds (x * 10 + digit_val c) (scale * 10))"

definition unit_char :: "char \<Rightarrow> bool" where
  "unit_char c = (c \<noteq> CHR ''.'' \<and> \<not> is_digit c)"

definition truncate :: "f64 \<Rightarrow> nat" where
  "truncate x = nat \<lfloor>fval x\<rfloor>"

text \<open>One number with its unit: the nanoseconds and the rest of the text.\<close>

definition duration_part :: "bytes \<Rightarrow> (nat \<times> bytes) option" where
  "duration_part s =
     (let ds = takeWhile is_digit s; s1 = dropWhile is_digit s;
          point = (s1 \<noteq> [] \<and> hd s1 = CHR ''.'');
          fs = (if point then takeWhile is_digit (tl s1) else []);
          s2 = (if point then dropWhile is_digit (tl s1) else s1);
          u = takeWhile unit_char s2
      in if ds = [] \<and> fs = [] then None
         else
           Option.bind (leading_int ds) (\<lambda>v. Option.bind (map_of duration_units u) (\<lambda>w.
           if v > 2 ^ 63 div w then None
           else (case leading_fraction fs 0 1 of (f, scale) \<Rightarrow>
             let n = v * w + (if f > 0 then truncate (fmul (f_of_int (int f)) (fdiv (f_of_int (int w)) (f_of_int (int scale)))) else 0)
             in if n > 2 ^ 63 then None else Some (n, dropWhile unit_char s2)))))"

text \<open>The sum is kept in 64 bits; a part takes at least one byte, so the length of the text is enough fuel.\<close>

fun duration_sum :: "nat \<Rightarrow> bytes \<Rightarrow> nat \<Rightarrow> nat option" where
  "duration_sum n [] d = Some d"
| "duration_sum 0 s d = None"
| "duration_sum (Suc n) s d =
     Option.bind (duration_part s) (\<lambda>(v, r).
       let d' = (d + v) mod 2 ^ 64 in if d' > 2 ^ 63 then None else duration_sum n r d')"

definition parse_duration :: "bytes \<Rightarrow> int option" where
  "parse_duration s =
     (let signed = (s \<noteq> [] \<and> (hd s = CHR ''-'' \<or> hd s = CHR ''+''));
          neg = (signed \<and> hd s = CHR ''-'');
          t = (if signed then tl s else s)
      in if t = ''0'' then Some 0
         else if t = [] then None
         else Option.bind (duration_sum (length t) t 0) (\<lambda>d.
           if neg then Some (- int d) else if d > 2 ^ 63 - 1 then None else Some (int d)))"

section \<open>The process\<close>

text \<open>Reading a file, whether a file can be written, what was printed and logged, and the network.\<close>

record 'w os =
  os_files :: "bytes \<Rightarrow> bytes res"
  os_writable :: "bytes \<Rightarrow> goerr option"
  os_out :: bytes
  os_err :: bytes
  os_log :: "bytes list"
  os_net :: 'w

text \<open>The network: what \<^verbatim>\<open>http.NewRequest\<close> says of a URL, the clock, the client with a timeout.\<close>

record 'w net_lib =
  net_url :: "bytes \<Rightarrow> goerr option"
  net_now :: "'w \<Rightarrow> gotime \<times> 'w"
  net_client :: "int \<Rightarrow> 'w http_client"

definition read_file :: "bytes \<Rightarrow> ('w os, bytes) op" where
  "read_file path s = (os_files s path, s)"

definition write_file :: "bytes \<Rightarrow> bytes \<Rightarrow> ('w os, unit) op" where
  "write_file path data s =
     (case os_writable s path of Some e \<Rightarrow> (Inl e, s)
      | None \<Rightarrow> (Inr (), s\<lparr>os_files := (os_files s)(path := Inr data)\<rparr>))"

definition printf :: "bytes \<Rightarrow> ('w os, unit) op" where
  "printf t s = (Inr (), s\<lparr>os_out := os_out s @ t\<rparr>)"

definition println :: "bytes \<Rightarrow> ('w os, unit) op" where
  "println t = printf (t @ [newline])"

definition print_error :: "bytes \<Rightarrow> 'w os \<Rightarrow> 'w os" where
  "print_error t s = s\<lparr>os_err := os_err s @ t\<rparr>"

definition log_line :: "bytes \<Rightarrow> 'w os \<Rightarrow> 'w os" where
  "log_line t s = s\<lparr>os_log := os_log s @ [t]\<rparr>"

definition on_net :: "('w, 'a) op \<Rightarrow> ('w os, 'a) op" where
  "on_net m s = (case m (os_net s) of (r, n) \<Rightarrow> (r, s\<lparr>os_net := n\<rparr>))"

section \<open>Flags\<close>

text \<open>A flag: its name, whether it is boolean, and how a value sets it. A command line that \<^verbatim>\<open>flag\<close> refuses
  gives its error; the usage text it prints is not modelled.\<close>

type_synonym 'o flag = "bytes \<times> bool \<times> (bytes \<Rightarrow> 'o \<Rightarrow> 'o option)"

definition flag_error :: goerr where
  "flag_error = Foreign ''flag''"

definition parse_bool :: "bytes \<Rightarrow> bool option" where
  "parse_bool s =
     (if s \<in> {''1'', ''t'', ''T'', ''TRUE'', ''true'', ''True''} then Some True
      else if s \<in> {''0'', ''f'', ''F'', ''FALSE'', ''false'', ''False''} then Some False else None)"

definition lower :: "char \<Rightarrow> char" where
  "lower c = (if 65 \<le> code c \<and> code c \<le> 90 then char_of (code c + 32) else c)"

definition digit36 :: "char \<Rightarrow> nat option" where
  "digit36 c =
     (if is_digit c then Some (digit_val c)
      else if 97 \<le> code (lower c) \<and> code (lower c) \<le> 122 then Some (code (lower c) - 87) else None)"

fun digits_in :: "nat \<Rightarrow> bytes \<Rightarrow> nat \<Rightarrow> nat option" where
  "digits_in b [] n = Some n"
| "digits_in b (c # s) n =
     (if c = CHR ''_'' then digits_in b s n
      else case digit36 c of None \<Rightarrow> None | Some d \<Rightarrow> if d < b then digits_in b s (n * b + d) else None)"

text \<open>An underscore stands between two digits, or between the prefix of the base and a digit.\<close>

fun underscores_ok :: "bool \<Rightarrow> bytes \<Rightarrow> bool" where
  "underscores_ok after_digit [] = True"
| "underscores_ok after_digit (c # s) =
     (if c = CHR ''_'' then after_digit \<and> s \<noteq> [] \<and> hd s \<noteq> CHR ''_'' \<and> underscores_ok False s else underscores_ok True s)"

text \<open>\<^verbatim>\<open>strconv.ParseInt(s, 0, 64)\<close>.\<close>

definition parse_magnitude :: "bytes \<Rightarrow> nat option" where
  "parse_magnitude s =
     (let p = (if length s \<ge> 3 \<and> hd s = CHR ''0'' then lower (s ! 1) else CHR '' '')
      in if s = [] then None
         else if p = CHR ''b'' then (if underscores_ok True (drop 2 s) then digits_in 2 (drop 2 s) 0 else None)
         else if p = CHR ''o'' then (if underscores_ok True (drop 2 s) then digits_in 8 (drop 2 s) 0 else None)
         else if p = CHR ''x'' then (if underscores_ok True (drop 2 s) then digits_in 16 (drop 2 s) 0 else None)
         else if hd s = CHR ''0'' then (if underscores_ok False s then digits_in 8 (tl s) 0 else None)
         else if underscores_ok False s then digits_in 10 s 0 else None)"

definition parse_int_auto :: "bytes \<Rightarrow> int option" where
  "parse_int_auto s =
     (let signed = (s \<noteq> [] \<and> (hd s = CHR ''-'' \<or> hd s = CHR ''+'')); neg = (signed \<and> hd s = CHR ''-'')
      in Option.bind (parse_magnitude (if signed then tl s else s)) (\<lambda>n.
         if neg then (if n \<le> 2 ^ 63 then Some (- int n) else None)
         else if n < 2 ^ 63 then Some (int n) else None))"

definition str_flag :: "bytes \<Rightarrow> (bytes \<Rightarrow> 'o \<Rightarrow> 'o) \<Rightarrow> 'o flag" where
  "str_flag name upd = (name, False, \<lambda>v x. Some (upd v x))"

definition int_flag :: "bytes \<Rightarrow> (int \<Rightarrow> 'o \<Rightarrow> 'o) \<Rightarrow> 'o flag" where
  "int_flag name upd = (name, False, \<lambda>v x. map_option (\<lambda>i. upd i x) (parse_int_auto v))"

definition bool_flag :: "bytes \<Rightarrow> (bool \<Rightarrow> 'o \<Rightarrow> 'o) \<Rightarrow> 'o flag" where
  "bool_flag name upd = (name, True, \<lambda>v x. map_option (\<lambda>i. upd i x) (parse_bool v))"

definition duration_flag :: "bytes \<Rightarrow> (int \<Rightarrow> 'o \<Rightarrow> 'o) \<Rightarrow> 'o flag" where
  "duration_flag name upd = (name, False, \<lambda>v x. map_option (\<lambda>i. upd i x) (parse_duration v))"

text \<open>\<^verbatim>\<open>strconv.ParseFloat\<close> also reads forms JSON does not have; it is the argument \<open>parse\<close>.\<close>

definition float_flag :: "(bytes \<Rightarrow> f64 option) \<Rightarrow> bytes \<Rightarrow> (f64 \<Rightarrow> 'o \<Rightarrow> 'o) \<Rightarrow> 'o flag" where
  "float_flag parse name upd = (name, False, \<lambda>v x. map_option (\<lambda>i. upd i x) (parse v))"

text \<open>The name of an argument after its dashes, cut at the first \<^verbatim>\<open>=\<close> behind its first byte.\<close>

definition flag_parts :: "bytes \<Rightarrow> bytes \<times> bytes option" where
  "flag_parts n =
     (case dropWhile (\<lambda>c. c \<noteq> CHR ''='') n of
        [] \<Rightarrow> (n, None) | _ # v \<Rightarrow> (takeWhile (\<lambda>c. c \<noteq> CHR ''='') n, Some v))"

fun parse_flags :: "'o flag list \<Rightarrow> bytes list \<Rightarrow> 'o \<Rightarrow> 'o res" where
  "parse_flags fs [] x = Inr x"
| "parse_flags fs (a # args) x =
     (if length a < 2 \<or> hd a \<noteq> CHR ''-'' \<or> a = ''--'' then Inr x
      else
        (let n = (if a ! 1 = CHR ''-'' then drop 2 a else drop 1 a)
         in if hd n = CHR ''-'' \<or> hd n = CHR ''='' then Inl flag_error
            else case flag_parts n of (name, value) \<Rightarrow>
              (case map_of fs name of
                 None \<Rightarrow> Inl flag_error
               | Some (is_bool, assign) \<Rightarrow>
                   (case value of
                      Some v \<Rightarrow> and_then (or_fail flag_error (assign v x)) (parse_flags fs args)
                    | None \<Rightarrow>
                        (if is_bool then and_then (or_fail flag_error (assign ''true'' x)) (parse_flags fs args)
                         else (case args of
                             [] \<Rightarrow> Inl flag_error
                           | v # rest \<Rightarrow> and_then (or_fail flag_error (assign v x)) (parse_flags fs rest)))))))"

section \<open>Lemmas\<close>

lemma os_steps [simp]:
  "printf t s = (Inr (), s\<lparr>os_out := os_out s @ t\<rparr>)" "read_file p s = (os_files s p, s)"
  by (simp_all add: printf_def read_file_def)

text \<open>The stream decoder reads back a value that the encoder wrote.\<close>

text \<open>Names of printable ASCII characters that need no escape: folding and unquoting are plain on them.\<close>

definition ascii_name :: "bytes \<Rightarrow> bool" where
  "ascii_name k = list_all (\<lambda>c. 32 \<le> code c \<and> code c < 128 \<and> code c \<noteq> 34 \<and> code c \<noteq> 92) k"

lemma ascii_fold: "ascii_name k \<Longrightarrow> length (fold_name k) = length k"
  by (induction k rule: fold_name.induct) (auto simp: ascii_name_def)

lemma ascii_unquote: "ascii_name k \<Longrightarrow> unquote k = k"
  by (induction k rule: unquote.induct) (auto simp: ascii_name_def seq_width_ascii)

lemma ascii_raw_ok: "ascii_name k \<Longrightarrow> raw_ok k"
  unfolding raw_ok_def
proof (induction k)
  case (Cons c k)
  then have "c \<noteq> quote" "c \<noteq> backslash" by (auto simp: ascii_name_def)
  with Cons show ?case by (simp add: ascii_name_def)
qed simp

lemma ascii_matches:
  "ascii_name k \<Longrightarrow> key_matches k k" "ascii_name n \<Longrightarrow> ascii_name k \<Longrightarrow> length n \<noteq> length k \<Longrightarrow> \<not> key_matches n k"
  by (simp add: key_matches_def ascii_unquote) (metis key_matches_def ascii_unquote ascii_fold)

lemma skip_ws_jtext: "jwf v \<Longrightarrow> skip_ws (jtext v @ rest) = jtext v @ rest"
  using jtext_starts [of v rest] by (cases "jtext v @ rest") (simp_all add: starts_value_def skip_ws_Cons)

lemma json_first_text:
  assumes "jwf v" and "jdepth v \<le> 10000" and "num_stop rest"
  shows "json_first (jtext v @ rest) = Some (v, jtext v)"
proof -
  have "parse_value (2 * length (jtext v @ rest) + 2) 10000 (jtext v @ rest) = Some (v, rest)"
    using assms by (intro parsesD [OF parses_all]) simp_all
  then show ?thesis using assms(1) by (simp add: json_first_def skip_ws_jtext)
qed

lemma num_stop_newline: "num_stop [newline]"
  unfolding num_stop_def newline_def by code_simp

lemma decode_response_jtext:
  "jwf v \<Longrightarrow> jdepth v \<le> 10000 \<Longrightarrow> hr_body resp = jtext v @ [newline] \<Longrightarrow> decode_response d resp = d v"
  by (simp add: decode_response_def json_first_text num_stop_newline)

lemma fld_str: "fld dec_str upd (jstr s) r = Inr (upd (sanitize s) r)"
  by (simp add: fld_def set_field_def go_dec)

lemma fld_int: "int64 i \<Longrightarrow> fld dec_int64 upd (jint i) r = Inr (upd i r)"
  using dec_int64_jint [of i] by (auto simp: fld_def set_field_def jint_def)

end
