(* ===== verification/Anchor.thy ===== *)
theory Anchor
  imports GoOs StoreProofs
begin

text \<open>
  \<^verbatim>\<open>internal/anchor\<close>: signing a checkpoint with an ECDSA key, submitting it to Rekor as a \<^verbatim>\<open>hashedrekord\<close> entry,
  checking an entry, and the scheduler that anchors the latest checkpoint of a store. ECDSA, PKIX and PEM are
  parameters; so is the order in which a loop takes the keys of a map.
\<close>

section \<open>The anchor\<close>

record ('w, 'k) ecdsa_lib =
  ec_GenerateKey :: "('w, 'k) op"
  ec_MarshalPKIX :: "'k \<Rightarrow> bytes res"
  ec_pem :: "bytes \<Rightarrow> bytes \<Rightarrow> bytes"
  ec_SignASN1 :: "'k \<Rightarrow> bytes \<Rightarrow> ('w, bytes) op"
  ec_sha :: sha_fun
  ec_client :: "int \<Rightarrow> 'w http_client"
  ec_order :: "bytes list \<Rightarrow> bytes list"

definition DefaultRekorURL :: bytes where
  "DefaultRekorURL = ''https://rekor.sigstore.dev''"

definition rekorTimeout :: int where
  "rekorTimeout = 30 * second"

record anchor_result =
  ar_LogIndex :: int
  ar_EntryUUID :: bytes
  ar_EntryURL :: bytes

record ('w, 'k) rekor_anchor =
  ra_rekorURL :: bytes
  ra_priv :: 'k
  ra_pubPEM :: bytes
  ra_client :: "'w http_client"

definition newAnchor :: "('w, 'k) ecdsa_lib \<Rightarrow> bytes \<Rightarrow> 'k \<Rightarrow> ('w, 'k) rekor_anchor res" where
  "newAnchor ec rekorURL priv =
     and_then (wrap_err ''marshal public key'' (ec_MarshalPKIX ec priv)) (\<lambda>pubDER.
     Inr \<lparr>ra_rekorURL = rekorURL, ra_priv = priv, ra_pubPEM = ec_pem ec ''PUBLIC KEY'' pubDER,
          ra_client = ec_client ec rekorTimeout\<rparr>)"

definition NewRekorAnchor :: "('w, 'k) ecdsa_lib \<Rightarrow> bytes \<Rightarrow> ('w, ('w, 'k) rekor_anchor) op" where
  "NewRekorAnchor ec rekorURL =
     bind_op (wrap_op ''generate anchor key'' (ec_GenerateKey ec)) (\<lambda>priv.
     lift_op (newAnchor ec (if rekorURL = [] then DefaultRekorURL else rekorURL) priv))"

definition WithKey :: "('w, 'k) ecdsa_lib \<Rightarrow> bytes \<Rightarrow> 'k \<Rightarrow> ('w, 'k) rekor_anchor res" where
  "WithKey ec rekorURL priv = newAnchor ec (if rekorURL = [] then DefaultRekorURL else rekorURL) priv"

text \<open>The body of the request; \<^verbatim>\<open>encoding/json\<close> writes the keys of a map in order.\<close>

definition rekor_entry :: "bytes \<Rightarrow> bytes \<Rightarrow> bytes \<Rightarrow> jval" where
  "rekor_entry pubPEM sig digest =
     JObj [(''apiVersion'', jstr ''0.0.1''),
           (''kind'', jstr ''hashedrekord''),
           (''spec'', JObj
              [(''data'', JObj [(''hash'', jmap [(''algorithm'', ''sha256''), (''value'', hex_encode digest)])]),
               (''signature'', JObj
                  [(''content'', jstr (b64_encode sig)),
                   (''publicKey'', jmap [(''content'', b64_encode pubPEM)])])])]"

text \<open>A \<^verbatim>\<open>map[string]json.RawMessage\<close>, and the entries of a map in the order of the loop.\<close>

definition dec_raw_map :: "bytes \<Rightarrow> (bytes \<times> bytes) list res" where
  "dec_raw_map s =
     (case json_parse s of
        None \<Rightarrow> Inl json_syntax
      | Some v \<Rightarrow>
          (case v of
             JObj _ \<Rightarrow> Inr (foldl (\<lambda>m (k, raw). AList.update (unquote k) raw m) [] (raw_members (length s) (drop 1 (skip_ws s))))
           | JNull \<Rightarrow> Inr [] | _ \<Rightarrow> Inl json_type))"

definition ranged :: "('w, 'k) ecdsa_lib \<Rightarrow> (bytes \<times> 'a) list \<Rightarrow> (bytes \<times> 'a) list" where
  "ranged ec m = List.map_filter (\<lambda>k. map_option (Pair k) (map_of m k)) (ec_order ec (map fst m))"

definition entry_fields :: "int fields" where
  "entry_fields = [(''logIndex'', fld dec_int64 (\<lambda>x _. x))]"

definition first_entry :: "('w, 'k) ecdsa_lib \<Rightarrow> bytes \<Rightarrow> bytes \<Rightarrow> anchor_result res" where
  "first_entry ec rekorURL respBody =
     and_then (wrap_err ''decode rekor response'' (dec_raw_map respBody)) (\<lambda>entries.
     case ranged ec entries of
       [] \<Rightarrow> Inl (Err ''rekor returned empty entries map'')
     | (uuid, raw) # _ \<Rightarrow>
         and_then (wrap_err ''decode entry'' (unmarshal_with (dec_object entry_fields 0) raw)) (\<lambda>logIndex.
         Inr \<lparr>ar_LogIndex = logIndex, ar_EntryUUID = uuid,
              ar_EntryURL = rekorURL @ ''/api/v1/log/entries/'' @ uuid\<rparr>))"

definition Anchor :: "('w, 'k) ecdsa_lib \<Rightarrow> ('w, 'k) rekor_anchor \<Rightarrow> bytes \<Rightarrow> ('w, anchor_result) op" where
  "Anchor ec a checkpoint =
     (let digest = h32 (ec_sha ec) checkpoint
      in bind_op (wrap_op ''sign checkpoint'' (ec_SignASN1 ec (ra_priv a) digest)) (\<lambda>sig.
         bind_op (wrap_op ''post to rekor''
           (hc_post (ra_client a) (ra_rekorURL a @ ''/api/v1/log/entries'') [(''Content-Type'', ''application/json'')]
              (jtext (rekor_entry (ra_pubPEM a) sig digest)))) (\<lambda>resp.
         lift_op (if hr_status resp \<noteq> 201 then Inl (status_error ''rekor returned '' resp)
                  else first_entry ec (ra_rekorURL a) (hr_body resp)))))"

section \<open>Checking an entry\<close>

definition body_fields :: "bytes fields" where
  "body_fields = [(''body'', fld dec_str (\<lambda>x _. x))]"

definition entry_body_fields :: "bytes fields" where
  "entry_body_fields =
     [(''spec'', same [(''data'', same [(''hash'', same [(''value'', fld dec_str (\<lambda>x _. x))])])])]"

text \<open>An entry whose body cannot be decoded is skipped.\<close>

definition entry_matches :: "bytes \<Rightarrow> bytes \<Rightarrow> bool" where
  "entry_matches want body =
     (case b64_decode body of
        None \<Rightarrow> False
      | Some b \<Rightarrow>
          (case unmarshal_with (dec_object entry_body_fields []) b of
             Inl _ \<Rightarrow> False
           | Inr v \<Rightarrow> v = want))"

definition VerifyAnchor ::
  "('w, 'k) ecdsa_lib \<Rightarrow> ('w, 'k) rekor_anchor \<Rightarrow> bytes \<Rightarrow> int \<Rightarrow> ('w, unit) op" where
  "VerifyAnchor ec a checkpoint logIndex =
     bind_op (wrap_op ''fetch rekor entry''
       (hc_get (ra_client a) (ra_rekorURL a @ ''/api/v1/log/entries?logIndex='' @ itoa logIndex))) (\<lambda>resp.
     lift_op
       (if hr_status resp = 404 then Inl (Err (''no entry at log index '' @ itoa logIndex))
        else if hr_status resp \<noteq> 200 then Inl (status_error ''rekor returned '' resp)
        else
          and_then (wrap_err ''decode rekor entries'' (decode_response (dec_map (dec_object body_fields [])) resp)) (\<lambda>entries.
          let want = hex_encode (h32 (ec_sha ec) checkpoint)
          in if list_ex (\<lambda>(_, body). entry_matches want body) (ranged ec entries) then Inr ()
             else Inl (Err (''checkpoint hash '' @ want @ '' not found in entry at log index '' @ itoa logIndex)))))"

section \<open>The scheduler\<close>

definition DefaultAnchorInterval :: int where
  "DefaultAnchorInterval = 24 * 3600 * second"

text \<open>The part of a store the scheduler uses.\<close>

record 's anchor_store =
  as_LatestCheckpoint :: "('s, store_checkpoint option) op"
  as_UpdateCheckpointRekorIndex :: "int \<Rightarrow> int \<Rightarrow> ('s, unit) op"

record ('w, 'k, 's) anchor_scheduler =
  sc_anchor :: "('w, 'k) rekor_anchor"
  sc_store :: "'s anchor_store"
  sc_interval :: int

definition NewAnchorScheduler ::
  "('w, 'k) rekor_anchor \<Rightarrow> 's anchor_store \<Rightarrow> int \<Rightarrow> ('w, 'k, 's) anchor_scheduler" where
  "NewAnchorScheduler a st interval =
     \<lparr>sc_anchor = a, sc_store = st, sc_interval = (if interval \<le> 0 then DefaultAnchorInterval else interval)\<rparr>"

definition checkpointPayload :: "store_checkpoint \<Rightarrow> bytes" where
  "checkpointPayload cp =
     ''siqlah-checkpoint'' @ [newline] @ ''tree_size='' @ itoa (cp_TreeSize cp) @ [newline] @
     ''root='' @ cp_RootHex cp @ [newline] @
     ''batch='' @ itoa (cp_BatchStart cp) @ ''-'' @ itoa (cp_BatchEnd cp) @ [newline] @
     ''issued_at='' @ date_time (t_sec (cp_IssuedAt cp)) 0 @ ''Z'' @ [newline]"

text \<open>The state is the store beside the process.\<close>

definition on_first :: "('s, 'a) op \<Rightarrow> ('s \<times> 'w os, 'a) op" where
  "on_first m x = (case m (fst x) of (r, s) \<Rightarrow> (r, (s, snd x)))"

definition on_second :: "('w os, 'a) op \<Rightarrow> ('s \<times> 'w os, 'a) op" where
  "on_second m x = (case m (snd x) of (r, p) \<Rightarrow> (r, (fst x, p)))"

definition anchor_latest ::
  "('w, 'k) ecdsa_lib \<Rightarrow> ('w, 'k, 's) anchor_scheduler \<Rightarrow> store_checkpoint \<Rightarrow> ('s \<times> 'w os, unit) op" where
  "anchor_latest ec sc cp =
     bind_op (wrap_op (''anchor checkpoint '' @ itoa (cp_ID cp))
       (on_second (on_net (Anchor ec (sc_anchor sc) (checkpointPayload cp))))) (\<lambda>result.
     bind_op (wrap_op (''save rekor index for checkpoint '' @ itoa (cp_ID cp))
       (on_first (as_UpdateCheckpointRekorIndex (sc_store sc) (cp_ID cp) (ar_LogIndex result)))) (\<lambda>_ x.
     (Inr (), (fst x, log_line
        (''anchor: checkpoint '' @ itoa (cp_ID cp) @ '' anchored at Rekor log index '' @ itoa (ar_LogIndex result) @
         '' ('' @ ar_EntryURL result @ '')'') (snd x)))))"

definition AnchorOnce :: "('w, 'k) ecdsa_lib \<Rightarrow> ('w, 'k, 's) anchor_scheduler \<Rightarrow> ('s \<times> 'w os, unit) op" where
  "AnchorOnce ec sc =
     bind_op (wrap_op ''fetch latest checkpoint'' (on_first (as_LatestCheckpoint (sc_store sc)))) (\<lambda>cp.
     case cp of
       None \<Rightarrow> ret_op ()
     | Some cp \<Rightarrow> if cp_RekorLogIndex cp \<ge> 0 then ret_op () else anchor_latest ec sc cp)"

text \<open>\<^verbatim>\<open>Run\<close>, driven by what its \<^verbatim>\<open>select\<close> takes: \<open>True\<close> is the ticker, \<open>False\<close> the cancellation.\<close>

fun anchor_loop :: "('w, 'k) ecdsa_lib \<Rightarrow> ('w, 'k, 's) anchor_scheduler \<Rightarrow> bool list \<Rightarrow> 's \<times> 'w os \<Rightarrow> 's \<times> 'w os" where
  "anchor_loop ec sc [] x = x"
| "anchor_loop ec sc (False # es) x = x"
| "anchor_loop ec sc (True # es) x =
     (case AnchorOnce ec sc x of
        (Inl e, x) \<Rightarrow> anchor_loop ec sc es (fst x, log_line (''anchor: '' @ err_text e) (snd x))
      | (Inr _, x) \<Rightarrow> anchor_loop ec sc es x)"

definition anchor_Run :: "('w, 'k) ecdsa_lib \<Rightarrow> ('w, 'k, 's) anchor_scheduler \<Rightarrow> bool list \<Rightarrow> 's \<times> 'w os \<Rightarrow> 's \<times> 'w os" where
  "anchor_Run ec sc es x =
     anchor_loop ec sc es
       (fst x, log_line (''anchor: scheduler started, interval='' @ duration_text (sc_interval sc)) (snd x))"

definition sqlite_anchor_store :: "db anchor_store" where
  "sqlite_anchor_store =
     \<lparr>as_LatestCheckpoint = LatestCheckpoint, as_UpdateCheckpointRekorIndex = UpdateCheckpointRekorIndex\<rparr>"

section \<open>What the scheduler needs of a store\<close>

text \<open>\<open>ok\<close> is the invariant of the store and \<open>newest\<close> its newest checkpoint.\<close>

locale anchored_store =
  fixes S :: "'s anchor_store" and ok :: "'s \<Rightarrow> bool" and newest :: "'s \<Rightarrow> store_checkpoint option"
  assumes read_newest: "ok s \<Longrightarrow> as_LatestCheckpoint S s = (Inr oc, s') \<Longrightarrow> oc = newest s"
    and read_keeps: "ok s \<Longrightarrow> as_LatestCheckpoint S s = (x, s') \<Longrightarrow> ok s' \<and> newest s' = newest s"
    and update_newest: "ok s \<Longrightarrow> newest s = Some c \<Longrightarrow> as_UpdateCheckpointRekorIndex S (cp_ID c) i s = (Inr (), s') \<Longrightarrow>
      ok s' \<and> newest s' = Some (c\<lparr>cp_RekorLogIndex := i\<rparr>)"
begin

definition settled :: "'s \<Rightarrow> bool" where
  "settled s = (case newest s of None \<Rightarrow> True | Some c \<Rightarrow> 0 \<le> cp_RekorLogIndex c)"

lemma settled_quiet:
  assumes "sc_store sc = S" and "ok s" and "settled s"
  shows "snd (snd (AnchorOnce ec sc (s, p))) = p" and "ok (fst (snd (AnchorOnce ec sc (s, p))))"
    and "settled (fst (snd (AnchorOnce ec sc (s, p))))"
proof -
  obtain r s' where r: "as_LatestCheckpoint S s = (r, s')" by fastforce
  from read_keeps [OF assms(2) r] have k: "ok s'" "newest s' = newest s" by auto
  show "snd (snd (AnchorOnce ec sc (s, p))) = p" "ok (fst (snd (AnchorOnce ec sc (s, p))))"
    "settled (fst (snd (AnchorOnce ec sc (s, p))))"
    using assms r k read_newest [OF assms(2)]
    by (auto simp: AnchorOnce_def bind_op_def wrap_op_def on_first_def settled_def wrap_err_Inr split: sum.splits option.splits)
qed

text \<open>What a pass that succeeds has done: nothing, or the newest checkpoint was sent and has the index that came back.\<close>

lemma success_anchors:
  assumes "sc_store sc = S" and "ok s" and "AnchorOnce ec sc (s, p) = (Inr (), (s', p'))"
  shows "ok s' \<and>
    (case newest s of
       None \<Rightarrow> newest s' = None \<and> p' = p
     | Some c \<Rightarrow>
         if 0 \<le> cp_RekorLogIndex c then newest s' = Some c \<and> p' = p
         else \<exists>x. Anchor ec (sc_anchor sc) (checkpointPayload c) (os_net p) = (Inr x, os_net p') \<and>
                  newest s' = Some (c\<lparr>cp_RekorLogIndex := ar_LogIndex x\<rparr>))"
proof -
  obtain c s1 where c: "as_LatestCheckpoint S s = (Inr c, s1)"
    and k: "(case c of None \<Rightarrow> ret_op () | Some cp \<Rightarrow> if cp_RekorLogIndex cp \<ge> 0 then ret_op () else anchor_latest ec sc cp)
      (s1, p) = (Inr (), (s', p'))"
    using assms(1,3) by (auto simp: AnchorOnce_def bind_op_Inr wrap_op_Inr on_first_def split: prod.splits)
  from read_newest [OF assms(2) c] read_keeps [OF assms(2) c] have n: "ok s1" "newest s1 = c" "newest s = c" by auto
  show ?thesis
  proof (cases "c = None \<or> (\<exists>cp. c = Some cp \<and> 0 \<le> cp_RekorLogIndex cp)")
    case True
    then show ?thesis using k n by auto
  next
    case False
    then obtain cp where cp: "c = Some cp" "\<not> 0 \<le> cp_RekorLogIndex cp" by auto
    with k obtain x n' where a: "Anchor ec (sc_anchor sc) (checkpointPayload cp) (os_net p) = (Inr x, n')" "os_net p' = n'"
      and u: "as_UpdateCheckpointRekorIndex S (cp_ID cp) (ar_LogIndex x) s1 = (Inr (), s')"
      using assms(1)
      by (auto simp: anchor_latest_def bind_op_Inr wrap_op_Inr on_first_def on_second_def on_net_def log_line_def split: prod.splits)
    from update_newest [OF n(1) _ u] n(2) cp(1) have "ok s' \<and> newest s' = Some (cp\<lparr>cp_RekorLogIndex := ar_LogIndex x\<rparr>)" by simp
    with a cp n(3) show ?thesis by auto
  qed
qed

text \<open>A settled store keeps the loop off the network, whatever its ticks.\<close>

lemma settled_loop:
  assumes "sc_store sc = S"
  shows "ok s \<Longrightarrow> settled s \<Longrightarrow> os_net (snd (anchor_loop ec sc es (s, p))) = os_net p"
proof (induction es arbitrary: s p)
  case Nil
  then show ?case by simp
next
  case (Cons e es)
  obtain r s' p' where r: "AnchorOnce ec sc (s, p) = (r, (s', p'))" by (metis prod.exhaust)
  from settled_quiet [OF assms Cons.prems, where ec = ec and p = p] r have "p' = p" "ok s'" "settled s'" by simp_all
  with r Cons.IH show ?case by (cases e) (auto simp: log_line_def split: sum.splits)
qed

end

section \<open>The SQLite store\<close>

definition last_checkpoint :: "db \<Rightarrow> store_checkpoint option" where
  "last_checkpoint st = scanCheckpoint (case rev (checkpoints st) of [] \<Rightarrow> None | k # _ \<Rightarrow> Some k)"

lemma last_checkpoint_faults [simp]: "last_checkpoint (st\<lparr>db_faults := fs\<rparr>) = last_checkpoint st"
  by (simp add: last_checkpoint_def)

lemma last_checkpoint_set:
  assumes "last_checkpoint st = Some c" and "db_inv st"
  shows "last_checkpoint (snd (set_rekor (cp_ID c) i st)) = Some (c\<lparr>cp_RekorLogIndex := i\<rparr>)"
proof -
  obtain k ks where k: "rev (checkpoints st) = k # ks"
    using assms(1) by (cases "rev (checkpoints st)") (auto simp: last_checkpoint_def scanCheckpoint_def)
  with assms(1) have c: "c = scanCheckpointRow k" by (simp add: last_checkpoint_def scanCheckpoint_def)
  show ?thesis using k by (simp add: last_checkpoint_def set_rekor_def rev_map scanCheckpoint_def c scanCheckpointRow_def)
qed

interpretation sqlite_anchor: anchored_store sqlite_anchor_store db_inv last_checkpoint
proof
  fix s s' :: db and oc
  assume "db_inv s" and "as_LatestCheckpoint sqlite_anchor_store s = (Inr oc, s')"
  then show "oc = last_checkpoint s"
    by (auto simp: sqlite_anchor_store_def LatestCheckpoint_def query_def sql_def last_checkpoint_def split: list.splits option.splits)
next
  fix s s' :: db and x
  assume "db_inv s" and "as_LatestCheckpoint sqlite_anchor_store s = (x, s')"
  then show "db_inv s' \<and> last_checkpoint s' = last_checkpoint s"
    by (auto simp: sqlite_anchor_store_def LatestCheckpoint_def query_def sql_def split: list.splits option.splits)
next
  fix s s' :: db and c i
  assume a: "db_inv s" "last_checkpoint s = Some c" "as_UpdateCheckpointRekorIndex sqlite_anchor_store (cp_ID c) i s = (Inr (), s')"
  from a(3) have "s' = snd (set_rekor (cp_ID c) i (s\<lparr>db_faults := drop 1 (db_faults s)\<rparr>))"
    by (cases s) (auto simp: sqlite_anchor_store_def UpdateCheckpointRekorIndex_def sql_def split: list.splits option.splits prod.splits)
  with a(1,2) show "db_inv s' \<and> last_checkpoint s' = Some (c\<lparr>cp_RekorLogIndex := i\<rparr>)"
    using set_rekor_inv last_checkpoint_set by (metis db_inv_faults last_checkpoint_faults)
qed

text \<open>C35. A successful pass of the scheduler over the SQLite store sends the newest checkpoint exactly when it has
  no Rekor index yet, and then stores for it the index that Rekor returned; otherwise it sends and changes
  nothing. From then on, while that checkpoint is the newest one and its index is not negative, no pass of
  the loop sends anything, whatever else has changed in the database. (A newer checkpoint is sent in its turn.)\<close>

theorem anchored_once:
  assumes "db_inv st" and "sc_store sc = sqlite_anchor_store" and "AnchorOnce ec sc (st, p) = (Inr (), (st', p'))"
  shows "(case last_checkpoint st of
            None \<Rightarrow> last_checkpoint st' = None \<and> p' = p
          | Some c \<Rightarrow>
              if 0 \<le> cp_RekorLogIndex c then last_checkpoint st' = Some c \<and> p' = p
              else \<exists>x. Anchor ec (sc_anchor sc) (checkpointPayload c) (os_net p) = (Inr x, os_net p') \<and>
                       last_checkpoint st' = Some (c\<lparr>cp_RekorLogIndex := ar_LogIndex x\<rparr>)) \<and>
         (\<forall>c st2 q es. last_checkpoint st' = Some c \<and> 0 \<le> cp_RekorLogIndex c \<and> db_inv st2 \<and> last_checkpoint st2 = Some c \<longrightarrow>
            os_net (snd (anchor_loop ec sc es (st2, q))) = os_net q)"
  using sqlite_anchor.success_anchors [OF assms(2,1,3)] sqlite_anchor.settled_loop [OF assms(2)]
  by (simp add: sqlite_anchor.settled_def)

text \<open>Rekor's answer: an object with one entry.\<close>

lemma first_entry_single:
  assumes "plain_key u" and "int64 i" and "ec_order ec [u] = [u]"
  shows "first_entry ec url (jtext (JObj [(u, JObj [(''logIndex'', jint i)])])) =
    Inr \<lparr>ar_LogIndex = i, ar_EntryUUID = u, ar_EntryURL = url @ ''/api/v1/log/entries/'' @ u\<rparr>"
proof -
  let ?e = "JObj [(''logIndex'', jint i)]"
  let ?s = "jtext (JObj [(u, ?e)])"
  have l: "raw_ok ''logIndex''" "key_matches ''logIndex'' ''logIndex''"
    by (simp_all add: ascii_raw_ok ascii_matches(1) ascii_name_def)
  have e: "jwf ?e" "jdepth ?e \<le> 10000" and w: "jwf (JObj [(u, ?e)])" "jdepth (JObj [(u, ?e)]) \<le> 10000"
    using assms(1) l(1) by (auto simp: plain_raw_ok jint_def)
  have s: "?s = CHR ''{'' # quote # u @ quote # CHR '':'' # jtext ?e @ ''}''" by simp
  have v: "scan_string (u @ quote # r) = Some (u, r)" for r using assms(1) by (simp add: plain_raw_ok raw_ok_scan)
  have r: "raw_members (Suc n) (quote # u @ quote # CHR '':'' # jtext ?e @ ''}'') = [(u, jtext ?e)]" for n
    using json_first_text [OF e, of "''}''"] skip_ws_jtext [OF e(1), of "''}''"]
    by (cases n) (simp_all add: skip_ws_Cons v skip_ws_def [of "[]"] del: jtext.simps)
  have "raw_members (length ?s) (drop 1 (skip_ws ?s)) = [(u, jtext ?e)]"
    using r [of "length ?s - 1"] unfolding s by (simp add: skip_ws_Cons del: jtext.simps)
  then have "dec_raw_map ?s = Inr [(u, jtext ?e)]"
    using json_parse_jtext [OF w] assms(1) by (simp add: dec_raw_map_def plain_unquote del: jtext.simps)
  moreover have "unmarshal_with (dec_object entry_fields 0) (jtext ?e) = Inr i"
    using json_parse_jtext [OF e] l(2) assms(2)
    by (simp add: unmarshal_with_def dec_object_def entry_fields_def fld_int del: jtext.simps)
  ultimately show ?thesis
    using assms(3) by (simp add: first_entry_def ranged_def map_filter_simps del: jtext.simps)
qed

definition toy_rekor :: "(nat, unit) ecdsa_lib" where
  "toy_rekor =
     \<lparr>ec_GenerateKey = (\<lambda>n. (Inr (), n)), ec_MarshalPKIX = (\<lambda>_. Inr []), ec_pem = (\<lambda>_ _. []),
      ec_SignASN1 = (\<lambda>_ d n. (Inr d, n)), ec_sha = (\<lambda>x. x),
      ec_client = (\<lambda>_. \<lparr>hc_get = (\<lambda>url n. (Inl (Foreign ''offline''), n)),
        hc_post = (\<lambda>url hs b n. (Inr \<lparr>hr_status = 201,
          hr_body = jtext (JObj [(''uuid'', JObj [(''logIndex'', jint 7)])]), hr_body_err = None\<rparr>, Suc n))\<rparr>),
      ec_order = (\<lambda>ks. ks)\<rparr>"

definition toy_scheduler :: "(nat, unit, db) anchor_scheduler" where
  "toy_scheduler =
     NewAnchorScheduler \<lparr>ra_rekorURL = DefaultRekorURL, ra_priv = (), ra_pubPEM = [],
       ra_client = ec_client toy_rekor rekorTimeout\<rparr> sqlite_anchor_store 0"

definition unanchored_db :: db where
  "unanchored_db = empty_db\<lparr>checkpoints :=
     [\<lparr>ck_id = 1, ck_batch_start = 1, ck_batch_end = 1, ck_tree_size = 1, ck_root_hex = ''00'', ck_previous_root_hex = [],
       ck_issued_at = 0, ck_operator_sig_hex = [], ck_rekor_log_index = - 1\<rparr>], checkpoints_seq := 1\<rparr>"

definition quiet_os :: "nat os" where
  "quiet_os =
     \<lparr>os_files = (\<lambda>_. Inl (Err [])), os_writable = (\<lambda>_. None), os_out = [], os_err = [], os_log = [], os_net = 0\<rparr>"

lemma toy_store: "sc_store toy_scheduler = sqlite_anchor_store"
  by (simp add: toy_scheduler_def NewAnchorScheduler_def)

lemma toy_Anchor: "Anchor toy_rekor (sc_anchor toy_scheduler) c n =
  (Inr \<lparr>ar_LogIndex = 7, ar_EntryUUID = ''uuid'', ar_EntryURL = DefaultRekorURL @ ''/api/v1/log/entries/'' @ ''uuid''\<rparr>, Suc n)"
proof -
  have "plain_key ''uuid''" "int64 7" "ec_order toy_rekor [''uuid''] = [''uuid'']"
    by (simp_all add: plain_key_def plain_char_def int64_def toy_rekor_def)
  from first_entry_single [OF this] show ?thesis
    by (simp add: Anchor_def toy_scheduler_def NewAnchorScheduler_def bind_op_def wrap_op_def lift_op_def
        toy_rekor_def del: jtext.simps)
qed

lemma success_keeps_inv:
  "db_inv st \<Longrightarrow> sc_store sc = sqlite_anchor_store \<Longrightarrow> AnchorOnce ec sc (st, p) = (Inr (), (st', p')) \<Longrightarrow> db_inv st'"
  using sqlite_anchor.success_anchors by blast

theorem anchored_once_witness:
  "\<exists>st' p' c. AnchorOnce toy_rekor toy_scheduler (unanchored_db, quiet_os) = (Inr (), (st', p')) \<and> os_net p' = 1 \<and>
     last_checkpoint st' = Some c \<and> cp_RekorLogIndex c = 7 \<and>
     os_net (snd (anchor_loop toy_rekor toy_scheduler [True, True] (st', p'))) = 1"
proof -
  let ?c = "(scanCheckpointRow (hd (checkpoints unanchored_db)))\<lparr>cp_RekorLogIndex := 7\<rparr>"
  obtain st' p' where r: "AnchorOnce toy_rekor toy_scheduler (unanchored_db, quiet_os) = (Inr (), (st', p'))"
      "os_net p' = 1" "last_checkpoint st' = Some ?c"
    by (simp add: AnchorOnce_def anchor_latest_def bind_op_def wrap_op_def on_first_def on_second_def on_net_def
        toy_Anchor toy_store sqlite_anchor_store_def LatestCheckpoint_def query_def sql_def unanchored_db_def empty_db_def
        scanCheckpoint_def scanCheckpointRow_def quiet_os_def UpdateCheckpointRekorIndex_def set_rekor_def
        last_checkpoint_def log_line_def)
  have "db_inv unanchored_db" by (simp add: unanchored_db_def db_inv_def empty_db_def ids_ok_def)
  note inv = this
  from success_keeps_inv [OF inv toy_store r(1)] have "db_inv st'" .
  with anchored_once [OF inv toy_store r(1)] r(3)
  have "os_net (snd (anchor_loop toy_rekor toy_scheduler [True, True] (st', p'))) = os_net p'"
    by (simp del: anchor_loop.simps)
  with r show ?thesis by fastforce
qed

end
