(* ===== verification/CmdSiqlah.thy ===== *)
theory CmdSiqlah
  imports ApiServer GoOs TesseraProofs
begin

text \<open>
  \<^verbatim>\<open>cmd/siqlah\<close>: the flags of the service, its operator key, the server it wires together, the parser of witness
  keys, and the \<^verbatim>\<open>migrate\<close> subcommand. Theory \<open>Service\<close> puts the running process together.
\<close>

section \<open>Flags\<close>

record siqlah_opts =
  so_addr :: bytes
  so_db :: bytes
  so_batch_interval :: int
  so_max_batch :: int
  so_witnesses :: bytes
  so_monitor :: bool
  so_monitor_interval :: int
  so_discrepancy_threshold :: f64
  so_alert_webhook :: bytes
  so_operator_key :: bytes
  so_log_backend :: bytes
  so_tessera_path :: bytes
  so_tessera_log_name :: bytes
  so_signing_backend :: bytes
  so_oidc_issuer :: bytes
  so_oidc_client_id :: bytes
  so_rekor_url :: bytes
  so_fulcio_url :: bytes
  so_rekor_anchor :: bool
  so_rekor_interval :: int
  so_inference_region :: bytes
  so_x402_recipient :: bytes

definition siqlah_defaults :: siqlah_opts where
  "siqlah_defaults =
     \<lparr>so_addr = '':8080'', so_db = ''siqlah.db'', so_batch_interval = 30 * second, so_max_batch = 1000,
      so_witnesses = [], so_monitor = False, so_monitor_interval = 60 * second, so_discrepancy_threshold = Fin 5,
      so_alert_webhook = [], so_operator_key = [], so_log_backend = ''sqlite'', so_tessera_path = ''./tessera-data/'',
      so_tessera_log_name = ''siqlah.dev/log'', so_signing_backend = ''ed25519'',
      so_oidc_issuer = ''https://accounts.google.com'', so_oidc_client_id = [], so_rekor_url = [],
      so_fulcio_url = ''https://fulcio.sigstore.dev'', so_rekor_anchor = False, so_rekor_interval = 24 * 3600 * second,
      so_inference_region = [], so_x402_recipient = []\<rparr>"

definition siqlah_flags :: "(bytes \<Rightarrow> f64 option) \<Rightarrow> siqlah_opts flag list" where
  "siqlah_flags parse =
     [str_flag ''addr'' (\<lambda>x r. r\<lparr>so_addr := x\<rparr>), str_flag ''db'' (\<lambda>x r. r\<lparr>so_db := x\<rparr>),
      duration_flag ''batch-interval'' (\<lambda>x r. r\<lparr>so_batch_interval := x\<rparr>),
      int_flag ''max-batch'' (\<lambda>x r. r\<lparr>so_max_batch := x\<rparr>), str_flag ''witnesses'' (\<lambda>x r. r\<lparr>so_witnesses := x\<rparr>),
      bool_flag ''monitor'' (\<lambda>x r. r\<lparr>so_monitor := x\<rparr>),
      duration_flag ''monitor-interval'' (\<lambda>x r. r\<lparr>so_monitor_interval := x\<rparr>),
      float_flag parse ''discrepancy-threshold'' (\<lambda>x r. r\<lparr>so_discrepancy_threshold := x\<rparr>),
      str_flag ''alert-webhook'' (\<lambda>x r. r\<lparr>so_alert_webhook := x\<rparr>),
      str_flag ''operator-key'' (\<lambda>x r. r\<lparr>so_operator_key := x\<rparr>),
      str_flag ''log-backend'' (\<lambda>x r. r\<lparr>so_log_backend := x\<rparr>),
      str_flag ''tessera-storage-path'' (\<lambda>x r. r\<lparr>so_tessera_path := x\<rparr>),
      str_flag ''tessera-log-name'' (\<lambda>x r. r\<lparr>so_tessera_log_name := x\<rparr>),
      str_flag ''signing-backend'' (\<lambda>x r. r\<lparr>so_signing_backend := x\<rparr>),
      str_flag ''oidc-issuer'' (\<lambda>x r. r\<lparr>so_oidc_issuer := x\<rparr>),
      str_flag ''oidc-client-id'' (\<lambda>x r. r\<lparr>so_oidc_client_id := x\<rparr>),
      str_flag ''rekor-url'' (\<lambda>x r. r\<lparr>so_rekor_url := x\<rparr>), str_flag ''fulcio-url'' (\<lambda>x r. r\<lparr>so_fulcio_url := x\<rparr>),
      bool_flag ''rekor-anchor'' (\<lambda>x r. r\<lparr>so_rekor_anchor := x\<rparr>),
      duration_flag ''rekor-anchor-interval'' (\<lambda>x r. r\<lparr>so_rekor_interval := x\<rparr>),
      str_flag ''inference-region'' (\<lambda>x r. r\<lparr>so_inference_region := x\<rparr>),
      str_flag ''x402-recipient'' (\<lambda>x r. r\<lparr>so_x402_recipient := x\<rparr>)]"

section \<open>Wiring\<close>

text \<open>The operator key: public and private.\<close>

definition operator_key :: "ed25519 \<Rightarrow> ('w, bytes \<times> bytes) op \<Rightarrow> bytes \<Rightarrow> ('w, bytes \<times> bytes) op" where
  "operator_key c generate keyHex =
     (if keyHex \<noteq> [] then
        lift_op (case hex_decode keyHex of
            None \<Rightarrow> Inl (Err ''invalid --operator-key'')
          | Some priv \<Rightarrow> if length priv \<noteq> 64 then Inl (Err ''invalid --operator-key'') else Inr (ed_public c priv, priv))
      else wrap_op ''generate operator key'' generate)"

text \<open>The batcher of the process; only the SQLite one is also the builder of the API.\<close>

datatype batcher = SqliteBatcher builder | TesseraBatcher builder

definition choose_batcher :: "siqlah_opts \<Rightarrow> bytes \<Rightarrow> batcher" where
  "choose_batcher o1 priv =
     (if so_log_backend o1 = ''tessera'' then TesseraBatcher (NewTesseraBuilder priv (so_max_batch o1))
      else SqliteBatcher (NewBuilder priv (so_max_batch o1)))"

definition api_builder :: "batcher \<Rightarrow> builder option" where
  "api_builder b = (case b of SqliteBatcher x \<Rightarrow> Some x | TesseraBatcher _ \<Rightarrow> None)"

definition wire_server :: "siqlah_opts \<Rightarrow> bytes \<Rightarrow> 's store \<Rightarrow> batcher \<Rightarrow> bytes \<Rightarrow> bytes \<Rightarrow> 's server" where
  "wire_server o1 version st b pub priv =
     (let srv = WithBackendInfo (so_log_backend o1) (so_signing_backend o1)
                  (NewWithOptions st (api_builder b) pub priv (get_adapter NewRegistry) version (so_inference_region o1));
          srv = (if so_rekor_url o1 \<noteq> [] then WithRekorURL (so_rekor_url o1) srv else srv)
      in if so_x402_recipient o1 \<noteq> [] then WithX402Recipient (so_x402_recipient o1) srv else srv)"

text \<open>The pairs are split at commas; a pair that is not \<^verbatim>\<open>id=pubhex\<close> with a 32-byte key is skipped.\<close>

definition parse_witness :: "(bytes \<times> bytes) list \<Rightarrow> bytes \<Rightarrow> (bytes \<times> bytes) list" where
  "parse_witness out pair =
     (case split_n 2 [CHR ''=''] (trim_space pair) of
        [wid, pubHex] \<Rightarrow>
          (case hex_decode pubHex of
             None \<Rightarrow> out
           | Some b \<Rightarrow> if length b \<noteq> 32 then out else AList.update wid b out)
      | _ \<Rightarrow> out)"

definition parseWitnesses :: "bytes \<Rightarrow> (bytes \<times> bytes) list" where
  "parseWitnesses s = (if s = [] then [] else foldl parse_witness [] (split_char (CHR '','') s))"

section \<open>The key of the migration\<close>

text \<open>\<^verbatim>\<open>fmt.Sscanf\<close> with \<^verbatim>\<open>%02x\<close> on two bytes: leading white space is skipped, digits are read up to the first byte
  that is none, and what is left over is not looked at.\<close>

definition scan_hex_pair :: "char \<Rightarrow> char \<Rightarrow> nat option" where
  "scan_hex_pair c d =
     (case hex_val c of
        Some h \<Rightarrow> (case hex_val d of Some l \<Rightarrow> Some (16 * h + l) | None \<Rightarrow> Some h)
      | None \<Rightarrow> if code c \<in> {9, 11, 12, 13, 32} then hex_val d else None)"

fun decode_pairs :: "nat \<Rightarrow> bytes \<Rightarrow> bytes res" where
  "decode_pairs i (c # d # s) =
     (case scan_hex_pair c d of
        None \<Rightarrow> Inl (Wrap (''invalid hex at position '' @ itoa (int i)) (Foreign ''fmt.Sscanf''))
      | Some v \<Rightarrow> and_then (decode_pairs (i + 2) s) (\<lambda>b. Inr (char_of v # b)))"
| "decode_pairs i s = Inr []"

definition decodeHexKey :: "bytes \<Rightarrow> bytes res" where
  "decodeHexKey s = (if length s \<noteq> 128 then Inl (Err ''must be 64-byte hex string'') else decode_pairs 0 s)"

section \<open>The migration\<close>

record migrate_opts =
  mg_src :: bytes
  mg_dst :: bytes
  mg_tessera_path :: bytes
  mg_tessera_log_name :: bytes
  mg_operator_key :: bytes
  mg_batch_size :: int
  mg_dry_run :: bool

definition migrate_defaults :: migrate_opts where
  "migrate_defaults =
     \<lparr>mg_src = ''siqlah.db'', mg_dst = ''siqlah-v2.db'', mg_tessera_path = ''./tessera-data/'',
      mg_tessera_log_name = ''siqlah.dev/log'', mg_operator_key = [], mg_batch_size = 500, mg_dry_run = False\<rparr>"

definition migrate_flags :: "migrate_opts flag list" where
  "migrate_flags =
     [str_flag ''src'' (\<lambda>x r. r\<lparr>mg_src := x\<rparr>), str_flag ''dst'' (\<lambda>x r. r\<lparr>mg_dst := x\<rparr>),
      str_flag ''tessera-storage-path'' (\<lambda>x r. r\<lparr>mg_tessera_path := x\<rparr>),
      str_flag ''tessera-log-name'' (\<lambda>x r. r\<lparr>mg_tessera_log_name := x\<rparr>),
      str_flag ''operator-key'' (\<lambda>x r. r\<lparr>mg_operator_key := x\<rparr>),
      int_flag ''batch-size'' (\<lambda>x r. r\<lparr>mg_batch_size := x\<rparr>), bool_flag ''dry-run'' (\<lambda>x r. r\<lparr>mg_dry_run := x\<rparr>)]"

text \<open>The inner loop appends a batch to the destination: the count grows with each receipt, and the first error
  ends the program.\<close>

fun append_all :: "(receipt \<Rightarrow> ('d, int) op) \<Rightarrow> receipt list \<Rightarrow> int \<Rightarrow> ('d, int) op" where
  "append_all app [] migrated = ret_op migrated"
| "append_all app (r # rs) migrated =
     bind_op (wrap_op (''append receipt '' @ r_ID r) (app r)) (\<lambda>_. append_all app rs (wrap64 (migrated + 1)))"

text \<open>The outer loop over ranges of keys, from \<open>startID\<close>; \<open>None\<close> when it does not return.\<close>

partial_function (option) migrate_loop ::
  "(receipt \<Rightarrow> ('d, int) op) \<Rightarrow> int \<Rightarrow> int \<Rightarrow> int \<Rightarrow> db \<times> 'd \<Rightarrow> (int res \<times> db \<times> 'd) option" where
  "migrate_loop app batchSize startID migrated x =
     (case GetReceiptsByRange startID (wrap64 (wrap64 (startID + batchSize) - 1)) (fst x) of (batch, src) \<Rightarrow>
      case batch of
        Inl e \<Rightarrow> Some (Inl (Wrap (''read batch starting at '' @ itoa startID) e), src, snd x)
      | Inr rs \<Rightarrow>
          if rs = [] then Some (Inr migrated, src, snd x)
          else
            (case append_all app rs migrated (snd x) of (r, dst) \<Rightarrow>
             case r of
               Inl e \<Rightarrow> Some (Inl e, src, dst)
             | Inr n \<Rightarrow>
                 migrate_loop app batchSize (wrap64 (wrap64 (wrap64 (startID + batchSize) - 1) + 1)) n (src, dst)))"

text \<open>The subcommand after its flags: opening the destination is an argument, and the exit by \<^verbatim>\<open>log.Fatalf\<close> or
  \<^verbatim>\<open>os.Exit(1)\<close> is an error. The progress lines of the log are left out.\<close>

definition migrate_into ::
  "(receipt \<Rightarrow> ('d, int) op) \<Rightarrow> 'd res \<Rightarrow> int \<Rightarrow> db \<Rightarrow> (int res \<times> db \<times> 'd option) option" where
  "migrate_into app opened batchSize src =
     (case wrap_err ''open destination'' opened of
        Inl e \<Rightarrow> Some (Inl e, src, None)
      | Inr dst \<Rightarrow> map_option (\<lambda>(r, s, d). (r, s, Some d)) (migrate_loop app batchSize 1 0 (src, dst)))"

definition runMigrate ::
  "(receipt \<Rightarrow> ('d, int) op) \<Rightarrow> (migrate_opts \<Rightarrow> bytes \<Rightarrow> 'd res) \<Rightarrow> (bytes \<Rightarrow> db res) \<Rightarrow> bytes list \<Rightarrow> 'w os \<Rightarrow>
   (int res \<times> 'd option \<times> 'w os) option" where
  "runMigrate app open_dst open_src args s =
     (case parse_flags migrate_flags args migrate_defaults of
        Inl e \<Rightarrow> Some (Inl e, None, s)
      | Inr fs \<Rightarrow>
          if mg_operator_key fs = [] \<and> \<not> mg_dry_run fs
          then Some (Inl (Err ''--operator-key is required for non-dry-run migration''), None,
                     print_error (''error: --operator-key is required for non-dry-run migration'' @ [newline]) s)
          else
            (case and_then (wrap_err ''open source'' (open_src (mg_src fs))) (\<lambda>src.
                    case Stats src of (st, src) \<Rightarrow> and_then (wrap_err ''source stats'' st) (\<lambda>st. Inr (st, src))) of
               Inl e \<Rightarrow> Some (Inl e, None, s)
             | Inr (st, src) \<Rightarrow>
                 (let s = log_line (''source: '' @ itoa (st_TotalReceipts st) @ '' receipts to migrate'') s
                  in if mg_dry_run fs
                     then Some (Inr 0, None, snd (println
                            (''dry-run: would migrate '' @ itoa (st_TotalReceipts st) @ '' receipts from '' @
                             go_quote (mg_src fs) @ '' to Tessera at '' @ go_quote (mg_tessera_path fs)) s))
                     else case wrap_err ''invalid --operator-key'' (decodeHexKey (mg_operator_key fs)) of
                         Inl e \<Rightarrow> Some (Inl e, None, s)
                       | Inr priv \<Rightarrow>
                           map_option (\<lambda>(r, _, d). (r, d, case r of
                               Inl _ \<Rightarrow> s
                             | Inr n \<Rightarrow> log_line (''migration complete: '' @ itoa n @ '' receipts written to Tessera store'') s))
                             (migrate_into app (open_dst fs priv) (mg_batch_size fs) src))))"

end
