(* ===== verification/Monitor.thy ===== *)
theory Monitor
  imports GoOs
begin

text \<open>
  \<^verbatim>\<open>internal/monitor\<close>: the daemon that polls the statistics, the checkpoints and the receipts of a ledger and
  alerts when the counts of a provider differ from the verified ones. The alerters are a data type, the
  memory alerters have an address, and a pass is a function of the world that is \<open>None\<close> when it panics.
\<close>

section \<open>The state\<close>

record discrepancy_alert =
  da_ReceiptID :: bytes
  da_Provider :: bytes
  da_Model :: bytes
  da_Tenant :: bytes
  da_ProviderInputTokens :: int
  da_VerifiedInputTokens :: int
  da_InputDiscrepancyPct :: f64
  da_ProviderOutputTokens :: int
  da_VerifiedOutputTokens :: int
  da_OutputDiscrepancyPct :: f64
  da_Threshold :: f64

record 'w webhook_alerter =
  wb_URL :: bytes
  wb_client :: "'w http_client"
  wb_Headers :: "(bytes \<times> bytes) list"

datatype 'w alerter =
    LogAlerter
  | WebhookAlerter "'w webhook_alerter"
  | MultiAlerter "'w alerter list"
  | MemoryAlerter nat

record 'w world =
  wd_os :: "'w os"
  wd_Alerts :: "nat \<Rightarrow> discrepancy_alert list"

definition on_os :: "('w os \<Rightarrow> 'w os) \<Rightarrow> 'w world \<Rightarrow> 'w world" where
  "on_os f w = w\<lparr>wd_os := f (wd_os w)\<rparr>"

record 'w monitor =
  mo_ledgerURL :: bytes
  mo_client :: "'w http_client"
  mo_alerter :: "'w alerter"
  mo_interval :: int
  mo_threshold :: f64
  mo_lastSeenID :: bytes

record 'w monitor_config =
  mc_LedgerURL :: bytes
  mc_Alerter :: "'w alerter option"
  mc_Interval :: int
  mc_Threshold :: f64

definition NewMonitor :: "'w net_lib \<Rightarrow> 'w monitor_config \<Rightarrow> 'w monitor" where
  "NewMonitor nl cfg =
     \<lparr>mo_ledgerURL = mc_LedgerURL cfg, mo_client = net_client nl (10 * second),
      mo_alerter = (case mc_Alerter cfg of None \<Rightarrow> LogAlerter | Some a \<Rightarrow> a),
      mo_interval = (if mc_Interval cfg \<le> 0 then 30 * second else mc_Interval cfg),
      mo_threshold = (if mc_Threshold cfg \<le> Fin 0 then Fin 5 else mc_Threshold cfg), mo_lastSeenID = []\<rparr>"

section \<open>Alerters\<close>

definition LogAlerter_Alert :: "discrepancy_alert \<Rightarrow> 'w world \<Rightarrow> 'w world" where
  "LogAlerter_Alert a =
     on_os (log_line
       (''DISCREPANCY receipt='' @ da_ReceiptID a @ '' provider='' @ da_Provider a @ '' model='' @ da_Model a @
        '' tenant='' @ da_Tenant a @ '' in_provider='' @ itoa (da_ProviderInputTokens a) @
        '' in_verified='' @ itoa (da_VerifiedInputTokens a) @
        '' in_pct='' @ fmt_fixed 2 (da_InputDiscrepancyPct a) @ ''% '' @
        ''out_provider='' @ itoa (da_ProviderOutputTokens a) @
        '' out_verified='' @ itoa (da_VerifiedOutputTokens a) @
        '' out_pct='' @ fmt_fixed 2 (da_OutputDiscrepancyPct a) @ ''% threshold='' @ fmt_fixed 1 (da_Threshold a) @ ''%''))"

definition NewWebhookAlerter :: "'w net_lib \<Rightarrow> bytes \<Rightarrow> 'w alerter" where
  "NewWebhookAlerter nl url =
     WebhookAlerter \<lparr>wb_URL = url, wb_client = net_client nl (10 * second), wb_Headers = []\<rparr>"

text \<open>The struct has no tags: the members have the names of the fields.\<close>

definition marshal_alert :: "discrepancy_alert \<Rightarrow> jval res" where
  "marshal_alert a = jobj
     [m_str ''ReceiptID'' (da_ReceiptID a), m_str ''Provider'' (da_Provider a), m_str ''Model'' (da_Model a),
      m_str ''Tenant'' (da_Tenant a), m_int ''ProviderInputTokens'' (da_ProviderInputTokens a),
      m_int ''VerifiedInputTokens'' (da_VerifiedInputTokens a),
      m_float ''InputDiscrepancyPct'' (da_InputDiscrepancyPct a),
      m_int ''ProviderOutputTokens'' (da_ProviderOutputTokens a),
      m_int ''VerifiedOutputTokens'' (da_VerifiedOutputTokens a),
      m_float ''OutputDiscrepancyPct'' (da_OutputDiscrepancyPct a), m_float ''Threshold'' (da_Threshold a)]"

definition marshal_webhook_payload :: "gotime \<Rightarrow> discrepancy_alert \<Rightarrow> jval res" where
  "marshal_webhook_payload t a = jobj
     [m_str ''event'' ''discrepancy'', m_str ''timestamp'' (date_time (t_sec t) 0 @ ''Z''),
      m_val ''alert'' (marshal_alert a)]"

text \<open>The form of a header name that \<^verbatim>\<open>Header.Set\<close> uses as its key.\<close>

definition header_byte :: "char \<Rightarrow> bool" where
  "header_byte c =
     (is_digit c \<or> (65 \<le> code c \<and> code c \<le> 90) \<or> (97 \<le> code c \<and> code c \<le> 122) \<or>
      c \<in> set (''!#$%&'' @ [char_of (39 :: nat)] @ ''*+-.^_'' @ [char_of (96 :: nat)] @ ''|~''))"

fun header_case :: "bool \<Rightarrow> bytes \<Rightarrow> bytes" where
  "header_case first [] = []"
| "header_case first (c # s) = (if first then upper c else lower c) # header_case (c = CHR ''-'') s"

definition header_key :: "bytes \<Rightarrow> bytes" where
  "header_key s = (if list_all header_byte s then header_case True s else s)"

text \<open>The headers of the alerter are listed in the order the loop takes them from the map.\<close>

definition WebhookAlerter_Alert ::
  "'w net_lib \<Rightarrow> 'w webhook_alerter \<Rightarrow> discrepancy_alert \<Rightarrow> 'w world \<Rightarrow> 'w world" where
  "WebhookAlerter_Alert nl wb a w =
     (case net_now nl (os_net (wd_os w)) of (t, n) \<Rightarrow>
      let w1 = on_os (\<lambda>s. s\<lparr>os_net := n\<rparr>) w
      in case marshal_webhook_payload t a of
           Inl e \<Rightarrow> on_os (log_line (''webhook alert: marshal: '' @ err_text e)) w1
         | Inr body \<Rightarrow>
             (case net_url nl (wb_URL wb) of
                Some e \<Rightarrow> on_os (log_line (''webhook alert: create request: '' @ err_text e)) w1
              | None \<Rightarrow>
                  (let hs = foldl (\<lambda>m (k, v). AList.update (header_key k) v m)
                              [(''Content-Type'', ''application/json'')] (wb_Headers wb)
                   in case on_net (hc_post (wb_client wb) (wb_URL wb) hs (jtext body)) (wd_os w1) of (r, s) \<Rightarrow>
                      let w2 = w1\<lparr>wd_os := s\<rparr>
                      in case r of
                           Inl e \<Rightarrow> on_os (log_line (''webhook alert: send: '' @ err_text e)) w2
                         | Inr resp \<Rightarrow>
                             if hr_status resp \<ge> 400
                             then on_os (log_line (''webhook alert: server returned '' @ itoa (hr_status resp))) w2
                             else w2)))"

definition MemoryAlerter_Alert :: "nat \<Rightarrow> discrepancy_alert \<Rightarrow> 'w world \<Rightarrow> 'w world" where
  "MemoryAlerter_Alert i a w = w\<lparr>wd_Alerts := (wd_Alerts w)(i := wd_Alerts w i @ [a])\<rparr>"

text \<open>\<^verbatim>\<open>Alert\<close> of the interface; a multi alerter calls its alerters in order.\<close>

fun Alert :: "'w net_lib \<Rightarrow> 'w alerter \<Rightarrow> discrepancy_alert \<Rightarrow> 'w world \<Rightarrow> 'w world" where
  "Alert nl LogAlerter a w = LogAlerter_Alert a w"
| "Alert nl (WebhookAlerter wb) a w = WebhookAlerter_Alert nl wb a w"
| "Alert nl (MemoryAlerter i) a w = MemoryAlerter_Alert i a w"
| "Alert nl (MultiAlerter als) a w = foldl (\<lambda>w al. Alert nl al a w) w als"

definition NewMultiAlerter :: "'w alerter list \<Rightarrow> 'w alerter" where
  "NewMultiAlerter als = MultiAlerter als"

definition alert_String :: "discrepancy_alert \<Rightarrow> bytes" where
  "alert_String a =
     ''receipt='' @ da_ReceiptID a @ '' provider='' @ da_Provider a @
     '' in_pct='' @ fmt_fixed 2 (da_InputDiscrepancyPct a) @ ''% out_pct='' @
     fmt_fixed 2 (da_OutputDiscrepancyPct a) @ ''%''"

section \<open>Comparing counts\<close>

text \<open>The difference of two \<^verbatim>\<open>int64\<close> values wraps; the absolute value is taken of the difference only.\<close>

definition discrepancy :: "int \<Rightarrow> int \<Rightarrow> f64" where
  "discrepancy provider verified =
     (if provider = 0 then (if verified = 0 then Fin 0 else Fin 100)
      else (let d = f_of_int (wrap64 (provider - verified));
                d = (if d < Fin 0 then fneg d else d)
            in fmul (fdiv d (f_of_int provider)) (Fin 100)))"

definition checkReceipt :: "'w net_lib \<Rightarrow> 'w monitor \<Rightarrow> receipt \<Rightarrow> 'w world \<Rightarrow> 'w world" where
  "checkReceipt nl m r w =
     (if r_VerifiedInputTokens r = 0 \<and> r_VerifiedOutputTokens r = 0 then w
      else
        (let inDisc = discrepancy (r_InputTokens r) (r_VerifiedInputTokens r);
             outDisc = discrepancy (r_OutputTokens r) (r_VerifiedOutputTokens r)
         in if mo_threshold m < inDisc \<or> mo_threshold m < outDisc
            then Alert nl (mo_alerter m)
                   \<lparr>da_ReceiptID = r_ID r, da_Provider = r_Provider r, da_Model = r_Model r,
                    da_Tenant = r_Tenant r, da_ProviderInputTokens = r_InputTokens r,
                    da_VerifiedInputTokens = r_VerifiedInputTokens r, da_InputDiscrepancyPct = inDisc,
                    da_ProviderOutputTokens = r_OutputTokens r,
                    da_VerifiedOutputTokens = r_VerifiedOutputTokens r, da_OutputDiscrepancyPct = outDisc,
                    da_Threshold = mo_threshold m\<rparr> w
            else w))"

section \<open>Polling\<close>

record stats_resp =
  sp_TotalReceipts :: int
  sp_TotalCheckpoints :: int
  sp_PendingBatch :: int

definition stats_fields :: "stats_resp fields" where
  "stats_fields =
     [(''total_receipts'', fld dec_int64 (\<lambda>x r. r\<lparr>sp_TotalReceipts := x\<rparr>)),
      (''total_checkpoints'', fld dec_int64 (\<lambda>x r. r\<lparr>sp_TotalCheckpoints := x\<rparr>)),
      (''pending_batch'', fld dec_int64 (\<lambda>x r. r\<lparr>sp_PendingBatch := x\<rparr>))]"

record checkpoint_ref =
  cf_ID :: int
  cf_BatchStart :: int
  cf_BatchEnd :: int
  cf_TreeSize :: int

definition zero_ref :: checkpoint_ref where
  "zero_ref = \<lparr>cf_ID = 0, cf_BatchStart = 0, cf_BatchEnd = 0, cf_TreeSize = 0\<rparr>"

definition ref_fields :: "checkpoint_ref fields" where
  "ref_fields =
     [(''ID'', fld dec_int64 (\<lambda>x r. r\<lparr>cf_ID := x\<rparr>)),
      (''BatchStart'', fld dec_int64 (\<lambda>x r. r\<lparr>cf_BatchStart := x\<rparr>)),
      (''BatchEnd'', fld dec_int64 (\<lambda>x r. r\<lparr>cf_BatchEnd := x\<rparr>)),
      (''TreeSize'', fld dec_int64 (\<lambda>x r. r\<lparr>cf_TreeSize := x\<rparr>))]"

definition checkpoints_fields :: "checkpoint_ref list fields" where
  "checkpoints_fields = [(''checkpoints'', slice ref_fields zero_ref id (\<lambda>x _. x))]"

text \<open>A receipt in a response: \<^verbatim>\<open>null\<close> leaves a field alone.\<close>

definition receipt_wire :: "receipt fields" where
  "receipt_wire = map (\<lambda>(n, d). (n, \<lambda>v r. if v = JNull then Inr r else d v r)) receipt_fields"

definition receipts_fields :: "receipt list fields" where
  "receipts_fields = [(''receipts'', slice receipt_wire zero_receipt id (\<lambda>x _. x))]"

text \<open>The error of \<^verbatim>\<open>NewRequestWithContext\<close> is dropped; \<^verbatim>\<open>Do\<close> then panics on the \<^verbatim>\<open>nil\<close> request.\<close>

definition fetch :: "'w net_lib \<Rightarrow> 'w monitor \<Rightarrow> bytes \<Rightarrow> 'w os \<Rightarrow> (http_response res \<times> 'w os) option" where
  "fetch nl m url s =
     (if net_url nl url \<noteq> None then None else Some (on_net (hc_get (mo_client m) url) s))"

definition fetched :: "(http_response \<Rightarrow> 'a res) \<Rightarrow> (http_response res \<times> 'w os) option \<Rightarrow> ('a res \<times> 'w os) option" where
  "fetched d x = map_option (\<lambda>(r, s). (and_then r d, s)) x"

definition fetchStats :: "'w net_lib \<Rightarrow> 'w monitor \<Rightarrow> 'w os \<Rightarrow> (stats_resp res \<times> 'w os) option" where
  "fetchStats nl m s =
     fetched (decode_response (dec_object stats_fields \<lparr>sp_TotalReceipts = 0, sp_TotalCheckpoints = 0, sp_PendingBatch = 0\<rparr>))
       (fetch nl m (mo_ledgerURL m @ ''/v1/stats'') s)"

definition fetchCheckpoints ::
  "'w net_lib \<Rightarrow> 'w monitor \<Rightarrow> int \<Rightarrow> int \<Rightarrow> 'w os \<Rightarrow> (checkpoint_ref list res \<times> 'w os) option" where
  "fetchCheckpoints nl m offset limit s =
     fetched (\<lambda>resp. case unmarshal_with (dec_object checkpoints_fields []) (hr_body resp) of
                Inl e \<Rightarrow> Inl (Err (''parse checkpoints: '' @ err_text e @ '' (body: '' @ hr_body resp @ '')''))
              | Inr cps \<Rightarrow> Inr cps)
       (fetch nl m (mo_ledgerURL m @ ''/v1/checkpoints?offset='' @ itoa offset @ ''&limit='' @ itoa limit) s)"

definition fetchReceiptRange ::
  "'w net_lib \<Rightarrow> 'w monitor \<Rightarrow> int \<Rightarrow> int \<Rightarrow> 'w os \<Rightarrow> (receipt list res \<times> 'w os) option" where
  "fetchReceiptRange nl m start end_id s =
     fetched (decode_response (dec_object receipts_fields []))
       (fetch nl m (mo_ledgerURL m @ ''/v1/receipts?batch_start='' @ itoa start @ ''&batch_end='' @ itoa end_id) s)"

text \<open>The loop over the checkpoints: one whose receipts cannot be fetched is skipped.\<close>

fun check_checkpoints ::
  "'w net_lib \<Rightarrow> 'w monitor \<Rightarrow> checkpoint_ref list \<Rightarrow> 'w world \<Rightarrow> 'w world option" where
  "check_checkpoints nl m [] w = Some w"
| "check_checkpoints nl m (cp # cps) w =
     (case fetchReceiptRange nl m (cf_BatchStart cp) (cf_BatchEnd cp) (wd_os w) of
        None \<Rightarrow> None
      | Some (r, s) \<Rightarrow>
          (let w1 = w\<lparr>wd_os := s\<rparr>
           in check_checkpoints nl m cps
                (case r of
                   Inl e \<Rightarrow> on_os (log_line (''monitor: fetch receipts for cp '' @ itoa (cf_ID cp) @ '': '' @ err_text e)) w1
                 | Inr receipts \<Rightarrow> foldl (\<lambda>w r. checkReceipt nl m r w) w1 receipts)))"

definition tick :: "'w net_lib \<Rightarrow> 'w monitor \<Rightarrow> 'w world \<Rightarrow> 'w world option" where
  "tick nl m w =
     (case fetchStats nl m (wd_os w) of
        None \<Rightarrow> None
      | Some (Inl e, s) \<Rightarrow> Some (w\<lparr>wd_os := log_line (''monitor: fetch stats: '' @ err_text e) s\<rparr>)
      | Some (Inr stats, s) \<Rightarrow>
          (case fetchCheckpoints nl m 0 50
                  (log_line (''monitor: ledger total_receipts='' @ itoa (sp_TotalReceipts stats) @
                             '' pending_batch='' @ itoa (sp_PendingBatch stats)) s) of
             None \<Rightarrow> None
           | Some (Inl e, s) \<Rightarrow> Some (w\<lparr>wd_os := log_line (''monitor: fetch checkpoints: '' @ err_text e) s\<rparr>)
           | Some (Inr cps, s) \<Rightarrow> check_checkpoints nl m cps (w\<lparr>wd_os := s\<rparr>)))"

text \<open>\<^verbatim>\<open>Run\<close>: what the \<^verbatim>\<open>select\<close> takes, in order. It blocks when nothing more comes.\<close>

datatype loop_event = Ticked | Cancelled

fun monitor_loop :: "'w net_lib \<Rightarrow> 'w monitor \<Rightarrow> loop_event list \<Rightarrow> 'w world \<Rightarrow> 'w world option" where
  "monitor_loop nl m [] w = Some w"
| "monitor_loop nl m (Cancelled # es) w = Some (on_os (log_line ''monitor: stopped'') w)"
| "monitor_loop nl m (Ticked # es) w = Option.bind (tick nl m w) (monitor_loop nl m es)"

definition monitor_Run :: "'w net_lib \<Rightarrow> 'w monitor \<Rightarrow> loop_event list \<Rightarrow> 'w world \<Rightarrow> 'w world option" where
  "monitor_Run nl m es w =
     Option.bind
       (tick nl m
          (on_os (log_line (''monitor: starting, ledger='' @ mo_ledgerURL m @ '' interval='' @
             duration_text (mo_interval m) @ '' threshold='' @ fmt_fixed 1 (mo_threshold m) @ ''%'')) w))
       (monitor_loop nl m es)"

section \<open>Lemmas\<close>

lemma lookup_wire:
  "lookup_field (map (\<lambda>(n, d). (n, \<lambda>v r. if v = JNull then Inr r else d v r)) fs) k =
     map_option (\<lambda>d v r. if v = JNull then Inr r else d v r) (lookup_field fs k)"
  by (induction fs) auto

text \<open>The two decoders of a receipt agree.\<close>

lemma decode_wire: "decode_fields receipt_wire ms r = decode_members receipt_fields ms r"
  by (induction ms arbitrary: r) (auto simp: receipt_wire_def lookup_wire and_then_def split: option.splits sum.splits)

lemma unmarshal_wire: "unmarshal_with (dec_object receipt_wire zero_receipt) s = unmarshal_receipt s"
  by (simp add: unmarshal_with_def unmarshal_receipt_def unmarshal_struct_def dec_object_def decode_wire
      split: option.splits jval.splits)

text \<open>Equal counts never raise an alert, whatever the threshold above zero.\<close>

lemma fl_0_mul: "fmul (Fin 0) (Fin 100) = Fin 0" "fmul NegZero (Fin 100) = NegZero"
  by (simp_all add: fmul_def magnitude_def with_sign_def neg_bit_def fneg_def)

lemma zero_div: "fdiv (Fin 0) y \<in> {Fin 0, NegZero, NaN}"
  by (cases y) (auto simp: fdiv_def magnitude_def with_sign_def neg_bit_def fneg_def)

lemma wrap64_0 [simp]: "wrap64 0 = 0"
  by (simp add: wrap64_def)

lemma no_false_alert:
  assumes "Fin 0 < threshold"
  shows "\<not> threshold < discrepancy n n"
proof -
  have z: "f_of_int 0 = Fin 0" "\<not> Fin 0 < Fin 0" by (simp_all add: f_of_int_def less_f64_def flt_def)
  have "discrepancy n n = (if n = 0 then Fin 0 else fmul (fdiv (Fin 0) (f_of_int n)) (Fin 100))"
    by (simp add: discrepancy_def Let_def z)
  also have "\<dots> \<in> {Fin 0, NegZero, NaN}"
    using zero_div [of "f_of_int n"] fl_0_mul by (auto simp: fmul_def [of NaN])
  finally have "discrepancy n n \<in> {Fin 0, NegZero, NaN}" .
  then show ?thesis using assms by (auto simp: less_f64_def flt_def fval_def split: f64.splits if_splits)
qed

end
