(* ===== verification/CmdVerifier.thy ===== *)
theory CmdVerifier
  imports Monitor
begin

text \<open>
  \<^verbatim>\<open>cmd/verifier\<close>: the client that checks a receipt, its counts and its inclusion proof, and reconciles a local
  log with a ledger. A command is an operation on the process; it is an \<open>option\<close> where the code could panic.
\<close>

record 'w verifier_lib =
  vl_sha :: sha_fun
  vl_ed :: ed25519
  vl_client :: "'w http_client"
  vl_time_string :: "gotime \<Rightarrow> bytes"
  vl_parse_float :: "bytes \<Rightarrow> f64 option"

text \<open>\<^verbatim>\<open>vl_time_string\<close> is \<^verbatim>\<open>Time.String\<close>, which depends on the zone of the machine.\<close>

definition say :: "bytes list \<Rightarrow> ('w os, unit) op" where
  "say parts = println (concat parts)"

section \<open>Helpers\<close>

definition loadReceipt :: "bytes \<Rightarrow> ('w os, receipt) op" where
  "loadReceipt path =
     bind_op (wrap_op ''read receipt file'' (read_file path)) (\<lambda>data.
     lift_op (wrap_err ''parse receipt'' (unmarshal_with (dec_object receipt_wire zero_receipt) data)))"

definition hexToBytes :: "bytes \<Rightarrow> bytes res" where
  "hexToBytes h = or_fail (Foreign ''encoding/hex'') (hex_decode h)"

fun parseHexHashes_from :: "nat \<Rightarrow> bytes list \<Rightarrow> bytes list res" where
  "parseHexHashes_from i [] = Inr []"
| "parseHexHashes_from i (h # hs) =
     and_then (wrap_err (''parse hash['' @ itoa (int i) @ ''] '' @ go_quote h) (ParseRoot h)) (\<lambda>parsed.
     and_then (parseHexHashes_from (i + 1) hs) (\<lambda>out. Inr (parsed # out)))"

definition parseHexHashes :: "bytes list \<Rightarrow> bytes list res" where
  "parseHexHashes hexes = parseHexHashes_from 0 hexes"

definition discrepancy_cli :: "int \<Rightarrow> int \<Rightarrow> f64" where
  "discrepancy_cli a b =
     (if a = 0 \<and> b = 0 then Fin 0
      else if a = 0 then Fin 100
      else (let d = f_of_int (wrap64 (a - b));
                d = (if d < Fin 0 then fneg d else d)
            in fmul (fdiv d (f_of_int a)) (Fin 100)))"

section \<open>Requests\<close>

record inclusion_proof_resp =
  pr_ReceiptID :: bytes
  pr_CheckpointID :: int
  pr_LeafIndex :: int
  pr_TreeSize :: int
  pr_RootHex :: bytes
  pr_Proof :: "bytes list"

definition zero_proof_resp :: inclusion_proof_resp where
  "zero_proof_resp =
     \<lparr>pr_ReceiptID = [], pr_CheckpointID = 0, pr_LeafIndex = 0, pr_TreeSize = 0, pr_RootHex = [], pr_Proof = []\<rparr>"

definition proof_resp_fields :: "inclusion_proof_resp fields" where
  "proof_resp_fields =
     [(''receipt_id'', fld dec_str (\<lambda>x r. r\<lparr>pr_ReceiptID := x\<rparr>)),
      (''checkpoint_id'', fld dec_int64 (\<lambda>x r. r\<lparr>pr_CheckpointID := x\<rparr>)),
      (''leaf_index'', fld dec_int64 (\<lambda>x r. r\<lparr>pr_LeafIndex := x\<rparr>)),
      (''tree_size'', fld dec_int64 (\<lambda>x r. r\<lparr>pr_TreeSize := x\<rparr>)),
      (''root_hex'', fld dec_str (\<lambda>x r. r\<lparr>pr_RootHex := x\<rparr>)),
      (''proof'', slice_of (fld dec_str (\<lambda>x _. x)) [] pr_Proof (\<lambda>x r. r\<lparr>pr_Proof := x\<rparr>))]"

definition fetchInclusionProof :: "'w verifier_lib \<Rightarrow> bytes \<Rightarrow> bytes \<Rightarrow> ('w os, inclusion_proof_resp) op" where
  "fetchInclusionProof vl ledger receiptID =
     bind_op (on_net (hc_get (vl_client vl) (ledger @ ''/v1/receipts/'' @ receiptID @ ''/proof''))) (\<lambda>resp.
     lift_op (if hr_status resp \<noteq> 200 then Inl (status_error ''server returned '' resp)
              else decode_response (dec_object proof_resp_fields zero_proof_resp) resp))"

definition fetchReceiptFromLedger :: "'w verifier_lib \<Rightarrow> bytes \<Rightarrow> bytes \<Rightarrow> ('w os, receipt option) op" where
  "fetchReceiptFromLedger vl ledger receiptID =
     bind_op (on_net (hc_get (vl_client vl) (ledger @ ''/v1/receipts/'' @ receiptID))) (\<lambda>resp.
     lift_op (if hr_status resp = 404 then Inr None
              else if hr_status resp \<noteq> 200 then Inl (status_error ''server returned '' resp)
              else map_sum id Some (decode_response (dec_object receipt_wire zero_receipt) resp)))"

section \<open>verify-receipt\<close>

record verify_receipt_opts =
  vr_receipt :: bytes
  vr_pub :: bytes

definition runVerifyReceipt :: "'w verifier_lib \<Rightarrow> bytes list \<Rightarrow> ('w os, unit) op" where
  "runVerifyReceipt vl args =
     bind_op (lift_op (parse_flags
       [str_flag ''receipt'' (\<lambda>x r. r\<lparr>vr_receipt := x\<rparr>), str_flag ''pub'' (\<lambda>x r. r\<lparr>vr_pub := x\<rparr>)]
       args \<lparr>vr_receipt = [], vr_pub = []\<rparr>)) (\<lambda>fs.
     if vr_receipt fs = [] \<or> vr_pub fs = [] then lift_op (Inl (Err ''--receipt and --pub are required''))
     else
       bind_op (loadReceipt (vr_receipt fs)) (\<lambda>r.
       bind_op (lift_op (wrap_err ''parse --pub'' (hexToBytes (vr_pub fs)))) (\<lambda>pub.
       if length pub \<noteq> 32
       then lift_op (Inl (Err (''expected 32-byte ed25519 public key, got '' @ itoa (int (length pub)) @ '' bytes'')))
       else case VerifyReceipt (vl_ed vl) r pub of
           Inl e \<Rightarrow> bind_op (say [''receipt '', r_ID r, '': INVALID ('', err_text e, '')'']) (\<lambda>_. lift_op (Inl e))
         | Inr _ \<Rightarrow>
             bind_op (say [''receipt '', r_ID r, '': VALID'']) (\<lambda>_.
             bind_op (say [''  provider:      '', r_Provider r]) (\<lambda>_.
             bind_op (say [''  model:         '', r_Model r]) (\<lambda>_.
             bind_op (say [''  input_tokens:  '', itoa (r_InputTokens r)]) (\<lambda>_.
             bind_op (say [''  output_tokens: '', itoa (r_OutputTokens r)]) (\<lambda>_.
             say [''  timestamp:     '', vl_time_string vl (r_Timestamp r)]))))))))"

section \<open>verify-tokens\<close>

definition runVerifyTokens :: "bytes list \<Rightarrow> ('w os, unit) op" where
  "runVerifyTokens args =
     bind_op (lift_op (parse_flags [str_flag ''receipt'' (\<lambda>x _. x)] args [])) (\<lambda>receiptPath.
     if receiptPath = [] then lift_op (Inl (Err ''--receipt is required''))
     else
       bind_op (loadReceipt receiptPath) (\<lambda>r.
       bind_op (say [''receipt '', r_ID r]) (\<lambda>_.
       bind_op (say [''  provider:              '', r_Provider r]) (\<lambda>_.
       bind_op (say [''  model:                 '', r_Model r]) (\<lambda>_.
       bind_op (say [''  provider_input_tokens: '', itoa (r_InputTokens r)]) (\<lambda>_.
       bind_op (say [''  provider_output_tokens:'', itoa (r_OutputTokens r)]) (\<lambda>_.
       if r_VerifiedInputTokens r > 0 \<or> r_VerifiedOutputTokens r > 0 then
         (let discIn = discrepancy_cli (r_InputTokens r) (r_VerifiedInputTokens r);
              discOut = discrepancy_cli (r_OutputTokens r) (r_VerifiedOutputTokens r)
          in bind_op (say [''  verified_input_tokens: '', itoa (r_VerifiedInputTokens r)]) (\<lambda>_.
             bind_op (say [''  verified_output_tokens:'', itoa (r_VerifiedOutputTokens r)]) (\<lambda>_.
             bind_op (say [''  input_discrepancy_pct: '', fmt_fixed 2 discIn, ''%'']) (\<lambda>_.
             bind_op (say [''  output_discrepancy_pct:'', fmt_fixed 2 discOut, ''%'']) (\<lambda>_.
             if Fin 5 < discIn \<or> Fin 5 < discOut then say [''  STATUS: DISCREPANCY DETECTED'']
             else say [''  STATUS: OK''])))))
       else say [''  verified_tokens: not available (tokenizer verification not run)''])))))))"

section \<open>check-proof\<close>

record check_proof_opts =
  ck_receipt :: bytes
  ck_ledger :: bytes

text \<open>The check of a fetched proof: whether it is valid, before anything is printed. \<open>None\<close> is a call that does
  not return.\<close>

definition check_fetched :: "'w verifier_lib \<Rightarrow> receipt \<Rightarrow> inclusion_proof_resp \<Rightarrow> bool res option" where
  "check_fetched vl r resp =
     (case and_then (wrap_err ''canonical bytes'' (CanonicalBytes r)) (\<lambda>cb.
           and_then (wrap_err ''parse root'' (ParseRoot (pr_RootHex resp))) (\<lambda>rt.
           and_then (wrap_err ''parse proof path'' (parseHexHashes (pr_Proof resp))) (\<lambda>path.
             Inr (HashLeaf (vl_sha vl) cb, rt, path)))) of
        Inl e \<Rightarrow> Some (Inl e)
      | Inr (leafHash, rt, path) \<Rightarrow>
          map_option Inr (VerifyInclusion (vl_sha vl) leafHash rt (pr_LeafIndex resp) (pr_TreeSize resp) path))"

text \<open>The slice \<^verbatim>\<open>RootHex[:16]\<close> panics on a shorter text.\<close>

definition report_proof :: "receipt \<Rightarrow> inclusion_proof_resp \<Rightarrow> 'w os \<Rightarrow> (unit res \<times> 'w os) option" where
  "report_proof r resp s =
     (if length (pr_RootHex resp) < 16 then None
      else Some (bind_op (say [''receipt '', r_ID r, '': PROOF VALID'']) (\<lambda>_.
                 bind_op (say [''  checkpoint_id: '', itoa (pr_CheckpointID resp)]) (\<lambda>_.
                 bind_op (say [''  leaf_index:    '', itoa (pr_LeafIndex resp), '' / '', itoa (pr_TreeSize resp)]) (\<lambda>_.
                 say [''  root_hex:      '', take 16 (pr_RootHex resp), ''...'']))) s))"

definition judge_proof ::
  "'w verifier_lib \<Rightarrow> receipt \<Rightarrow> inclusion_proof_resp \<Rightarrow> 'w os \<Rightarrow> (unit res \<times> 'w os) option" where
  "judge_proof vl r resp s =
     (case check_fetched vl r resp of
        None \<Rightarrow> None
      | Some (Inl e) \<Rightarrow> Some (Inl e, s)
      | Some (Inr valid) \<Rightarrow>
          if \<not> valid
          then Some (bind_op (say [''receipt '', r_ID r, '': PROOF INVALID''])
                       (\<lambda>_. lift_op (Inl (Err ''inclusion proof verification failed''))) s)
          else report_proof r resp s)"

definition runCheckProof :: "'w verifier_lib \<Rightarrow> bytes list \<Rightarrow> 'w os \<Rightarrow> (unit res \<times> 'w os) option" where
  "runCheckProof vl args s =
     (case bind_op (lift_op (parse_flags
             [str_flag ''receipt'' (\<lambda>x r. r\<lparr>ck_receipt := x\<rparr>), str_flag ''ledger'' (\<lambda>x r. r\<lparr>ck_ledger := x\<rparr>)]
             args \<lparr>ck_receipt = [], ck_ledger = []\<rparr>)) (\<lambda>fs.
           if ck_receipt fs = [] \<or> ck_ledger fs = [] then lift_op (Inl (Err ''--receipt and --ledger are required''))
           else bind_op (loadReceipt (ck_receipt fs)) (\<lambda>r.
                bind_op (wrap_op ''fetch proof'' (fetchInclusionProof vl (ck_ledger fs) (r_ID r))) (\<lambda>resp.
                ret_op (r, resp)))) s of
        (Inl e, s) \<Rightarrow> Some (Inl e, s)
      | (Inr (r, resp), s) \<Rightarrow> judge_proof vl r resp s)"

section \<open>reconcile\<close>

record reconcile_opts =
  ro_ledger :: bytes
  ro_local_log :: bytes
  ro_threshold :: f64

text \<open>One receipt of the local log: its line, and how it counts as missing and as a discrepancy.\<close>

definition reconcile_one ::
  "'w verifier_lib \<Rightarrow> bytes \<Rightarrow> f64 \<Rightarrow> receipt \<Rightarrow> 'w os \<Rightarrow> (nat \<times> nat) \<times> 'w os" where
  "reconcile_one vl ledger threshold l s =
     (case fetchReceiptFromLedger vl ledger (r_ID l) s of
        (Inl e, s) \<Rightarrow> ((1, 0), snd (say [''  FETCH_ERROR '', r_ID l, '': '', err_text e] s))
      | (Inr None, s) \<Rightarrow> ((1, 0), snd (say [''  MISSING '', r_ID l, '' (not found on ledger)''] s))
      | (Inr (Some remote), s) \<Rightarrow>
          (let inDisc = discrepancy_cli (r_InputTokens l) (r_InputTokens remote);
               outDisc = discrepancy_cli (r_OutputTokens l) (r_OutputTokens remote)
           in if threshold < inDisc \<or> threshold < outDisc
              then ((0, 1), snd (say
                     [''  DISCREPANCY '', r_ID l, '': local_in='', itoa (r_InputTokens l), '' remote_in='',
                      itoa (r_InputTokens remote), '' ('', fmt_fixed 2 inDisc, ''%) local_out='', itoa (r_OutputTokens l),
                      '' remote_out='', itoa (r_OutputTokens remote), '' ('', fmt_fixed 2 outDisc, ''%)''] s))
              else ((0, 0), s)))"

fun reconcile_all ::
  "'w verifier_lib \<Rightarrow> bytes \<Rightarrow> f64 \<Rightarrow> receipt list \<Rightarrow> nat \<Rightarrow> nat \<Rightarrow> 'w os \<Rightarrow> (nat \<times> nat) \<times> 'w os" where
  "reconcile_all vl ledger threshold [] missing discrepancies s = ((missing, discrepancies), s)"
| "reconcile_all vl ledger threshold (l # ls) missing discrepancies s =
     (case reconcile_one vl ledger threshold l s of
        ((m, d), s) \<Rightarrow> reconcile_all vl ledger threshold ls (missing + m) (discrepancies + d) s)"

definition runReconcile :: "'w verifier_lib \<Rightarrow> bytes list \<Rightarrow> ('w os, unit) op" where
  "runReconcile vl args =
     bind_op (lift_op (parse_flags
       [str_flag ''ledger'' (\<lambda>x r. r\<lparr>ro_ledger := x\<rparr>), str_flag ''local-log'' (\<lambda>x r. r\<lparr>ro_local_log := x\<rparr>),
        float_flag (vl_parse_float vl) ''threshold'' (\<lambda>x r. r\<lparr>ro_threshold := x\<rparr>)]
       args \<lparr>ro_ledger = [], ro_local_log = [], ro_threshold = Fin 1\<rparr>)) (\<lambda>fs.
     if ro_ledger fs = [] \<or> ro_local_log fs = [] then lift_op (Inl (Err ''--ledger and --local-log are required''))
     else
       bind_op (wrap_op ''read local log'' (read_file (ro_local_log fs))) (\<lambda>data.
       bind_op (lift_op (wrap_err ''parse local log''
         (unmarshal_with (dec_list (dec_object receipt_wire zero_receipt)) data))) (\<lambda>localReceipts.
       bind_op (say [''reconciling '', itoa (int (length localReceipts)), '' local receipts against '', ro_ledger fs]) (\<lambda>_ s.
       case reconcile_all vl (ro_ledger fs) (ro_threshold fs) localReceipts 0 0 s of
         ((missing, discrepancies), s) \<Rightarrow>
           bind_op (say [[newline], ''summary: '', itoa (int (length localReceipts)), '' receipts checked, '',
                         itoa (int missing), '' missing, '', itoa (int discrepancies), '' discrepancies (threshold '',
                         fmt_fixed 1 (ro_threshold fs), ''%)'']) (\<lambda>_.
           lift_op (if discrepancies > 0 \<or> missing > 0
                    then Inl (Err (itoa (int discrepancies) @ '' discrepancies, '' @ itoa (int missing) @ '' missing''))
                    else Inr ())) s))))"

section \<open>The command line\<close>

definition verifier_usage :: bytes where
  "verifier_usage = join [newline]
     [''siqlah verifier - client-side receipt and proof verification'',
      [],
      ''Subcommands:'',
      ''  verify-receipt --receipt PATH --pub HEX'',
      ''                                Verify a single receipt's Ed25519 signature'',
      ''  verify-tokens  --receipt PATH'',
      ''                                Report provider-claimed vs verified token counts'',
      ''  check-proof    --receipt PATH --ledger URL [--op-pub HEX]'',
      ''                                Fetch inclusion proof and verify against checkpoint root'',
      ''  reconcile      --ledger URL --local-log PATH [--threshold PCT]'',
      ''                                Compare local usage log against ledger, report discrepancies'']"

text \<open>The exit code, and the process after it.\<close>

definition verifier_main :: "'w verifier_lib \<Rightarrow> bytes list \<Rightarrow> 'w os \<Rightarrow> (int \<times> 'w os) option" where
  "verifier_main vl args s =
     (case args of
        [] \<Rightarrow> Some (1, print_error (verifier_usage @ [newline]) s)
      | c # rest \<Rightarrow>
          (let run = (if c = ''verify-receipt'' then Some (Some (runVerifyReceipt vl rest s))
                      else if c = ''verify-tokens'' then Some (Some (runVerifyTokens rest s))
                      else if c = ''check-proof'' then Some (runCheckProof vl rest s)
                      else if c = ''reconcile'' then Some (Some (runReconcile vl rest s))
                      else None)
           in case run of
                None \<Rightarrow> Some (1, print_error (verifier_usage @ [newline]) s)
              | Some None \<Rightarrow> None
              | Some (Some (Inl e, s)) \<Rightarrow> Some (1, print_error (''error: '' @ err_text e @ [newline]) s)
              | Some (Some (Inr _, s)) \<Rightarrow> Some (0, s)))"

end
