(* ===== verification/WitnessClient.thy ===== *)
theory WitnessClient
  imports GoOs
begin

text \<open>
  \<^verbatim>\<open>internal/witness\<close>, \<^verbatim>\<open>client.go\<close> and \<^verbatim>\<open>feeder.go\<close>: the client of a witness, which fetches, cosigns and
  submits checkpoints, and the feeder, which pushes a checkpoint to external witnesses and remembers the size
  each acknowledged. The tlog-witness client library is a parameter.
\<close>

section \<open>The client\<close>

record 'w witness_client =
  wc_http :: "'w http_client"
  wc_BaseURL :: bytes

definition NewWitnessClient :: "'w net_lib \<Rightarrow> bytes \<Rightarrow> 'w witness_client" where
  "NewWitnessClient net baseURL =
     \<lparr>wc_http = net_client net (30 * second), wc_BaseURL = trim_right_char (CHR ''/'') baseURL\<rparr>"

text \<open>A GET whose answer must be 200, and its whole body.\<close>

definition get_text :: "'w witness_client \<Rightarrow> bytes \<Rightarrow> bytes \<Rightarrow> bytes \<Rightarrow> ('w, bytes) op" where
  "get_text c path what reading =
     bind_op (wrap_op what (hc_get (wc_http c) (wc_BaseURL c @ path))) (\<lambda>resp.
     lift_op (if hr_status resp \<noteq> 200 then Inl (status_error (what @ '': HTTP '') resp)
              else wrap_err reading (read_all resp)))"

definition FetchCheckpoint :: "'w witness_client \<Rightarrow> ('w, c2sp_checkpoint) op" where
  "FetchCheckpoint c =
     bind_op (get_text c ''/v1/witness/checkpoint'' ''fetch checkpoint'' ''read checkpoint body'') (\<lambda>raw.
     lift_op (ParseCheckpoint raw))"

definition VerifyAndCosign :: "('sg, 'vf) note_lib \<Rightarrow> bytes \<Rightarrow> 'vf \<Rightarrow> 'sg \<Rightarrow> bytes res" where
  "VerifyAndCosign nl raw operatorVerifier witnessKey =
     (case nl_Open nl raw [operatorVerifier] of
        Inl e \<Rightarrow> Inl (Wrap ''operator signature invalid'' (open_error_of e))
      | Inr n \<Rightarrow> wrap_err ''cosign'' (nl_Sign nl n [witnessKey]))"

definition SubmitCosignature :: "'w net_lib \<Rightarrow> 'w witness_client \<Rightarrow> bytes \<Rightarrow> ('w, unit) op" where
  "SubmitCosignature net c cosignedCheckpoint =
     (let url = wc_BaseURL c @ ''/v1/witness/cosign''
      in case net_url net url of
           Some e \<Rightarrow> lift_op (Inl (Wrap ''build request'' e))
         | None \<Rightarrow>
             bind_op (wrap_op ''submit cosignature''
               (hc_post (wc_http c) url [(''Content-Type'', ''text/plain'')] cosignedCheckpoint)) (\<lambda>resp.
             lift_op (if hr_status resp \<noteq> 202 \<and> hr_status resp \<noteq> 200
                      then Inl (status_error ''submit cosignature: HTTP '' resp) else Inr ())))"

definition FetchCosignedCheckpoint :: "'w witness_client \<Rightarrow> ('w, bytes) op" where
  "FetchCosignedCheckpoint c =
     get_text c ''/v1/witness/cosigned-checkpoint'' ''fetch cosigned checkpoint'' ''read body''"

section \<open>The feeder\<close>

record 'vf external_witness =
  ew_Name :: bytes
  ew_URL :: bytes
  ew_Verifier :: 'vf

record 'vf feeder =
  fd_witnesses :: "'vf external_witness list"
  fd_lastSizes :: "(bytes \<times> nat) list"

record feed_result =
  fr_WitnessName :: bytes
  fr_Cosigned :: bytes
  fr_Err :: "goerr option"

definition NewWitnessFeeder :: "'vf external_witness list \<Rightarrow> 'vf feeder" where
  "NewWitnessFeeder ws = \<lparr>fd_witnesses = ws, fd_lastSizes = []\<rparr>"

text \<open>\<^verbatim>\<open>url.Parse\<close>, and \<^verbatim>\<open>Update\<close> of the witness client: the cosigned note, a size and an error.\<close>

record 'w tlog_witness =
  tw_url :: "bytes \<Rightarrow> goerr option"
  tw_Update :: "bytes \<Rightarrow> nat \<Rightarrow> bytes \<Rightarrow> bytes list \<Rightarrow> 'w \<Rightarrow> (bytes \<times> nat \<times> goerr option) \<times> 'w"

definition last_size :: "(bytes \<times> nat) list \<Rightarrow> bytes \<Rightarrow> nat" where
  "last_size m name = (case map_of m name of None \<Rightarrow> 0 | Some n \<Rightarrow> n)"

text \<open>What the answer of a witness does to the sizes: a conflict tells the size the witness has, a cosigned note
  is parsed for its own.\<close>

definition acknowledged :: "(bytes \<times> nat) list \<Rightarrow> bytes \<Rightarrow> bytes \<times> nat \<times> goerr option \<Rightarrow> (bytes \<times> nat) list" where
  "acknowledged m name answer =
     (case answer of
        (cosigned, newSize, Some e) \<Rightarrow> if newSize > 0 then AList.update name newSize m else m
      | (cosigned, newSize, None) \<Rightarrow>
          (case ParseCheckpoint cosigned of
             Inl _ \<Rightarrow> m
           | Inr cp \<Rightarrow> if c2_TreeSize cp > 0 then AList.update name (c2_TreeSize cp) m else m))"

definition feedOne ::
  "'w tlog_witness \<Rightarrow> 'vf external_witness \<Rightarrow> bytes \<Rightarrow> bytes list \<Rightarrow> 'vf feeder \<times> 'w os \<Rightarrow> feed_result \<times> 'vf feeder \<times> 'w os" where
  "feedOne tw w rawCP pf x =
     (case x of (f, s) \<Rightarrow>
      case tw_url tw (ew_URL w) of
        Some e \<Rightarrow> (\<lparr>fr_WitnessName = ew_Name w, fr_Cosigned = [], fr_Err = Some (Wrap ''invalid witness URL'' e)\<rparr>, f, s)
      | None \<Rightarrow>
          (case tw_Update tw (ew_URL w) (last_size (fd_lastSizes f) (ew_Name w)) rawCP pf (os_net s) of (answer, n) \<Rightarrow>
           let f' = f\<lparr>fd_lastSizes := acknowledged (fd_lastSizes f) (ew_Name w) answer\<rparr>; s' = s\<lparr>os_net := n\<rparr>
           in case answer of
                (cosigned, newSize, Some e) \<Rightarrow>
                  (\<lparr>fr_WitnessName = ew_Name w, fr_Cosigned = [],
                    fr_Err = Some (Wrap (''update witness '' @ go_quote (ew_Name w)) e)\<rparr>, f', s')
              | (cosigned, newSize, None) \<Rightarrow>
                  (\<lparr>fr_WitnessName = ew_Name w, fr_Cosigned = cosigned, fr_Err = None\<rparr>, f',
                   (case ParseCheckpoint cosigned of
                      Inl _ \<Rightarrow> s'
                    | Inr cp \<Rightarrow>
                        if c2_TreeSize cp > 0
                        then log_line (''witness feeder: '' @ go_quote (ew_Name w) @ '' cosigned tree_size='' @
                                       itoa_nat (c2_TreeSize cp)) s'
                        else s'))))"

fun feed_all ::
  "'w tlog_witness \<Rightarrow> 'vf external_witness list \<Rightarrow> bytes \<Rightarrow> bytes list \<Rightarrow> 'vf feeder \<times> 'w os \<Rightarrow>
   feed_result list \<times> 'vf feeder \<times> 'w os" where
  "feed_all tw [] rawCP pf x = ([], x)"
| "feed_all tw (w # ws) rawCP pf x =
     (case feedOne tw w rawCP pf x of (r, x) \<Rightarrow>
      case feed_all tw ws rawCP pf x of (rs, x) \<Rightarrow> (r # rs, x))"

definition Feed ::
  "'w tlog_witness \<Rightarrow> bytes \<Rightarrow> bytes list \<Rightarrow> 'vf feeder \<times> 'w os \<Rightarrow> feed_result list \<times> 'vf feeder \<times> 'w os" where
  "Feed tw rawCP pf x = feed_all tw (fd_witnesses (fst x)) rawCP pf x"

section \<open>Lemmas\<close>

text \<open>Nothing is cosigned before the operator's signature was accepted.\<close>

lemma VerifyAndCosign_Inr:
  "VerifyAndCosign nl raw v k = Inr out \<Longrightarrow> \<exists>n. nl_Open nl raw [v] = Inr n \<and> nl_Sign nl n [k] = Inr out"
  by (auto simp: VerifyAndCosign_def wrap_err_Inr split: sum.splits)

lemma feedOne_name: "fr_WitnessName (fst (feedOne tw w rawCP pf x)) = ew_Name w"
  by (auto simp: feedOne_def Let_def split: prod.splits option.splits)

lemma feed_all_names: "map fr_WitnessName (fst (feed_all tw ws rawCP pf x)) = map ew_Name ws"
proof (induction ws arbitrary: x)
  case (Cons w ws)
  then show ?case using feedOne_name [of tw w rawCP pf x] by (simp add: case_prod_beta)
qed simp

text \<open>The last answer of a witness with a known size decides what the feeder asks it with next time.\<close>

lemma acknowledged_other: "name' \<noteq> name \<Longrightarrow> last_size (acknowledged m name answer) name' = last_size m name'"
  by (auto simp: acknowledged_def last_size_def update_conv' split: prod.splits option.splits sum.splits)

lemma acknowledged_conflict: "n > 0 \<Longrightarrow> last_size (acknowledged m name (c, n, Some e)) name = n"
  by (simp add: acknowledged_def last_size_def update_conv')

lemma acknowledged_cosigned:
  "ParseCheckpoint c = Inr cp \<Longrightarrow> c2_TreeSize cp > 0 \<Longrightarrow> last_size (acknowledged m name (c, n, None)) name = c2_TreeSize cp"
  by (simp add: acknowledged_def last_size_def update_conv')

end
