(* ===== verification/CmdWitness.thy ===== *)
theory CmdWitness
  imports WitnessClient Checkpoint
begin

text \<open>
  \<^verbatim>\<open>cmd/witness\<close>: key generation, cosigning and verifying the latest checkpoint (in the C2SP form, or by its
  number in the legacy form), and the loop that watches a ledger and cosigns what is new.
\<close>

record ('w, 'sg, 'vf) witness_lib =
  wl_sha :: sha_fun
  wl_ed :: ed25519
  wl_note :: "('sg, 'vf) note_lib"
  wl_net :: "'w net_lib"
  wl_GenerateKey :: "('w, bytes \<times> bytes) op"

definition print_parts :: "bytes list \<Rightarrow> ('w os, unit) op" where
  "print_parts parts = println (concat parts)"

section \<open>Keys\<close>

definition loadPrivKey :: "ed25519 \<Rightarrow> bytes \<Rightarrow> ('w os, bytes \<times> bytes) op" where
  "loadPrivKey c path =
     bind_op (wrap_op ''read key file'' (read_file path)) (\<lambda>data.
     bind_op (lift_op (wrap_err ''decode private key'' (or_fail (Foreign ''encoding/hex'') (hex_decode (trim_space data))))) (\<lambda>priv.
     lift_op (if length priv \<noteq> 64
              then Inl (Err (''expected 64-byte private key, got '' @ itoa (int (length priv))))
              else Inr (priv, ed_public c priv))))"

definition hexToEd25519Pub :: "bytes \<Rightarrow> bytes res" where
  "hexToEd25519Pub h =
     and_then (or_fail (Foreign ''encoding/hex'') (hex_decode h)) (\<lambda>b.
     if length b \<noteq> 32 then Inl (Err (''expected 32-byte public key, got '' @ itoa (int (length b)))) else Inr b)"

definition runKeygen :: "('w, 'sg, 'vf) witness_lib \<Rightarrow> bytes list \<Rightarrow> ('w os, unit) op" where
  "runKeygen wl args =
     bind_op (lift_op (parse_flags [str_flag ''out'' (\<lambda>x _. x)] args [])) (\<lambda>out.
     bind_op (wrap_op ''generate key'' (on_net (wl_GenerateKey wl))) (\<lambda>(pub, priv).
     bind_op (if out \<noteq> []
              then bind_op (wrap_op ''write key file'' (write_file out (hex_encode priv))) (\<lambda>_.
                   print_parts [''private_key_file: '', out])
              else print_parts [''private_key_hex: '', hex_encode priv]) (\<lambda>_.
     print_parts [''public_key_hex:  '', hex_encode pub])))"

section \<open>The legacy requests\<close>

definition checkpoint_fields :: "store_checkpoint fields" where
  "checkpoint_fields =
     [(''ID'', fld dec_int64 (\<lambda>x r. r\<lparr>cp_ID := x\<rparr>)),
      (''BatchStart'', fld dec_int64 (\<lambda>x r. r\<lparr>cp_BatchStart := x\<rparr>)),
      (''BatchEnd'', fld dec_int64 (\<lambda>x r. r\<lparr>cp_BatchEnd := x\<rparr>)),
      (''TreeSize'', fld dec_int64 (\<lambda>x r. r\<lparr>cp_TreeSize := x\<rparr>)),
      (''RootHex'', fld dec_str (\<lambda>x r. r\<lparr>cp_RootHex := x\<rparr>)),
      (''PreviousRootHex'', fld dec_str (\<lambda>x r. r\<lparr>cp_PreviousRootHex := x\<rparr>)),
      (''IssuedAt'', fld dec_time (\<lambda>x r. r\<lparr>cp_IssuedAt := x\<rparr>)),
      (''OperatorSigHex'', fld dec_str (\<lambda>x r. r\<lparr>cp_OperatorSigHex := x\<rparr>)),
      (''RekorLogIndex'', fld dec_int64 (\<lambda>x r. r\<lparr>cp_RekorLogIndex := x\<rparr>))]"

definition zero_checkpoint :: store_checkpoint where
  "zero_checkpoint =
     \<lparr>cp_ID = 0, cp_BatchStart = 0, cp_BatchEnd = 0, cp_TreeSize = 0, cp_RootHex = [], cp_PreviousRootHex = [],
      cp_IssuedAt = zero_time, cp_OperatorSigHex = [], cp_RekorLogIndex = 0\<rparr>"

text \<open>The default client has no timeout.\<close>

definition default_client :: "'w net_lib \<Rightarrow> 'w http_client" where
  "default_client net = net_client net 0"

definition fetchCheckpoint :: "'w net_lib \<Rightarrow> bytes \<Rightarrow> int \<Rightarrow> ('w, store_checkpoint) op" where
  "fetchCheckpoint net ledger i =
     bind_op (hc_get (default_client net) (ledger @ ''/v1/checkpoints/'' @ itoa i)) (\<lambda>resp.
     lift_op (if hr_status resp \<noteq> 200 then Inl (status_error ''server returned '' resp)
              else wrap_err ''decode checkpoint'' (decode_response (dec_object checkpoint_fields zero_checkpoint) resp)))"

record verify_answer =
  va_OperatorValid :: bool
  va_Witnesses :: "(bytes \<times> bytes) list"
  va_RekorAnchored :: bool
  va_RekorLogIndex :: int
  va_RekorEntryURL :: bytes

definition zero_answer :: verify_answer where
  "zero_answer = \<lparr>va_OperatorValid = False, va_Witnesses = [], va_RekorAnchored = False, va_RekorLogIndex = 0,
     va_RekorEntryURL = []\<rparr>"

text \<open>A map is decoded into the map it is; \<^verbatim>\<open>null\<close> is the \<^verbatim>\<open>nil\<close> map.\<close>

definition map_field :: "('r \<Rightarrow> (bytes \<times> bytes) list) \<Rightarrow> ((bytes \<times> bytes) list \<Rightarrow> 'r \<Rightarrow> 'r) \<Rightarrow> jval \<Rightarrow> 'r \<Rightarrow> 'r res" where
  "map_field get put v r =
     (if v = JNull then Inr (put [] r)
      else and_then (dec_map (or_zero dec_str []) v) (\<lambda>m. Inr (put (foldl (\<lambda>m (k, x). AList.update k x m) (get r) m) r)))"

definition answer_fields :: "verify_answer fields" where
  "answer_fields =
     [(''operator_valid'', fld dec_bool (\<lambda>x r. r\<lparr>va_OperatorValid := x\<rparr>)),
      (''witnesses'', map_field va_Witnesses (\<lambda>x r. r\<lparr>va_Witnesses := x\<rparr>)),
      (''rekor_anchored'', fld dec_bool (\<lambda>x r. r\<lparr>va_RekorAnchored := x\<rparr>)),
      (''rekor_log_index'', fld dec_int64 (\<lambda>x r. r\<lparr>va_RekorLogIndex := x\<rparr>)),
      (''rekor_entry_url'', fld dec_str (\<lambda>x r. r\<lparr>va_RekorEntryURL := x\<rparr>))]"

text \<open>The status of the answer is not looked at.\<close>

definition fetchVerifyResponse :: "'w net_lib \<Rightarrow> bytes \<Rightarrow> int \<Rightarrow> ('w, verify_answer) op" where
  "fetchVerifyResponse net ledger cpID =
     bind_op (hc_get (default_client net) (ledger @ ''/v1/checkpoints/'' @ itoa cpID @ ''/verify'')) (\<lambda>resp.
     lift_op (decode_response (dec_object answer_fields zero_answer) resp))"

definition fetchWitnesses :: "'w net_lib \<Rightarrow> bytes \<Rightarrow> int \<Rightarrow> ('w, (bytes \<times> bytes) list) op" where
  "fetchWitnesses net ledger cpID =
     bind_op (fetchVerifyResponse net ledger cpID) (\<lambda>vr. ret_op (va_Witnesses vr))"

definition submitWitness :: "'w net_lib \<Rightarrow> bytes \<Rightarrow> int \<Rightarrow> bytes \<Rightarrow> bytes \<Rightarrow> ('w, unit) op" where
  "submitWitness net ledger cpID witnessID sigHex =
     bind_op (hc_post (default_client net) (ledger @ ''/v1/checkpoints/'' @ itoa cpID @ ''/witness'')
                [(''Content-Type'', ''application/json'')]
                (jtext (jmap [(''witness_id'', witnessID), (''sig_hex'', sigHex)]))) (\<lambda>resp.
     lift_op (if hr_status resp \<noteq> 201 then Inl (status_error ''server returned '' resp) else Inr ()))"

section \<open>cosign\<close>

record cosign_opts =
  co_ledger :: bytes
  co_key :: bytes
  co_op_pub :: bytes
  co_origin :: bytes
  co_witness_name :: bytes
  co_legacy :: bool
  co_cp :: int
  co_witness_id :: bytes

definition cosign_flags :: "cosign_opts flag list" where
  "cosign_flags =
     [str_flag ''ledger'' (\<lambda>x r. r\<lparr>co_ledger := x\<rparr>), str_flag ''key'' (\<lambda>x r. r\<lparr>co_key := x\<rparr>),
      str_flag ''op-pub'' (\<lambda>x r. r\<lparr>co_op_pub := x\<rparr>), str_flag ''origin'' (\<lambda>x r. r\<lparr>co_origin := x\<rparr>),
      str_flag ''witness-name'' (\<lambda>x r. r\<lparr>co_witness_name := x\<rparr>), bool_flag ''legacy'' (\<lambda>x r. r\<lparr>co_legacy := x\<rparr>),
      int_flag ''cp'' (\<lambda>x r. r\<lparr>co_cp := x\<rparr>), str_flag ''witness-id'' (\<lambda>x r. r\<lparr>co_witness_id := x\<rparr>)]"

definition cosign_legacy ::
  "('w, 'sg, 'vf) witness_lib \<Rightarrow> cosign_opts \<Rightarrow> bytes \<Rightarrow> bytes \<Rightarrow> bytes \<Rightarrow> ('w os, unit) op" where
  "cosign_legacy wl fs priv pub opPub =
     (if co_cp fs = 0 then lift_op (Inl (Err ''--cp is required in --legacy mode''))
      else
        (let wid = (if co_witness_id fs = [] then hex_encode pub else co_witness_id fs)
         in bind_op (wrap_op ''fetch checkpoint'' (on_net (fetchCheckpoint (wl_net wl) (co_ledger fs) (co_cp fs)))) (\<lambda>cp.
            bind_op (wrap_op ''cosign'' (lift_op (CoSign (wl_ed wl) cp opPub priv))) (\<lambda>sigHex.
            bind_op (wrap_op ''submit witness'' (on_net (submitWitness (wl_net wl) (co_ledger fs) (co_cp fs) wid sigHex))) (\<lambda>_.
            print_parts [''cosigned checkpoint '', itoa (co_cp fs), '' as witness '', wid])))))"

definition cosign_c2sp ::
  "('w, 'sg, 'vf) witness_lib \<Rightarrow> cosign_opts \<Rightarrow> bytes \<Rightarrow> bytes \<Rightarrow> bytes \<Rightarrow> ('w os, unit) op" where
  "cosign_c2sp wl fs priv pub opPub =
     (let name = (if co_witness_name fs = [] then hex_encode pub else co_witness_name fs);
          client = NewWitnessClient (wl_net wl) (co_ledger fs)
      in bind_op (wrap_op ''fetch C2SP checkpoint'' (on_net (FetchCheckpoint client))) (\<lambda>cp.
         bind_op (print_parts [''fetched checkpoint: origin='', c2_Origin cp, '' tree_size='', itoa_nat (c2_TreeSize cp)]) (\<lambda>_.
         bind_op (wrap_op ''create operator verifier'' (lift_op (NewNoteVerifier (wl_note wl) (co_origin fs) opPub))) (\<lambda>v.
         bind_op (wrap_op ''create witness signer'' (lift_op (NewNoteSigner (wl_note wl) (wl_sha wl) (wl_ed wl) name priv))) (\<lambda>k.
         bind_op (wrap_op ''verify and cosign'' (lift_op (VerifyAndCosign (wl_note wl) (c2_Raw cp) v k))) (\<lambda>cosigned.
         bind_op (wrap_op ''submit cosignature'' (on_net (SubmitCosignature (wl_net wl) client cosigned))) (\<lambda>_.
         print_parts [''cosigned and submitted C2SP checkpoint as witness '', name])))))))"

definition runCosign :: "('w, 'sg, 'vf) witness_lib \<Rightarrow> bytes list \<Rightarrow> ('w os, unit) op" where
  "runCosign wl args =
     bind_op (lift_op (parse_flags cosign_flags args
       \<lparr>co_ledger = [], co_key = [], co_op_pub = [], co_origin = DefaultOrigin, co_witness_name = [],
        co_legacy = False, co_cp = 0, co_witness_id = []\<rparr>)) (\<lambda>fs.
     if co_ledger fs = [] \<or> co_key fs = [] \<or> co_op_pub fs = []
     then lift_op (Inl (Err ''--ledger, --key, --op-pub are required''))
     else
       bind_op (loadPrivKey (wl_ed wl) (co_key fs)) (\<lambda>(priv, pub).
       bind_op (wrap_op ''parse op-pub'' (lift_op (hexToEd25519Pub (co_op_pub fs)))) (\<lambda>opPub.
       if co_legacy fs then cosign_legacy wl fs priv pub opPub else cosign_c2sp wl fs priv pub opPub)))"

section \<open>verify\<close>

record verify_opts =
  ve_ledger :: bytes
  ve_op_pub :: bytes
  ve_origin :: bytes
  ve_threshold :: int
  ve_check_rekor :: bool
  ve_legacy :: bool
  ve_cp :: int

definition verify_flags :: "verify_opts flag list" where
  "verify_flags =
     [str_flag ''ledger'' (\<lambda>x r. r\<lparr>ve_ledger := x\<rparr>), str_flag ''op-pub'' (\<lambda>x r. r\<lparr>ve_op_pub := x\<rparr>),
      str_flag ''origin'' (\<lambda>x r. r\<lparr>ve_origin := x\<rparr>), int_flag ''threshold'' (\<lambda>x r. r\<lparr>ve_threshold := x\<rparr>),
      bool_flag ''check-rekor'' (\<lambda>x r. r\<lparr>ve_check_rekor := x\<rparr>), bool_flag ''legacy'' (\<lambda>x r. r\<lparr>ve_legacy := x\<rparr>),
      int_flag ''cp'' (\<lambda>x r. r\<lparr>ve_cp := x\<rparr>)]"

text \<open>The Rekor line; an error of the request is printed only.\<close>

definition report_rekor :: "'w net_lib \<Rightarrow> bytes \<Rightarrow> int \<Rightarrow> ('w os, unit) op" where
  "report_rekor net ledger cpID s =
     (case on_net (fetchVerifyResponse net ledger cpID) s of
        (Inl e, s) \<Rightarrow> print_parts [''rekor: error fetching ('', err_text e, '')''] s
      | (Inr vr, s) \<Rightarrow>
          if va_RekorAnchored vr
          then print_parts [''rekor: ANCHORED (log_index='', itoa (va_RekorLogIndex vr), '' url='', va_RekorEntryURL vr, '')''] s
          else print_parts [''rekor: NOT ANCHORED''] s)"

text \<open>In the legacy form an invalid operator signature is printed, and the command succeeds.\<close>

definition verify_legacy :: "('w, 'sg, 'vf) witness_lib \<Rightarrow> verify_opts \<Rightarrow> bytes \<Rightarrow> ('w os, unit) op" where
  "verify_legacy wl fs opPub =
     (if ve_cp fs = 0 then lift_op (Inl (Err ''--cp is required in --legacy mode''))
      else
        bind_op (wrap_op ''fetch checkpoint'' (on_net (fetchCheckpoint (wl_net wl) (ve_ledger fs) (ve_cp fs)))) (\<lambda>cp.
        bind_op (print_parts [''checkpoint '', itoa (cp_ID cp), '': tree_size='', itoa (cp_TreeSize cp), '' root='', cp_RootHex cp]) (\<lambda>_.
        bind_op (case VerifyOperatorSignature (wl_ed wl) cp opPub of
                   Inl e \<Rightarrow> print_parts [''operator_sig: INVALID ('', err_text e, '')'']
                 | Inr _ \<Rightarrow> print_parts [''operator_sig: VALID'']) (\<lambda>_ s.
        case on_net (fetchWitnesses (wl_net wl) (ve_ledger fs) (ve_cp fs)) s of
          (Inl e, s) \<Rightarrow> print_parts [''witnesses: error fetching ('', err_text e, '')''] s
        | (Inr ws, s) \<Rightarrow>
            bind_op (print_parts [''witnesses: '', itoa (int (length ws))]) (\<lambda>_.
            if ve_check_rekor fs \<and> ve_cp fs \<noteq> 0 then report_rekor (wl_net wl) (ve_ledger fs) (ve_cp fs)
            else ret_op ()) s))))"

text \<open>The list of required witnesses is \<^verbatim>\<open>nil\<close>.\<close>

definition verify_c2sp :: "('w, 'sg, 'vf) witness_lib \<Rightarrow> verify_opts \<Rightarrow> bytes \<Rightarrow> ('w os, unit) op" where
  "verify_c2sp wl fs opPub =
     bind_op (wrap_op ''create operator verifier'' (lift_op (NewNoteVerifier (wl_note wl) (ve_origin fs) opPub))) (\<lambda>v.
     bind_op (wrap_op ''fetch cosigned checkpoint''
       (on_net (FetchCosignedCheckpoint (NewWitnessClient (wl_net wl) (ve_ledger fs))))) (\<lambda>raw.
     case VerifyCosignedCheckpoint (wl_note wl) raw v [] (ve_threshold fs) of
       Inl e \<Rightarrow> bind_op (print_parts [''verification FAILED: '', err_text e]) (\<lambda>_. lift_op (Inl e))
     | Inr _ \<Rightarrow>
         bind_op (lift_op (ParseCheckpoint raw)) (\<lambda>cp.
         print_parts [''C2SP checkpoint VALID: origin='', c2_Origin cp, '' tree_size='', itoa_nat (c2_TreeSize cp),
                      '' threshold='', itoa (ve_threshold fs)])))"

definition runVerify :: "('w, 'sg, 'vf) witness_lib \<Rightarrow> bytes list \<Rightarrow> ('w os, unit) op" where
  "runVerify wl args =
     bind_op (lift_op (parse_flags verify_flags args
       \<lparr>ve_ledger = [], ve_op_pub = [], ve_origin = DefaultOrigin, ve_threshold = 0, ve_check_rekor = False,
        ve_legacy = False, ve_cp = 0\<rparr>)) (\<lambda>fs.
     if ve_ledger fs = [] \<or> ve_op_pub fs = [] then lift_op (Inl (Err ''--ledger, --op-pub are required''))
     else
       bind_op (wrap_op ''parse op-pub'' (lift_op (hexToEd25519Pub (ve_op_pub fs)))) (\<lambda>opPub.
       if ve_legacy fs then verify_legacy wl fs opPub else verify_c2sp wl fs opPub))"

section \<open>watch\<close>

record watch_opts =
  wa_ledger :: bytes
  wa_op_pub :: bytes
  wa_key :: bytes
  wa_interval :: int
  wa_origin :: bytes
  wa_witness_name :: bytes

text \<open>One round of the loop with the size last cosigned: a checkpoint that is larger is cosigned and submitted.\<close>

definition watch_round ::
  "('w, 'sg, 'vf) witness_lib \<Rightarrow> 'w witness_client \<Rightarrow> 'vf \<Rightarrow> 'sg \<Rightarrow> nat \<Rightarrow> 'w os \<Rightarrow> nat \<times> 'w os" where
  "watch_round wl client v k lastTreeSize s =
     (case on_net (FetchCheckpoint client) s of
        (Inl e, s) \<Rightarrow> (lastTreeSize, print_error (''fetch checkpoint: '' @ err_text e @ [newline]) s)
      | (Inr cp, s) \<Rightarrow>
          if c2_TreeSize cp > lastTreeSize then
            (case VerifyAndCosign (wl_note wl) (c2_Raw cp) v k of
               Inl e \<Rightarrow> (lastTreeSize, print_error (''verify and cosign: '' @ err_text e @ [newline]) s)
             | Inr cosigned \<Rightarrow>
                 (case on_net (SubmitCosignature (wl_net wl) client cosigned) s of
                    (Inl e, s) \<Rightarrow> (lastTreeSize, print_error (''submit cosignature: '' @ err_text e @ [newline]) s)
                  | (Inr _, s) \<Rightarrow>
                      (c2_TreeSize cp, snd (print_parts [''cosigned checkpoint tree_size='', itoa_nat (c2_TreeSize cp)] s))))
          else (lastTreeSize, s))"

text \<open>The loop has no end; \<open>n\<close> rounds of it.\<close>

fun watch_rounds ::
  "('w, 'sg, 'vf) witness_lib \<Rightarrow> 'w witness_client \<Rightarrow> 'vf \<Rightarrow> 'sg \<Rightarrow> nat \<Rightarrow> nat \<Rightarrow> 'w os \<Rightarrow> nat \<times> 'w os" where
  "watch_rounds wl client v k 0 lastTreeSize s = (lastTreeSize, s)"
| "watch_rounds wl client v k (Suc n) lastTreeSize s =
     (case watch_round wl client v k lastTreeSize s of (reached, s) \<Rightarrow> watch_rounds wl client v k n reached s)"

definition watch_flags :: "watch_opts flag list" where
  "watch_flags =
     [str_flag ''ledger'' (\<lambda>x r. r\<lparr>wa_ledger := x\<rparr>), str_flag ''op-pub'' (\<lambda>x r. r\<lparr>wa_op_pub := x\<rparr>),
      str_flag ''key'' (\<lambda>x r. r\<lparr>wa_key := x\<rparr>), duration_flag ''interval'' (\<lambda>x r. r\<lparr>wa_interval := x\<rparr>),
      str_flag ''origin'' (\<lambda>x r. r\<lparr>wa_origin := x\<rparr>), str_flag ''witness-name'' (\<lambda>x r. r\<lparr>wa_witness_name := x\<rparr>)]"

text \<open>The command up to its \<open>n\<close>-th round: it only ends with an error of the set-up.\<close>

definition runWatch :: "('w, 'sg, 'vf) witness_lib \<Rightarrow> nat \<Rightarrow> bytes list \<Rightarrow> ('w os, nat) op" where
  "runWatch wl n args =
     bind_op (lift_op (parse_flags watch_flags args
       \<lparr>wa_ledger = [], wa_op_pub = [], wa_key = [], wa_interval = 30 * second, wa_origin = DefaultOrigin,
        wa_witness_name = []\<rparr>)) (\<lambda>fs.
     if wa_ledger fs = [] \<or> wa_op_pub fs = [] \<or> wa_key fs = []
     then lift_op (Inl (Err ''--ledger, --op-pub, --key are required''))
     else
       bind_op (loadPrivKey (wl_ed wl) (wa_key fs)) (\<lambda>(priv, pub).
       bind_op (wrap_op ''parse op-pub'' (lift_op (hexToEd25519Pub (wa_op_pub fs)))) (\<lambda>opPub.
       let name = (if wa_witness_name fs = [] then hex_encode pub else wa_witness_name fs);
           client = NewWitnessClient (wl_net wl) (wa_ledger fs)
       in bind_op (wrap_op ''create operator verifier'' (lift_op (NewNoteVerifier (wl_note wl) (wa_origin fs) opPub))) (\<lambda>v.
          bind_op (wrap_op ''create witness signer'' (lift_op (NewNoteSigner (wl_note wl) (wl_sha wl) (wl_ed wl) name priv))) (\<lambda>k.
          bind_op (print_parts [''watching '', wa_ledger fs, '' every '', duration_text (wa_interval fs), '' as witness '', name,
                         '' (C2SP)'']) (\<lambda>_ s.
          case watch_rounds wl client v k n 0 s of (reached, s) \<Rightarrow> (Inr reached, s)))))))"

section \<open>The command line\<close>

definition witness_usage :: bytes where
  "witness_usage = join [newline]
     [''siqlah witness - cosign and verify siqlah checkpoints'',
      [],
      ''Subcommands:'',
      ''  keygen                                  Generate an Ed25519 keypair'',
      ''  cosign --ledger URL --key PATH --op-pub HEX [--origin STR] [--witness-name NAME] [--legacy --cp ID]'',
      ''                                          Fetch latest C2SP checkpoint, verify operator sig, and cosign'',
      ''  verify --ledger URL --op-pub HEX [--origin STR] [--threshold N] [--legacy --cp ID]'',
      ''                                          Verify a checkpoint's operator and witness signatures'',
      ''  watch  --ledger URL --op-pub HEX --key PATH [--origin STR] [--interval DURATION]'',
      ''                                          Continuously watch for new checkpoints and auto-cosign (C2SP)'']"

text \<open>The exit code and the process after it; \<open>None\<close> when \<^verbatim>\<open>watch\<close> still runs after \<open>n\<close> rounds.\<close>

definition exit_with :: "int option \<Rightarrow> 'a res \<times> 'w os \<Rightarrow> int option \<times> 'w os" where
  "exit_with ended x =
     (case x of
        (Inl e, s) \<Rightarrow> (Some 1, print_error (''error: '' @ err_text e @ [newline]) s)
      | (Inr _, s) \<Rightarrow> (ended, s))"

definition witness_main ::
  "('w, 'sg, 'vf) witness_lib \<Rightarrow> nat \<Rightarrow> bytes list \<Rightarrow> 'w os \<Rightarrow> int option \<times> 'w os" where
  "witness_main wl n args s =
     (case args of
        [] \<Rightarrow> (Some 1, print_error (witness_usage @ [newline]) s)
      | c # rest \<Rightarrow>
          if c = ''keygen'' then exit_with (Some 0) (runKeygen wl rest s)
          else if c = ''cosign'' then exit_with (Some 0) (runCosign wl rest s)
          else if c = ''verify'' then exit_with (Some 0) (runVerify wl rest s)
          else if c = ''watch'' then exit_with None (runWatch wl n rest s)
          else (Some 1, print_error (witness_usage @ [newline]) s))"

section \<open>Lemmas\<close>

lemma watch_round_grows: "lastTreeSize \<le> fst (watch_round wl client v k lastTreeSize s)"
  by (auto simp: watch_round_def split: prod.splits sum.splits)

lemma watch_rounds_grow: "lastTreeSize \<le> fst (watch_rounds wl client v k n lastTreeSize s)"
proof (induction n arbitrary: lastTreeSize s)
  case (Suc n)
  obtain z s' where r: "watch_round wl client v k lastTreeSize s = (z, s')" by fastforce
  have "lastTreeSize \<le> z" using watch_round_grows [of lastTreeSize wl client v k s] r by simp
  also have "z \<le> fst (watch_rounds wl client v k n z s')" by (rule Suc)
  finally show ?case using r by simp
qed simp

text \<open>With no required witness every positive threshold is refused.\<close>

lemma no_witness_threshold: "0 < t \<Longrightarrow> VerifyCosignedCheckpoint nl raw v [] t \<noteq> Inr ()"
  by (auto simp: VerifyCosignedCheckpoint_def and_then_def Let_def split: sum.splits)

end
