(* ===== verification/Config.thy ===== *)
theory Config
  imports GoOs
begin

text \<open>
  \<^verbatim>\<open>internal/config\<close>: the configuration, its defaults, its validation and the loading of a JSON file over the
  defaults. Durations are nanoseconds.
\<close>

record config =
  cg_Addr :: bytes
  cg_DB :: bytes
  cg_BatchInterval :: int
  cg_MaxBatch :: int
  cg_Witnesses :: bytes
  cg_Monitor :: bool
  cg_MonitorInterval :: int
  cg_DiscrepancyThreshold :: f64
  cg_AlertWebhook :: bytes
  cg_OperatorKey :: bytes
  cg_LogBackend :: bytes
  cg_TesseraStoragePath :: bytes
  cg_TesseraLogName :: bytes
  cg_SigningBackend :: bytes
  cg_OIDCIssuer :: bytes
  cg_OIDCClientID :: bytes
  cg_FulcioURL :: bytes
  cg_RekorAnchor :: bool
  cg_RekorURL :: bytes
  cg_RekorAnchorInterval :: int

text \<open>\<^verbatim>\<open>rawConfig\<close>: the durations are strings.\<close>

record raw_config =
  rc_Addr :: bytes
  rc_DB :: bytes
  rc_BatchInterval :: bytes
  rc_MaxBatch :: int
  rc_Witnesses :: bytes
  rc_Monitor :: bool
  rc_MonitorInterval :: bytes
  rc_DiscrepancyThreshold :: f64
  rc_AlertWebhook :: bytes
  rc_OperatorKey :: bytes
  rc_LogBackend :: bytes
  rc_TesseraStoragePath :: bytes
  rc_TesseraLogName :: bytes
  rc_SigningBackend :: bytes
  rc_OIDCIssuer :: bytes
  rc_OIDCClientID :: bytes
  rc_FulcioURL :: bytes
  rc_RekorAnchor :: bool
  rc_RekorURL :: bytes
  rc_RekorAnchorInterval :: bytes

definition zero_raw :: raw_config where
  "zero_raw =
     \<lparr>rc_Addr = [], rc_DB = [], rc_BatchInterval = [], rc_MaxBatch = 0, rc_Witnesses = [], rc_Monitor = False,
      rc_MonitorInterval = [], rc_DiscrepancyThreshold = Fin 0, rc_AlertWebhook = [], rc_OperatorKey = [],
      rc_LogBackend = [], rc_TesseraStoragePath = [], rc_TesseraLogName = [], rc_SigningBackend = [],
      rc_OIDCIssuer = [], rc_OIDCClientID = [], rc_FulcioURL = [], rc_RekorAnchor = False, rc_RekorURL = [],
      rc_RekorAnchorInterval = []\<rparr>"

definition raw_fields_of_config :: "raw_config fields" where
  "raw_fields_of_config =
     [(''addr'', fld dec_str (\<lambda>x r. r\<lparr>rc_Addr := x\<rparr>)),
      (''db'', fld dec_str (\<lambda>x r. r\<lparr>rc_DB := x\<rparr>)),
      (''batch_interval'', fld dec_str (\<lambda>x r. r\<lparr>rc_BatchInterval := x\<rparr>)),
      (''max_batch'', fld dec_int64 (\<lambda>x r. r\<lparr>rc_MaxBatch := x\<rparr>)),
      (''witnesses'', fld dec_str (\<lambda>x r. r\<lparr>rc_Witnesses := x\<rparr>)),
      (''monitor'', fld dec_bool (\<lambda>x r. r\<lparr>rc_Monitor := x\<rparr>)),
      (''monitor_interval'', fld dec_str (\<lambda>x r. r\<lparr>rc_MonitorInterval := x\<rparr>)),
      (''discrepancy_threshold'', fld dec_float64 (\<lambda>x r. r\<lparr>rc_DiscrepancyThreshold := x\<rparr>)),
      (''alert_webhook'', fld dec_str (\<lambda>x r. r\<lparr>rc_AlertWebhook := x\<rparr>)),
      (''operator_key'', fld dec_str (\<lambda>x r. r\<lparr>rc_OperatorKey := x\<rparr>)),
      (''log_backend'', fld dec_str (\<lambda>x r. r\<lparr>rc_LogBackend := x\<rparr>)),
      (''tessera_storage_path'', fld dec_str (\<lambda>x r. r\<lparr>rc_TesseraStoragePath := x\<rparr>)),
      (''tessera_log_name'', fld dec_str (\<lambda>x r. r\<lparr>rc_TesseraLogName := x\<rparr>)),
      (''signing_backend'', fld dec_str (\<lambda>x r. r\<lparr>rc_SigningBackend := x\<rparr>)),
      (''oidc_issuer'', fld dec_str (\<lambda>x r. r\<lparr>rc_OIDCIssuer := x\<rparr>)),
      (''oidc_client_id'', fld dec_str (\<lambda>x r. r\<lparr>rc_OIDCClientID := x\<rparr>)),
      (''fulcio_url'', fld dec_str (\<lambda>x r. r\<lparr>rc_FulcioURL := x\<rparr>)),
      (''rekor_anchor'', fld dec_bool (\<lambda>x r. r\<lparr>rc_RekorAnchor := x\<rparr>)),
      (''rekor_url'', fld dec_str (\<lambda>x r. r\<lparr>rc_RekorURL := x\<rparr>)),
      (''rekor_anchor_interval'', fld dec_str (\<lambda>x r. r\<lparr>rc_RekorAnchorInterval := x\<rparr>))]"

definition Defaults :: config where
  "Defaults =
     \<lparr>cg_Addr = '':8080'', cg_DB = ''siqlah.db'', cg_BatchInterval = 30 * second, cg_MaxBatch = 1000,
      cg_Witnesses = [], cg_Monitor = False, cg_MonitorInterval = 60 * second, cg_DiscrepancyThreshold = Fin 5,
      cg_AlertWebhook = [], cg_OperatorKey = [], cg_LogBackend = ''sqlite'', cg_TesseraStoragePath = ''./tessera-data/'',
      cg_TesseraLogName = ''siqlah.dev/log'', cg_SigningBackend = ''ed25519'',
      cg_OIDCIssuer = ''https://accounts.google.com'', cg_OIDCClientID = [],
      cg_FulcioURL = ''https://fulcio.sigstore.dev'', cg_RekorAnchor = False,
      cg_RekorURL = ''https://rekor.sigstore.dev'', cg_RekorAnchorInterval = 24 * 3600 * second\<rparr>"

section \<open>Validation\<close>

definition config_problems :: "config \<Rightarrow> bytes list" where
  "config_problems c =
     (if cg_BatchInterval c \<le> 0 then [''batch_interval must be positive''] else []) @
     (if cg_MaxBatch c \<le> 0 then [''max_batch must be positive''] else []) @
     (if cg_LogBackend c \<noteq> ''sqlite'' \<and> cg_LogBackend c \<noteq> ''tessera''
      then [''log_backend must be '' @ [char_of (39 :: nat)] @ ''sqlite'' @ [char_of (39 :: nat)] @ '' or '' @
            [char_of (39 :: nat)] @ ''tessera'' @ [char_of (39 :: nat)] @ '', got '' @ go_quote (cg_LogBackend c)] else []) @
     (if cg_LogBackend c = ''tessera'' \<and> cg_TesseraStoragePath c = []
      then [''tessera_storage_path is required when log_backend is '' @ [char_of (39 :: nat)] @ ''tessera'' @
            [char_of (39 :: nat)]] else []) @
     (if cg_SigningBackend c \<noteq> ''ed25519'' \<and> cg_SigningBackend c \<noteq> ''fulcio''
      then [''signing_backend must be '' @ [char_of (39 :: nat)] @ ''ed25519'' @ [char_of (39 :: nat)] @ '' or '' @
            [char_of (39 :: nat)] @ ''fulcio'' @ [char_of (39 :: nat)] @ '', got '' @ go_quote (cg_SigningBackend c)] else []) @
     (if cg_SigningBackend c = ''fulcio'' \<and> cg_FulcioURL c = []
      then [''fulcio_url is required when signing_backend is '' @ [char_of (39 :: nat)] @ ''fulcio'' @
            [char_of (39 :: nat)]] else []) @
     (if cg_RekorAnchor c \<and> cg_RekorURL c = [] then [''rekor_url is required when rekor_anchor is enabled''] else []) @
     (if cg_Monitor c \<and> cg_MonitorInterval c \<le> 0
      then [''monitor_interval must be positive when monitor is enabled''] else [])"

text \<open>\<^verbatim>\<open>errors.Join\<close> is \<^verbatim>\<open>nil\<close> for no error, and puts one message on each line.\<close>

definition Validate :: "config \<Rightarrow> unit res" where
  "Validate c =
     (case config_problems c of [] \<Rightarrow> Inr () | p # ps \<Rightarrow> Inl (Err (p @ concat (map (\<lambda>q. newline # q) ps))))"

section \<open>Loading\<close>

definition duration_field :: "bytes \<Rightarrow> bytes \<Rightarrow> int \<Rightarrow> int res" where
  "duration_field name text old =
     (if text = [] then Inr old else wrap_err name (or_fail (Foreign ''time: invalid duration'') (parse_duration text)))"

definition or_old :: "bytes \<Rightarrow> bytes \<Rightarrow> bytes" where
  "or_old x old = (if x = [] then old else x)"

text \<open>The three durations are parsed in the order of the code; the other fields cannot fail.\<close>

definition merge_config :: "config \<Rightarrow> raw_config \<Rightarrow> config res" where
  "merge_config cfg raw =
     and_then (duration_field ''batch_interval'' (rc_BatchInterval raw) (cg_BatchInterval cfg)) (\<lambda>batchInterval.
     and_then (duration_field ''monitor_interval'' (rc_MonitorInterval raw) (cg_MonitorInterval cfg)) (\<lambda>monitorInterval.
     and_then (duration_field ''rekor_anchor_interval'' (rc_RekorAnchorInterval raw) (cg_RekorAnchorInterval cfg)) (\<lambda>anchorInterval.
     Inr \<lparr>cg_Addr = or_old (rc_Addr raw) (cg_Addr cfg), cg_DB = or_old (rc_DB raw) (cg_DB cfg),
          cg_BatchInterval = batchInterval,
          cg_MaxBatch = (if rc_MaxBatch raw > 0 then rc_MaxBatch raw else cg_MaxBatch cfg),
          cg_Witnesses = or_old (rc_Witnesses raw) (cg_Witnesses cfg), cg_Monitor = rc_Monitor raw,
          cg_MonitorInterval = monitorInterval,
          cg_DiscrepancyThreshold =
            (if Fin 0 < rc_DiscrepancyThreshold raw then rc_DiscrepancyThreshold raw else cg_DiscrepancyThreshold cfg),
          cg_AlertWebhook = or_old (rc_AlertWebhook raw) (cg_AlertWebhook cfg),
          cg_OperatorKey = or_old (rc_OperatorKey raw) (cg_OperatorKey cfg),
          cg_LogBackend = or_old (rc_LogBackend raw) (cg_LogBackend cfg),
          cg_TesseraStoragePath = or_old (rc_TesseraStoragePath raw) (cg_TesseraStoragePath cfg),
          cg_TesseraLogName = or_old (rc_TesseraLogName raw) (cg_TesseraLogName cfg),
          cg_SigningBackend = or_old (rc_SigningBackend raw) (cg_SigningBackend cfg),
          cg_OIDCIssuer = or_old (rc_OIDCIssuer raw) (cg_OIDCIssuer cfg),
          cg_OIDCClientID = or_old (rc_OIDCClientID raw) (cg_OIDCClientID cfg),
          cg_FulcioURL = or_old (rc_FulcioURL raw) (cg_FulcioURL cfg), cg_RekorAnchor = rc_RekorAnchor raw,
          cg_RekorURL = or_old (rc_RekorURL raw) (cg_RekorURL cfg), cg_RekorAnchorInterval = anchorInterval\<rparr>)))"

definition Load :: "bytes \<Rightarrow> ('w os, config) op" where
  "Load path =
     bind_op (wrap_op ''read config'' (read_file path)) (\<lambda>data.
     bind_op (lift_op (wrap_err ''parse config'' (unmarshal_with (dec_object raw_fields_of_config zero_raw) data))) (\<lambda>raw.
     lift_op (merge_config Defaults raw)))"

section \<open>Lemmas\<close>

lemma if_Nil: "(if b then [x] else []) = [] \<longleftrightarrow> \<not> b"
  by simp

lemma Validate_Inr:
  "Validate c = Inr () \<longleftrightarrow>
     0 < cg_BatchInterval c \<and> 0 < cg_MaxBatch c \<and>
     (cg_LogBackend c = ''sqlite'' \<or> cg_LogBackend c = ''tessera'' \<and> cg_TesseraStoragePath c \<noteq> []) \<and>
     (cg_SigningBackend c = ''ed25519'' \<or> cg_SigningBackend c = ''fulcio'' \<and> cg_FulcioURL c \<noteq> []) \<and>
     (cg_RekorAnchor c \<longrightarrow> cg_RekorURL c \<noteq> []) \<and> (cg_Monitor c \<longrightarrow> 0 < cg_MonitorInterval c)"
proof -
  have v: "Validate c = Inr () \<longleftrightarrow> config_problems c = []" by (simp add: Validate_def split: list.split)
  have q: "\<not> (l \<noteq> x \<and> l \<noteq> y) \<and> \<not> (l = y \<and> \<not> p) \<longleftrightarrow> l = x \<or> l = y \<and> p" if "x \<noteq> y" for l x y :: bytes and p
    using that by blast
  have b: "''sqlite'' \<noteq> ''tessera''" "''ed25519'' \<noteq> ''fulcio''" by simp_all
  show ?thesis
    unfolding v config_problems_def append_is_Nil_conv if_Nil q [OF b(1), symmetric] q [OF b(2), symmetric] by linarith
qed

lemma Defaults_valid: "Validate Defaults = Inr ()"
  by (simp add: Validate_Inr Defaults_def second_def)

text \<open>An object without members changes nothing.\<close>

lemma merge_zero: "merge_config Defaults zero_raw = Inr Defaults"
  by (simp add: merge_config_def duration_field_def or_old_def zero_raw_def Defaults_def less_f64_def flt_def fval_def)

text \<open>A file only fails validation through its intervals and the names of its backends: what a file leaves out
  keeps a valid default, and a batch size that is not positive is ignored.\<close>

lemma merged_valid:
  assumes "merge_config Defaults raw = Inr c" and "0 < cg_BatchInterval c" and "0 < cg_MonitorInterval c"
    and "rc_LogBackend raw \<in> {[], ''sqlite'', ''tessera''}" and "rc_SigningBackend raw \<in> {[], ''ed25519'', ''fulcio''}"
  shows "Validate c = Inr ()"
proof -
  have c: "cg_MaxBatch c > 0" "cg_LogBackend c = or_old (rc_LogBackend raw) ''sqlite''"
    "cg_TesseraStoragePath c = or_old (rc_TesseraStoragePath raw) ''./tessera-data/''"
    "cg_SigningBackend c = or_old (rc_SigningBackend raw) ''ed25519''"
    "cg_FulcioURL c = or_old (rc_FulcioURL raw) ''https://fulcio.sigstore.dev''"
    "cg_RekorURL c = or_old (rc_RekorURL raw) ''https://rekor.sigstore.dev''"
    using assms(1) by (auto simp: merge_config_def and_then_Inr Defaults_def)
  have n: "or_old x y \<noteq> []" if "y \<noteq> []" for x y using that by (simp add: or_old_def)
  have "cg_LogBackend c = ''sqlite'' \<or> cg_LogBackend c = ''tessera''"
    "cg_SigningBackend c = ''ed25519'' \<or> cg_SigningBackend c = ''fulcio''"
    using assms(4,5) c(2,4) by (auto simp: or_old_def)
  with assms(2,3) c(1) show ?thesis unfolding Validate_Inr c(3,5,6) using n by auto
qed

end
