(* ===== verification/MigrateProofs.thy ===== *)
theory MigrateProofs
  imports CmdSiqlah
begin

text \<open>
  The \<^verbatim>\<open>migrate\<close> subcommand: its loop over ranges of keys returns on every source, and over a source without
  gaps it appends every receipt once, in order.
\<close>

section \<open>Ranges of keys\<close>

lemma wrap64_again: "wrap64 (wrap64 x + y) = wrap64 (x + y)"
proof -
  have "wrap64 x + y + 2 ^ 63 = (x + 2 ^ 63) mod 2 ^ 64 + y" by (simp add: wrap64_def)
  then have "wrap64 (wrap64 x + y) = ((x + 2 ^ 63) mod 2 ^ 64 + y) mod 2 ^ 64 - 2 ^ 63" by (simp add: wrap64_def)
  also have "\<dots> = (x + 2 ^ 63 + y) mod 2 ^ 64 - 2 ^ 63" by (simp add: mod_add_left_eq)
  finally show ?thesis by (simp add: wrap64_def add.assoc add.commute [of y])
qed

definition range_end :: "int \<Rightarrow> int \<Rightarrow> int" where
  "range_end s b = wrap64 (wrap64 (s + b) - 1)"

definition next_start :: "int \<Rightarrow> int \<Rightarrow> int" where
  "next_start s b = wrap64 (range_end s b + 1)"

lemma range_end_wrap: "range_end s b = wrap64 (s + b - 1)"
  using wrap64_again [of "s + b" "- 1"] by (simp add: range_end_def)

lemma next_start_wrap: "next_start s b = wrap64 (s + b)"
  using wrap64_again [of "s + b - 1" 1] by (simp add: next_start_def range_end_wrap)

lemma migrate_loop_step:
  "migrate_loop app b s m (st, d) =
     (case GetReceiptsByRange s (range_end s b) st of (batch, src) \<Rightarrow>
      case batch of
        Inl e \<Rightarrow> Some (Inl (Wrap (''read batch starting at '' @ itoa s) e), src, d)
      | Inr rs \<Rightarrow>
          if rs = [] then Some (Inr m, src, d)
          else (case append_all app rs m d of (r, dst) \<Rightarrow>
                case r of Inl e \<Rightarrow> Some (Inl e, src, dst)
                | Inr n \<Rightarrow> migrate_loop app b (next_start s b) n (src, dst)))"
  unfolding migrate_loop.simps [of app b s m "(st, d)"] fst_conv snd_conv range_end_def next_start_def by (rule refl)

lemma same_receipts: "tables a = tables b \<Longrightarrow> receipts a = receipts b"
  by (metis tables_sel(1))

lemma range_found:
  assumes "GetReceiptsByRange a b st = (Inr rs, st')"
  shows "tables st' = tables st" and "rs \<noteq> [] \<Longrightarrow> \<exists>rw \<in> set (receipts st). a \<le> rr_id rw \<and> rr_id rw \<le> b"
proof -
  obtain rows st1 where q: "query (\<lambda>st. filter (\<lambda>rw. rr_id rw \<ge> a \<and> rr_id rw \<le> b) (receipts st)) st = (Inr rows, st1)"
    and s: "scanReceipts rows st1 = (Inr rs, st')"
    using assms by (auto simp: GetReceiptsByRange_def bind_op_Inr)
  have t: "tables st1 = tables st" by (rule query_tables [OF q])
  have r: "rows = filter (\<lambda>rw. rr_id rw \<ge> a \<and> rr_id rw \<le> b) (receipts st)"
    using sql_Inr [OF q [unfolded query_def]] same_receipts [OF t] by auto
  from s have m: "map_res unmarshal_row rows = Inr rs" and e: "rows_err st1 = (Inr (), st')"
    by (auto simp: scanReceipts_def bind_op_Inr)
  from e t show "tables st' = tables st" by (auto simp: rows_err_def dest: query_tables)
  assume "rs \<noteq> []"
  with m have "rows \<noteq> []" by auto
  then obtain rw where "rw \<in> set rows" by (meson last_in_set)
  with r show "\<exists>rw \<in> set (receipts st). a \<le> rr_id rw \<and> rr_id rw \<le> b" by auto
qed

section \<open>The loop returns\<close>

text \<open>A range that holds a key of the tables starts at most at the last key; the next range starts above it, or has
  wrapped around and ends below the first key.\<close>

lemma wrap64_cases: "- (2 ^ 63) \<le> x \<Longrightarrow> x < 2 ^ 64 + 2 ^ 63 \<Longrightarrow> wrap64 x = (if x < 2 ^ 63 then x else x - 2 ^ 64)"
  by (auto simp: wrap64_def mod_pos_pos_trivial) (smt (verit) mod_pos_pos_trivial minus_mod_self2)

lemma loop_returns:
  assumes "int64 b" and "0 < b" and "list_all (\<lambda>rw. 1 \<le> rr_id rw \<and> rr_id rw \<le> n) (receipts st)"
    and "1 \<le> s" and "int64 s"
  shows "migrate_loop app b s m (st, d) \<noteq> None"
  using assms(3-)
proof (induction "nat (n + 1 - s)" arbitrary: s m st d rule: less_induct)
  case less
  have wrapped: "migrate_loop app b (- (2 ^ 63)) k (st', d') \<noteq> None" if st': "receipts st' = receipts st" for k st' d'
  proof -
    have "range_end (- (2 ^ 63)) b < 1" using assms(1,2) by (simp add: range_end_wrap int64_def wrap64_cases)
    then have "rs = []" if "GetReceiptsByRange (- (2 ^ 63)) (range_end (- (2 ^ 63)) b) st' = (Inr rs, st1)" for rs st1
      using range_found(2) [OF that] less.prems(1) st' by (fastforce simp: list_all_iff)
    then show ?thesis by (auto simp: migrate_loop_step split: prod.splits sum.splits)
  qed
  have next_round: "migrate_loop app b (next_start s b) k (st', d') \<noteq> None"
    if rs: "GetReceiptsByRange s (range_end s b) st = (Inr rs, st')" "rs \<noteq> []" for rs k st' d'
  proof -
    have r: "receipts st' = receipts st" using range_found(1) [OF rs(1)] by (rule same_receipts)
    obtain rw where "rw \<in> set (receipts st)" "s \<le> rr_id rw" "rr_id rw \<le> range_end s b"
      using range_found(2) [OF rs] by auto
    then have le: "s \<le> n" "s \<le> range_end s b" using less.prems(1) by (auto simp: list_all_iff)
    have sb: "s + b \<le> 2 ^ 63"
      using le(2) assms(1,2) less.prems(2,3) by (auto simp: range_end_wrap wrap64_cases int64_def split: if_splits)
    show ?thesis
    proof (cases "s + b = 2 ^ 63")
      case False
      then have ns: "next_start s b = s + b" using assms(2) less.prems(2) sb by (simp add: next_start_wrap wrap64_cases)
      have "nat (n + 1 - (s + b)) < nat (n + 1 - s)" using le assms(2) by linarith
      from less.hyps [OF this] show ?thesis
        using False sb less.prems r assms(2) by (simp add: ns int64_def)
    next
      case True
      then have "next_start s b = - (2 ^ 63)" by (simp add: next_start_wrap wrap64_cases)
      with wrapped [OF r] show ?thesis by simp
    qed
  qed
  then show ?case by (auto simp: migrate_loop_step split: prod.splits sum.splits)
qed

section \<open>What the loop copies\<close>

lemma append_all_Inr:
  assumes "append_all app rs m d = (Inr k, d')" and "0 \<le> m" and "m + int (length rs) < 2 ^ 63"
  shows "k = m + int (length rs) \<and> (\<exists>ids. map_op app rs d = (Inr ids, d'))"
  using assms
proof (induction rs arbitrary: m d)
  case (Cons r rs)
  from Cons.prems(1) obtain i d1 where i: "app r d = (Inr i, d1)" "append_all app rs (wrap64 (m + 1)) d1 = (Inr k, d')"
    by (auto simp: bind_op_Inr wrap_op_Inr)
  moreover have "wrap64 (m + 1) = m + 1" using Cons.prems(2,3) by (intro wrap64_id) (simp add: int64_def)
  ultimately show ?case using Cons.IH [of "m + 1" d1] Cons.prems(2,3) by (auto simp: bind_op_Inr)
qed simp

lemma map_op_append:
  "map_op f xs s = (Inr as, s1) \<Longrightarrow> map_op f ys s1 = (Inr bs, s2) \<Longrightarrow> map_op f (xs @ ys) s = (Inr (as @ bs), s2)"
proof (induction xs arbitrary: s as)
  case (Cons x xs)
  from Cons.prems(1) obtain a u rest where "f x s = (Inr a, u)" "map_op f xs u = (Inr rest, s1)" "as = a # rest"
    by (auto simp: bind_op_Inr)
  with Cons.IH Cons.prems(2) show ?case by (simp add: bind_op_def)
qed simp

text \<open>A table without gaps: the key of a row is its position.\<close>

definition gapless :: "db \<Rightarrow> bool" where
  "gapless st = (map rr_id (receipts st) = map int [1..<Suc (length (receipts st))])"

lemma gapless_nth: "gapless st \<Longrightarrow> i < length (receipts st) \<Longrightarrow> rr_id (receipts st ! i) = int i + 1"
  unfolding gapless_def by (drule arg_cong [where f = "\<lambda>xs. xs ! i"]) (simp del: upt_Suc)

lemma gapless_range:
  assumes "gapless st"
  shows "filter (\<lambda>rw. rr_id rw \<ge> int j + 1 \<and> rr_id rw \<le> int j + int b) (receipts st) = take b (drop j (receipts st))"
proof -
  let ?P = "\<lambda>rw. rr_id rw \<ge> int j + 1 \<and> rr_id rw \<le> int j + int b" and ?R = "receipts st"
  define X Y Z where "X = take j ?R" and "Y = take b (drop j ?R)" and "Z = drop b (drop j ?R)"
  have "?R = X @ Y @ Z" by (simp add: X_def Y_def Z_def del: drop_drop)
  moreover have "filter ?P X = []"
    using gapless_nth [OF assms] by (auto simp: X_def filter_empty_conv in_set_conv_nth)
  moreover have "filter ?P Y = Y"
    using gapless_nth [OF assms] by (auto simp: Y_def filter_id_conv in_set_conv_nth)
  moreover have "filter ?P Z = []"
    using gapless_nth [OF assms] by (auto simp: Z_def filter_empty_conv in_set_conv_nth)
  ultimately have "filter ?P ?R = Y" by (simp only: filter_append append_Nil append_Nil2)
  then show ?thesis by (simp add: Y_def)
qed

lemma loop_copies:
  assumes "db_faults st = []" and "gapless st" and "0 < b" and "int (length (receipts st)) + int b < 2 ^ 62"
    and "migrate_loop app (int b) (int j + 1) m (st, d) = Some (Inr k, st', d')"
    and "j \<le> length (receipts st)" and "0 \<le> m" and "m + int (length (receipts st) - j) < 2 ^ 62"
  shows "\<exists>rs ids. map_res unmarshal_row (drop j (receipts st)) = Inr rs \<and> map_op app rs d = (Inr ids, d') \<and>
           k = m + int (length rs)"
  using assms(5-)
proof (induction "length (receipts st) - j" arbitrary: j m d rule: less_induct)
  case less
  let ?R = "receipts st"
  have e: "range_end (int j + 1) (int b) = int j + int b" "next_start (int j + 1) (int b) = int (j + b) + 1"
    using assms(4) less.prems(2) by (simp_all add: range_end_wrap next_start_wrap wrap64_id int64_def)
  have g: "GetReceiptsByRange (int j + 1) (int j + int b) st = (map_res unmarshal_row (take b (drop j ?R)), st)"
    using GetReceiptsByRange_healthy [OF assms(1)] gapless_range [OF assms(2)] by simp
  from less.prems(1) obtain rs where rs: "map_res unmarshal_row (take b (drop j ?R)) = Inr rs"
    by (auto simp: migrate_loop_step e g split: sum.splits)
  then have len: "length rs = min b (length ?R - j)" using map_res_Inr_length by fastforce
  show ?case
  proof (cases "rs = []")
    case True
    then have "drop j ?R = []" using len assms(3) by auto
    then show ?thesis using less.prems(1) rs True by (auto simp: migrate_loop_step e g)
  next
    case False
    then obtain n d1 where a: "append_all app rs m d = (Inr n, d1)"
      and l: "migrate_loop app (int b) (int (j + b) + 1) n (st, d1) = Some (Inr k, st', d')"
      using less.prems(1) rs by (auto simp: migrate_loop_step e g split: prod.splits sum.splits)
    from append_all_Inr [OF a] len less.prems(3,4) obtain ids where
      n: "n = m + int (length rs)" and o1: "map_op app rs d = (Inr ids, d1)" by force
    have "rs \<noteq> []" by (rule False)
    then have "0 < length ?R - j" using len by (cases "length ?R - j") auto
    show ?thesis
    proof (cases "j + b \<le> length ?R")
      case True
      then have "length ?R - (j + b) < length ?R - j" using \<open>0 < length ?R - j\<close> assms(3) by simp
      from less.hyps [OF this l True] n len less.prems(3,4) True obtain rs2 ids2 where
        r2: "map_res unmarshal_row (drop (j + b) ?R) = Inr rs2" "map_op app rs2 d1 = (Inr ids2, d')" "k = n + int (length rs2)"
        by force
      have "map_res unmarshal_row (take b (drop j ?R) @ drop (j + b) ?R) = Inr (rs @ rs2)"
        using rs r2(1) by (simp add: map_res_append_Inr)
      moreover have "take b (drop j ?R) @ drop (j + b) ?R = drop j ?R" by (metis append_take_drop_id drop_drop add.commute)
      ultimately show ?thesis using map_op_append [OF o1 r2(2)] r2(3) n by auto
    next
      case out: False
      have e2: "range_end (int (j + b) + 1) (int b) = int (j + b) + int b"
        using assms(4) less.prems(2) by (simp add: range_end_wrap wrap64_id int64_def)
      have "GetReceiptsByRange (int (j + b) + 1) (int (j + b) + int b) st = (Inr [], st)"
        using GetReceiptsByRange_healthy [OF assms(1)] gapless_range [OF assms(2), of "j + b" b] out by simp
      then have "migrate_loop app (int b) (int (j + b) + 1) n (st, d1) = Some (Inr n, st, d1)"
        unfolding e2 [symmetric] by (subst migrate_loop_step) (simp del: of_nat_add)
      with l have "k = n" "d' = d1" by simp_all
      moreover have "take b (drop j ?R) = drop j ?R" using out by simp
      ultimately show ?thesis using rs o1 n by auto
    qed
  qed
qed

section \<open>The subcommand\<close>

text \<open>C34. The loop of the migration returns on every source that satisfies the invariant of the tables, whatever the
  batch size, whichever calls of the two stores fail.\<close>

theorem migration_returns:
  assumes "db_inv src" and "int64 batchSize"
  shows "migrate_loop app batchSize 1 0 (src, dst) \<noteq> None"
proof (cases "0 < batchSize")
  case True
  have "list_all (\<lambda>rw. 1 \<le> rr_id rw \<and> rr_id rw \<le> receipts_seq src) (receipts src)"
    using assms(1) by (auto simp: db_inv_def ids_ok_def list_all_iff)
  then show ?thesis by (rule loop_returns [OF assms(2) True]) (simp_all add: int64_def)
next
  case False
  have "range_end 1 batchSize = batchSize" using assms(2) by (simp add: range_end_wrap wrap64_id)
  then have "rs = []" if "GetReceiptsByRange 1 (range_end 1 batchSize) src = (Inr rs, src')" for rs src'
    using range_found(2) [OF that] False by force
  then show ?thesis by (auto simp: migrate_loop_step split: prod.splits sum.splits)
qed

theorem migration_returns_witness:
  "\<exists>src y. receipts src \<noteq> [] \<and> migrate_loop AppendReceipt 1 1 0 (src, empty_db) = Some y"
proof -
  obtain src rw where src: "db_inv src" "unbatched src = [rw]" by (rule sample_store)
  then have "receipts src \<noteq> []" by (auto simp: unbatched_def)
  with migration_returns [OF src(1), of 1 AppendReceipt empty_db] show ?thesis by (fastforce simp: int64_def)
qed

text \<open>C33. A migration that reports success over a source without gaps has appended every receipt of the source to
  the destination exactly once and in the order of the keys, and the count it reports is their number.\<close>

theorem migration_copies_all:
  assumes "db_faults src = []" and "gapless src" and "0 < batchSize"
    and "int (length (receipts src)) + batchSize < 2 ^ 62"
    and "migrate_into app (Inr dst) batchSize src = Some (Inr k, src', Some dst')"
  shows "\<exists>rs ids. map_res unmarshal_row (receipts src) = Inr rs \<and> map_op app rs dst = (Inr ids, dst') \<and> k = int (length rs)"
proof -
  obtain b where b: "batchSize = int b" "0 < b" using assms(3) by (metis nonneg_int_cases of_nat_0_less_iff order_less_imp_le)
  from assms(5) have "migrate_loop app (int b) (int 0 + 1) 0 (src, dst) = Some (Inr k, src', dst')"
    by (auto simp: migrate_into_def b(1))
  from loop_copies [OF assms(1,2) b(2) _ this] assms(4) b(1) show ?thesis by simp
qed

theorem migration_copies_all_witness:
  "\<exists>src st. migrate_into AppendReceipt (Inr empty_db) 500 src = Some (Inr 1, src, Some st) \<and>
     map_op AppendReceipt [sample_receipt] empty_db = (Inr [1], st)"
proof -
  obtain js where js: "marshal_receipt sample_receipt = Inr js" "unmarshal_receipt js = Inr sample_receipt"
    using unmarshal_receipt_marshal [OF sample_receipt_ok] by blast
  define src where "src = empty_db\<lparr>receipts := [\<lparr>rr_id = 1, rr_json = js, rr_batched = False\<rparr>], receipts_seq := 1\<rparr>"
  obtain st where st: "AppendReceipt sample_receipt empty_db = (Inr 1, st)" by (rule sample_store)
  have f: "db_faults src = []" "gapless src" "receipts src = [\<lparr>rr_id = 1, rr_json = js, rr_batched = False\<rparr>]"
    by (simp_all add: src_def empty_db_def gapless_def)
  have e: "range_end 1 500 = 500" "next_start 1 500 = 501" "range_end 501 500 = 1000"
    by (simp_all add: range_end_wrap next_start_wrap wrap64_id int64_def)
  have u: "map_res unmarshal_row (receipts src) = Inr [sample_receipt]"
    using js(2) by (simp add: f(3) unmarshal_row_def)
  then have "GetReceiptsByRange 1 500 src = (Inr [sample_receipt], src)" "GetReceiptsByRange 501 1000 src = (Inr [], src)"
    using f(3) by (simp_all add: GetReceiptsByRange_healthy [OF f(1)])
  moreover have "append_all AppendReceipt [sample_receipt] 0 empty_db = (Inr 1, st)"
    using st by (simp add: bind_op_def wrap_op_def wrap64_id int64_def)
  ultimately have "migrate_loop AppendReceipt 500 1 0 (src, empty_db) = Some (Inr 1, src, st)"
    using e by (simp add: migrate_loop_step [of _ _ 1] migrate_loop_step [of _ _ 501])
  then have m: "migrate_into AppendReceipt (Inr empty_db) 500 src = Some (Inr 1, src, Some st)"
    by (simp add: migrate_into_def)
  from migration_copies_all [OF f(1,2) _ _ m] f(3) u show ?thesis using m by (auto simp: bind_op_def st)
qed

end
