(* ===== verification/ModelProofs.thy ===== *)
theory ModelProofs
  imports ModelId NoteProofs GoOs
begin

text \<open>
  What \<^verbatim>\<open>internal/model\<close> promises: an identity is only returned as verified for a digest that the certificate of
  the bundle has signed, chained to the given roots; and a bundle that was printed is read back.
\<close>

section \<open>Acceptance\<close>

definition signed_by_certificate ::
  "('ct, 'rt, 'ky) x509_lib \<Rightarrow> 'rt verify_options \<Rightarrow> bytes \<Rightarrow> bytes \<Rightarrow> bytes \<Rightarrow> bool" where
  "signed_by_certificate xl opts der digest sg =
     (case xl_parse xl der of
        Inl _ \<Rightarrow> False
      | Inr cert \<Rightarrow>
          (case xl_key xl cert of None \<Rightarrow> False | Some k \<Rightarrow> xl_verify xl k digest sg) \<and>
          (case vo_TrustRoots opts of None \<Rightarrow> True
           | Some roots \<Rightarrow> xl_chain xl roots (add_second (xl_not_before xl cert)) cert = Inr ()))"

lemma b64_or_Inr: "b64_or p s = Inr d \<longleftrightarrow> b64_decode s = Some d"
  by (cases "b64_decode s") (simp_all add: b64_or_def or_fail_def wrap_err_def)

lemma if_fail_Inr: "(if c then Inl e else x) = Inr y \<longleftrightarrow> \<not> c \<and> x = Inr y"
  by simp

text \<open>The bytes a bundle holds in base64.\<close>

definition bundle_holds :: "oms_bundle \<Rightarrow> bytes \<Rightarrow> bytes \<Rightarrow> bytes \<Rightarrow> bool" where
  "bundle_holds b der digest sg =
     (b64_decode (ob_RawBytes b) = Some der \<and> ob_Algorithm b = ''SHA2_256'' \<and>
      b64_decode (ob_Digest b) = Some digest \<and> b64_decode (ob_Signature b) = Some sg)"

text \<open>C40. An accepted bundle is signed: when \<^verbatim>\<open>VerifyModelIdentity\<close> returns an identity, the digest it names is the
  32-byte digest of the bundle, and the key of the certificate in the bundle has signed it; if trust roots were
  given, the certificate chains to them at the time it was issued.\<close>

theorem verified_identity_signed:
  assumes "VerifyModelIdentity xl js name opts = Inr i"
  shows "mi_Verified i \<and> mi_ModelName i = name \<and>
    (\<exists>b der digest sg. unmarshal_with (dec_object bundle_fields zero_bundle) js = Inr b \<and> bundle_holds b der digest sg \<and>
       signed_by_certificate xl opts der digest sg \<and> length digest = 32 \<and> mi_ModelDigest i = hex_encode digest)"
proof -
  obtain b der cert u digest sg where
    b: "unmarshal_with (dec_object bundle_fields zero_bundle) js = Inr b" "bundle_holds b der digest sg" and
    cert: "xl_parse xl der = Inr cert" and
    roots: "(case vo_TrustRoots opts of None \<Rightarrow> Inr ()
       | Some roots \<Rightarrow> wrap_err ''certificate chain verification''
           (xl_chain xl roots (add_second (xl_not_before xl cert)) cert)) = Inr u" and
    len: "\<not> length digest \<noteq> 32" and
    rest: "(case xl_key xl cert of
           None \<Rightarrow> Inl (Err ''certificate does not contain an ECDSA public key'')
         | Some ecPub \<Rightarrow>
             if \<not> xl_verify xl ecPub digest sg then Inl (Err ''signature verification failed'')
             else
               (let rekorIndex = (case ob_LogIndexes b of
                                    [] \<Rightarrow> - 1
                                  | i # _ \<Rightarrow> (case scan_decimal i of None \<Rightarrow> - 1 | Some n \<Rightarrow> n))
                in Inr \<lparr>mi_ModelName = name, mi_ModelDigest = hex_encode digest,
                        mi_SignerIdentity = extractURISAN xl cert, mi_RekorLogIndex = rekorIndex,
                        mi_Verified = True\<rparr>)) = Inr i"
    using assms unfolding VerifyModelIdentity_def and_then_Inr if_fail_Inr wrap_err_Inr b64_or_Inr not_not bundle_holds_def
    by blast
  obtain k where k: "xl_key xl cert = Some k" using rest by (cases "xl_key xl cert") auto
  with rest have "xl_verify xl k digest sg" by (auto split: if_splits)
  moreover have "case vo_TrustRoots opts of None \<Rightarrow> True
      | Some roots \<Rightarrow> xl_chain xl roots (add_second (xl_not_before xl cert)) cert = Inr ()"
    using roots by (cases "vo_TrustRoots opts") (simp_all add: wrap_err_Inr)
  ultimately have "signed_by_certificate xl opts der digest sg"
    using cert k by (simp add: signed_by_certificate_def)
  moreover have "mi_Verified i \<and> mi_ModelName i = name \<and> mi_ModelDigest i = hex_encode digest"
    using rest k by (auto simp: Let_def split: if_splits)
  ultimately show ?thesis using b len by blast
qed

section \<open>A bundle on paper\<close>

definition bundle_value :: "bytes \<Rightarrow> bytes \<Rightarrow> bytes \<Rightarrow> jval" where
  "bundle_value der digest sg =
     JObj [(''verificationMaterial'', JObj [(''certificate'', JObj [(''rawBytes'', jstr (b64_encode der))])]),
           (''messageSignature'', JObj
              [(''messageDigest'', JObj [(''algorithm'', jstr ''SHA2_256''), (''digest'', jstr (b64_encode digest))]),
               (''signature'', jstr (b64_encode sg))])]"

lemma sanitize_b64 [simp]: "sanitize (b64_encode s) = b64_encode s"
proof -
  have "list_all (\<lambda>c. code c < 128) (b64_encode s)"
    using b64_graphic [of s] by (rule list.pred_mono_strong) (simp add: graphic_def)
  then show ?thesis by (simp add: sanitize_valid valid_utf8_ascii)
qed

text \<open>The names of the members; those of one level differ in length.\<close>

lemma bundle_names:
  "ascii_name ''mediaType''" "ascii_name ''verificationMaterial''" "ascii_name ''certificate''" "ascii_name ''rawBytes''"
  "ascii_name ''messageSignature''" "ascii_name ''messageDigest''" "ascii_name ''algorithm''" "ascii_name ''digest''"
  "ascii_name ''signature''"
  by (simp_all add: ascii_name_def)

lemmas bundle_keys = bundle_names [THEN ascii_raw_ok] bundle_names [THEN ascii_matches(1)]

lemma bundle_keys_differ:
  "\<not> key_matches ''mediaType'' ''verificationMaterial''" "\<not> key_matches ''mediaType'' ''messageSignature''"
  "\<not> key_matches ''verificationMaterial'' ''messageSignature''" "\<not> key_matches ''algorithm'' ''digest''"
  "\<not> key_matches ''messageDigest'' ''signature''"
  by (rule ascii_matches(2) [OF bundle_names(1,2)], simp) (rule ascii_matches(2) [OF bundle_names(1,5)], simp,
      rule ascii_matches(2) [OF bundle_names(2,5)], simp, rule ascii_matches(2) [OF bundle_names(7,8)], simp,
      rule ascii_matches(2) [OF bundle_names(6,9)], simp)

text \<open>The printed bundle is read back.\<close>

lemma read_bundle:
  "unmarshal_with (dec_object bundle_fields zero_bundle) (jtext (bundle_value der digest sg)) =
     Inr \<lparr>ob_RawBytes = b64_encode der, ob_LogIndexes = [], ob_Algorithm = ''SHA2_256'', ob_Digest = b64_encode digest,
          ob_Signature = b64_encode sg\<rparr>"
proof -
  have a: "sanitize ''SHA2_256'' = ''SHA2_256''" by (intro sanitize_valid valid_utf8_ascii) simp
  have "jwf (bundle_value der digest sg)" "jdepth (bundle_value der digest sg) \<le> 10000"
    by (simp_all add: bundle_value_def bundle_keys del: json_escape.simps)
  then have "json_parse (jtext (bundle_value der digest sg)) = Some (bundle_value der digest sg)" by (rule json_parse_jtext)
  moreover have "dec_object bundle_fields zero_bundle (bundle_value der digest sg) =
     Inr \<lparr>ob_RawBytes = b64_encode der, ob_LogIndexes = [], ob_Algorithm = ''SHA2_256'', ob_Digest = b64_encode digest,
          ob_Signature = b64_encode sg\<rparr>"
    by (simp add: bundle_value_def bundle_fields_def same_def sub_def
        dec_object_def bundle_keys bundle_keys_differ fld_str a zero_bundle_def del: json_escape.simps sanitize.simps)
  ultimately show ?thesis by (simp add: unmarshal_with_def)
qed

definition trusting_x509 :: "(unit, unit, unit) x509_lib" where
  "trusting_x509 = \<lparr>xl_parse = (\<lambda>d. if d = ''der'' then Inr () else Inl (Err ''no certificate'')), xl_chain = (\<lambda>_ _ _. Inr ()),
     xl_not_before = (\<lambda>_. unix_time 0), xl_key = (\<lambda>_. Some ()), xl_verify = (\<lambda>_ d s. s = rev d), xl_uris = (\<lambda>_. []),
     xl_emails = (\<lambda>_. [''dev@example.com'']), xl_common_name = (\<lambda>_. []), xl_pem = (\<lambda>_. None)\<rparr>"

theorem verified_identity_signed_witness:
  "\<exists>js i b der digest sg. VerifyModelIdentity trusting_x509 js ''m'' \<lparr>vo_TrustRoots = Some (), vo_SkipTlogVerification = False\<rparr> = Inr i \<and>
     bundle_holds b der digest sg \<and>
     signed_by_certificate trusting_x509 \<lparr>vo_TrustRoots = Some (), vo_SkipTlogVerification = False\<rparr> der digest sg"
proof -
  let ?d = "replicate 31 CHR ''d'' @ ''x''"
  have ne: "jtext (bundle_value a d s) \<noteq> []" for a d s by (simp add: bundle_value_def)
  obtain i where i: "VerifyModelIdentity trusting_x509 (jtext (bundle_value ''der'' ?d (rev ?d))) ''m''
      \<lparr>vo_TrustRoots = Some (), vo_SkipTlogVerification = False\<rparr> = Inr i"
    by (simp add: VerifyModelIdentity_def ne read_bundle b64_or_def or_fail_def b64_decode_encode trusting_x509_def Let_def
        del: jtext.simps replicate.simps b64_encode.simps)
  from verified_identity_signed [OF i] i show ?thesis by blast
qed

end
