(* ===== verification/EndToEnd.thy ===== *)
theory EndToEnd
  imports ApiClaims CmdVerifier Monitor
begin

text \<open>
  The server and its clients together: the proof command accepts what the proof endpoint serves, and the monitor
  does not see the receipts the server signs.
\<close>

section \<open>The answer of the proof endpoint\<close>

lemma proof_resp_plain: "list_all (\<lambda>(n, d). plain_key n) proof_resp_fields"
  by (simp add: proof_resp_fields_def plain_key_def plain_char_def)

lemma proof_resp_lookup:
  "lookup_field proof_resp_fields ''receipt_id'' = Some (fld dec_str (\<lambda>x r. r\<lparr>pr_ReceiptID := x\<rparr>))"
  "lookup_field proof_resp_fields ''checkpoint_id'' = Some (fld dec_int64 (\<lambda>x r. r\<lparr>pr_CheckpointID := x\<rparr>))"
  "lookup_field proof_resp_fields ''leaf_index'' = Some (fld dec_int64 (\<lambda>x r. r\<lparr>pr_LeafIndex := x\<rparr>))"
  "lookup_field proof_resp_fields ''tree_size'' = Some (fld dec_int64 (\<lambda>x r. r\<lparr>pr_TreeSize := x\<rparr>))"
  "lookup_field proof_resp_fields ''root_hex'' = Some (fld dec_str (\<lambda>x r. r\<lparr>pr_RootHex := x\<rparr>))"
  "lookup_field proof_resp_fields ''proof'' = Some (slice_of (fld dec_str (\<lambda>x _. x)) [] pr_Proof (\<lambda>x r. r\<lparr>pr_Proof := x\<rparr>))"
  by (subst lookup_field_plain [OF proof_resp_plain], simp add: plain_key_def plain_char_def,
      simp add: proof_resp_fields_def)+

lemma decode_strings: "decode_over (fld dec_str (\<lambda>x _. x)) [] old (map jstr ss) = Inr (map sanitize ss)"
  by (induction ss arbitrary: old) (simp_all add: fld_str)

text \<open>The value of an inclusion answer, and what the client decodes from it.\<close>

definition inclusion_value :: "bytes \<Rightarrow> int \<Rightarrow> int \<Rightarrow> int \<Rightarrow> bytes \<Rightarrow> bytes list \<Rightarrow> jval" where
  "inclusion_value n cid i tsize root_hex hashes =
     JObj [(''receipt_id'', jstr n), (''checkpoint_id'', jint cid), (''leaf_index'', jint i), (''tree_size'', jint tsize),
           (''root_hex'', jstr root_hex), (''proof'', JArr (map jstr hashes))]"

lemma inclusion_body_value:
  "inclusion_body c n i p =
     jtext (inclusion_value n (cp_ID c) i (cp_TreeSize c) (cp_RootHex c) (hexSlice p)) @ [newline]"
  by (simp add: inclusion_body_def marshal_inclusion_def jobj_def m_str_def m_int_def m_val_def jstrings_def
      inclusion_value_def)

lemma inclusion_value_wf: "jwf (inclusion_value n cid i tsize root_hex hashes)" "jdepth (inclusion_value n cid i tsize root_hex hashes) \<le> 10000"
proof -
  have "foldr max (map (jdepth \<circ> jstr) hashes) 0 = 0" by (induction hashes) simp_all
  then show "jdepth (inclusion_value n cid i tsize root_hex hashes) \<le> 10000" by (simp add: inclusion_value_def jint_def)
qed (auto simp: inclusion_value_def plain_raw_ok plain_key_def plain_char_def jint_def list_all_iff)

lemma decode_inclusion:
  assumes "int64 cid" and "int64 i" and "int64 tsize"
  shows "dec_object proof_resp_fields zero_proof_resp (inclusion_value n cid i tsize root_hex hashes) =
     Inr \<lparr>pr_ReceiptID = sanitize n, pr_CheckpointID = cid, pr_LeafIndex = i, pr_TreeSize = tsize,
          pr_RootHex = sanitize root_hex, pr_Proof = map sanitize hashes\<rparr>"
  using assms
  by (simp add: dec_object_def inclusion_value_def proof_resp_lookup fld_str fld_int slice_of_def decode_strings
      zero_proof_resp_def)

section \<open>The proof command\<close>

lemma parseHexHashes_hexSlice:
  "list_all (\<lambda>h. length h = 32) p \<Longrightarrow> parseHexHashes_from n (hexSlice p) = Inr p"
  by (induction p arbitrary: n)
    (simp_all add: hexSlice_def FormatRoot_def ParseRoot_def hex_decode_encode del: hex_encode.simps)

lemma sanitize_root [simp]: "sanitize (FormatRoot r) = FormatRoot r"
  by (simp add: FormatRoot_def sanitize_valid valid_utf8_hex)

lemma sanitize_hashes: "map sanitize (hexSlice p) = hexSlice p"
  by (simp add: hexSlice_def)

text \<open>What the command says of an answer that carries a proof for its receipt.\<close>

lemma judge_valid:
  assumes "CanonicalBytes r = Inr cb" and "length rt = 32" and "list_all (\<lambda>h. length h = 32) p"
    and "VerifyInclusion (vl_sha vl) (HashLeaf (vl_sha vl) cb) rt (pr_LeafIndex resp) (pr_TreeSize resp) p = Some True"
    and "pr_RootHex resp = FormatRoot rt" and "pr_Proof resp = hexSlice p"
  shows "\<exists>s'. judge_proof vl r resp s = Some (Inr (), s')"
proof -
  have "ParseRoot (FormatRoot rt) = Inr rt" using assms(2) by (simp add: FormatRoot_def ParseRoot_def hex_decode_encode)
  then have "check_fetched vl r resp = Some (Inr True)"
    using assms parseHexHashes_hexSlice [OF assms(3)] by (simp add: check_fetched_def parseHexHashes_def)
  moreover have "\<not> length (FormatRoot rt) < 16" using assms(2) by (simp add: FormatRoot_def hex_encode_length)
  ultimately show ?thesis
    using assms(5) by (simp add: judge_proof_def report_proof_def say_def println_def bind_op_def)
qed

text \<open>The keys and sizes of the database fit the columns.\<close>

definition rows_int64 :: "db \<Rightarrow> bool" where
  "rows_int64 st = (\<forall>k \<in> set (checkpoints st). int64 (ck_id k) \<and> int64 (ck_tree_size k))"

lemma inclusion_body_decodes:
  assumes "rows_int64 st" and "k \<in> set (checkpoints st)" and "0 \<le> i" and "i < ck_tree_size k"
    and "FormatRoot rt = ck_root_hex k" and "hr_body resp = inclusion_body (scanCheckpointRow k) n i p"
  shows "decode_response (dec_object proof_resp_fields zero_proof_resp) resp =
    Inr \<lparr>pr_ReceiptID = sanitize n, pr_CheckpointID = ck_id k, pr_LeafIndex = i, pr_TreeSize = ck_tree_size k,
         pr_RootHex = FormatRoot rt, pr_Proof = hexSlice p\<rparr>"
proof -
  have ints: "int64 (ck_id k)" "int64 i" "int64 (ck_tree_size k)"
    using assms(1-4) by (auto simp: rows_int64_def int64_def)
  have "hr_body resp = jtext (inclusion_value n (ck_id k) i (ck_tree_size k) (FormatRoot rt) (hexSlice p)) @ [newline]"
    using assms(5,6) by (simp add: inclusion_body_value scanCheckpointRow_def)
  from decode_response_jtext [OF inclusion_value_wf this, of "dec_object proof_resp_fields zero_proof_resp"]
  show ?thesis by (simp add: decode_inclusion [OF ints] sanitize_hashes)
qed

text \<open>C5. The proof command accepts what the proof endpoint serves: in every reachable state of the ledger (with at most
  \<open>2 ^ 62\<close> receipts and keys in the range of \<^verbatim>\<open>int64\<close>), when the
  endpoint answers 200 and the client receives that answer, \<^verbatim>\<open>check-proof\<close> succeeds on every file whose receipt has
  the identifier asked for and the canonical bytes of the stored receipts with that identifier.\<close>

theorem check_proof_accepts_served:
  assumes "sv_store sv = sqlite_store" and "ledger_reach (al_sha al) c b (ap_store a)"
    and "length (receipts (ap_store a)) \<le> 2 ^ 62" and "rows_int64 (ap_store a)"
    and "handleInclusionProof al sv rq new_writer a = Some (w', a')" and "wr_sent w' = Some (200, hs)"
    and "get_or_empty (rq_values rq) ''id'' = r_ID r" and "path \<noteq> []" and "ledger \<noteq> []"
    and "\<And>k rs x. k \<in> set (checkpoints (ap_store a)) \<Longrightarrow> map_res unmarshal_row (in_range k (ap_store a)) = Inr rs \<Longrightarrow>
           x \<in> set rs \<Longrightarrow> r_ID x = r_ID r \<Longrightarrow> CanonicalBytes x = CanonicalBytes r"
    and "vl_sha vl = al_sha al" and "os_files s path = Inr data" and "unmarshal_receipt data = Inr r"
    and "hc_get (vl_client vl) (ledger @ ''/v1/receipts/'' @ r_ID r @ ''/proof'') (os_net s) =
           (Inr \<lparr>hr_status = 200, hr_body = wr_body w', hr_body_err = None\<rparr>, net')"
  shows "\<exists>s'. runCheckProof vl [''--receipt'', path, ''--ledger'', ledger] s = Some (Inr (), s')"
proof -
  obtain k rs leaves rt i p where k: "k \<in> set (checkpoints (ap_store a))"
    and rs: "map_res unmarshal_row (in_range k (ap_store a)) = Inr rs" "i < length rs" "r_ID (rs ! i) = r_ID r"
    and leaf: "leafFromReceipt (al_sha al) (rs ! i) = Inr (leaves ! i)" and rt: "FormatRoot rt = ck_root_hex k"
    and v: "VerifyInclusion (al_sha al) (leaves ! i) rt (int i) (ck_tree_size k) p = Some True"
    and len: "list_all (\<lambda>h. length h = 32) p" "length rt = 32"
    and body: "wr_body w' = inclusion_body (scanCheckpointRow k) (r_ID r) (int i) p"
    using served_proof [OF assms(1-3,5,6)] unfolding assms(7) by blast
  have "CanonicalBytes (rs ! i) = CanonicalBytes r" using assms(10) [OF k rs(1) nth_mem [OF rs(2)] rs(3)] .
  then obtain cb where cb: "CanonicalBytes r = Inr cb" "leaves ! i = HashLeaf (vl_sha vl) cb"
    using leaf assms(11) by (auto simp: leafFromReceipt_def and_then_Inr wrap_err_Inr)
  let ?resp = "\<lparr>pr_ReceiptID = sanitize (r_ID r), pr_CheckpointID = ck_id k, pr_LeafIndex = int i,
    pr_TreeSize = ck_tree_size k, pr_RootHex = FormatRoot rt, pr_Proof = hexSlice p\<rparr>"
  have "int i < ck_tree_size k" using v by (auto simp: VerifyInclusion_def split: if_splits)
  from inclusion_body_decodes [OF assms(4) k _ this rt] body
  have "decode_response (dec_object proof_resp_fields zero_proof_resp)
      \<lparr>hr_status = 200, hr_body = wr_body w', hr_body_err = None\<rparr> = Inr ?resp" by simp
  then have "runCheckProof vl [''--receipt'', path, ''--ledger'', ledger] s =
      judge_proof vl r ?resp (s\<lparr>os_net := net'\<rparr>)"
    using assms(8,9,12-14)
    by (simp add: runCheckProof_def str_flag_def flag_parts_def bind_op_def wrap_op_def loadReceipt_def
        unmarshal_wire fetchInclusionProof_def on_net_def)
  moreover have "VerifyInclusion (vl_sha vl) (HashLeaf (vl_sha vl) cb) rt (int i) (ck_tree_size k) p = Some True"
    using v cb(2) assms(11) by simp
  with judge_valid [OF cb(1) len(2,1), of vl ?resp] have "\<exists>s'. judge_proof vl r ?resp (s\<lparr>os_net := net'\<rparr>) = Some (Inr (), s')"
    by simp
  ultimately show ?thesis by simp
qed

definition toy_verifier :: "bytes \<Rightarrow> unit verifier_lib" where
  "toy_verifier body =
     \<lparr>vl_sha = (\<lambda>x. x), vl_ed = toy_scheme,
      vl_client = \<lparr>hc_get = (\<lambda>url n. (Inr \<lparr>hr_status = 200, hr_body = body, hr_body_err = None\<rparr>, n)),
                    hc_post = (\<lambda>url hs b n. (Inl (Foreign ''offline''), n))\<rparr>,
      vl_time_string = canonical_time, vl_parse_float = parse_float\<rparr>"

definition toy_os :: "bytes \<Rightarrow> unit os" where
  "toy_os file =
     \<lparr>os_files = (\<lambda>_. Inr file), os_writable = (\<lambda>_. None), os_out = [], os_err = [], os_log = [], os_net = ()\<rparr>"

theorem check_proof_accepts_served_witness:
  "\<exists>body js s'. runCheckProof (toy_verifier body) [''--receipt'', ''r.json'', ''--ledger'', ''http://l''] (toy_os js) =
     Some (Inr (), s')"
proof -
  obtain st w a k js where st: "ledger_reach (\<lambda>x. x) toy_scheme (NewBuilder ''k'' 0) st" "checkpoints st = [k]"
    "receipts st = [\<lparr>rr_id = 1, rr_json = js, rr_batched = True\<rparr>]" "unmarshal_receipt js = Inr sample_receipt"
    "ck_id k = 1" "ck_tree_size k = 1"
    and h: "handleInclusionProof toy_api toy_server ((request ''GET'' [] [])\<lparr>rq_values := [(''id'', ''rec-1'')]\<rparr>) new_writer (fresh_api st) = Some (w, a)"
    and ok: "wr_sent w = Some (200, [(''Content-Type'', ''application/json'')])" by (rule sample_served)
  have f: "ap_store (fresh_api st) = st" by (simp add: fresh_api_def)
  have i: "r_ID sample_receipt = ''rec-1''" by (simp add: sample_receipt_def)
  have one: "CanonicalBytes x = CanonicalBytes sample_receipt"
    if "map_res unmarshal_row (in_range k' st) = Inr rs" "x \<in> set rs" for k' rs x
    using that st(3,4) by (auto simp: in_range_def unmarshal_row_def split: if_splits)
  have "\<exists>s'. runCheckProof (toy_verifier (wr_body w)) [''--receipt'', ''r.json'', ''--ledger'', ''http://l''] (toy_os js) =
     Some (Inr (), s')"
    by (rule check_proof_accepts_served
          [where sv = toy_server and al = toy_api and c = toy_scheme and a = "fresh_api st" and r = sample_receipt and data = js, OF _ _ _ _ h ok])
      (use st i one in \<open>auto simp: f rows_int64_def int64_def get_or_empty_def toy_verifier_def toy_os_def\<close>)
  then show ?thesis by blast
qed

section \<open>The monitor and the server\<close>

text \<open>The server leaves the verified counts of a receipt at zero.\<close>

definition uncounted :: "receipt \<Rightarrow> bool" where
  "uncounted r = (r_VerifiedInputTokens r = 0 \<and> r_VerifiedOutputTokens r = 0)"

lemma populate_uncounted [simp]:
  "uncounted (populateModelIdentity xl reg r bj) = uncounted r"
  "uncounted (populateEnergyFields est carbon region r) = uncounted r"
  by (auto simp: uncounted_def populateModelIdentity_def populateEnergyFields_def Lookup_def Let_def
      split: sum.splits option.splits)

lemma sign_uncounted: "SignReceipt c r sk = (r', e) \<Longrightarrow> uncounted r' = uncounted r"
  by (auto simp: SignReceipt_def uncounted_def Let_def split: sum.splits if_splits)

lemma built_uncounted:
  assumes "buildReceipt al sv n req = Inr r"
  shows "uncounted r"
proof -
  have f: "uncounted (fresh_receipt al sv n req usage)" for usage
    by (simp add: uncounted_def fresh_receipt_def zero_receipt_def)
  have s: "uncounted (fst (SignReceipt c r' sk)) = uncounted r'" for c r' sk
    by (metis prod.collapse sign_uncounted)
  have v: "uncounted (r'\<lparr>r_Verified := True\<rparr>) = uncounted r'" for r' by (simp add: uncounted_def)
  obtain r' where "r = r'\<lparr>r_Verified := True\<rparr>" "uncounted r'"
    using assms s f by (fastforce simp: buildReceipt_def Let_def and_then_Inr case_prod_beta)
  then show ?thesis by (simp add: v)
qed

text \<open>A receipt that was built, stored and printed by the server, as a client decodes it.\<close>

definition served_by ::
  "('ct, 'rt, 'ky, 'sg, 'vf) api_lib \<Rightarrow> 's server \<Rightarrow> receipt \<Rightarrow> bool" where
  "served_by al sv r =
     (\<exists>n req r0 js. buildReceipt al sv n req = Inr r0 \<and> receipt_ok r0 \<and> marshal_receipt r0 = Inr js \<and>
        unmarshal_receipt js = Inr r)"

lemma served_uncounted: "served_by al sv r \<Longrightarrow> uncounted r"
  using unmarshal_receipt_marshal by (fastforce simp: served_by_def dest: built_uncounted)

lemma uncounted_quiet_all: "list_all uncounted rs \<Longrightarrow> foldl (\<lambda>w r. checkReceipt nl m r w) w rs = w"
  by (induction rs) (simp_all add: checkReceipt_def uncounted_def)

text \<open>A monitor with another alerter sends the same requests, and works the same way while nothing is to be alerted.\<close>

abbreviation alerting :: "'w monitor \<Rightarrow> 'w alerter \<Rightarrow> 'w monitor" where
  "alerting m al \<equiv> m\<lparr>mo_alerter := al\<rparr>"

lemma fetch_alerting [simp]:
  "fetchStats nl (alerting m al) = fetchStats nl m"
  "fetchCheckpoints nl (alerting m al) = fetchCheckpoints nl m"
  "fetchReceiptRange nl (alerting m al) = fetchReceiptRange nl m"
  by (auto simp: fun_eq_iff fetchStats_def fetchCheckpoints_def fetchReceiptRange_def fetch_def)

definition all_uncounted :: "'w net_lib \<Rightarrow> 'w monitor \<Rightarrow> bool" where
  "all_uncounted nl m =
     (\<forall>a b s rs s'. fetchReceiptRange nl m a b s = Some (Inr rs, s') \<longrightarrow> list_all uncounted rs)"

lemma all_uncountedD: "fetchReceiptRange nl m a b s = Some (Inr rs, s') \<Longrightarrow> all_uncounted nl m \<Longrightarrow> list_all uncounted rs"
  unfolding all_uncounted_def by blast

lemma check_alerting:
  "all_uncounted nl m \<Longrightarrow> check_checkpoints nl (alerting m al) cps w = check_checkpoints nl m cps w"
  by (induction cps arbitrary: w)
    (auto simp: uncounted_quiet_all Let_def dest: all_uncountedD split: option.split sum.split)

lemma tick_alerting: "all_uncounted nl m \<Longrightarrow> tick nl (alerting m al) w = tick nl m w"
  by (simp add: tick_def check_alerting split: option.splits sum.splits prod.splits)

lemma loop_alerting: "all_uncounted nl m \<Longrightarrow> monitor_loop nl (alerting m al) es w = monitor_loop nl m es w"
  by (induction nl m es w rule: monitor_loop.induct)
    (auto simp: tick_alerting bind_eq_Some_conv split: Option.bind_split)

text \<open>C36. The monitor never alerts on what the server records: while every list of receipts the ledger answers holds
  receipts its ingest handlers built, the whole run of the monitor is the same whatever its alerter, so also the
  same as with one that does nothing.\<close>

theorem monitor_blind:
  assumes "\<And>a b s rs s' r. fetchReceiptRange nl m a b s = Some (Inr rs, s') \<Longrightarrow> r \<in> set rs \<Longrightarrow> served_by al sv r"
  shows "monitor_Run nl m es w = monitor_Run nl (m\<lparr>mo_alerter := MultiAlerter []\<rparr>) es w"
proof -
  have "all_uncounted nl m"
    unfolding all_uncounted_def list_all_iff using assms served_uncounted by blast
  then show ?thesis by (simp add: monitor_Run_def tick_alerting loop_alerting [THEN ext])
qed

definition receipts_body :: "jval \<Rightarrow> bytes" where
  "receipts_body v = jtext (JObj [(''receipts'', JArr [v])]) @ [newline]"

definition constant_net :: "bytes \<Rightarrow> unit net_lib" where
  "constant_net body =
     \<lparr>net_url = (\<lambda>_. None), net_now = (\<lambda>n. (unix_time 0, n)),
      net_client = (\<lambda>_. \<lparr>hc_get = (\<lambda>url n. (Inr \<lparr>hr_status = 200, hr_body = body, hr_body_err = None\<rparr>, n)),
        hc_post = (\<lambda>url hs b n. (Inl (Foreign ''offline''), n))\<rparr>)\<rparr>"

definition toy_monitor :: "bytes \<Rightarrow> unit monitor" where
  "toy_monitor body =
     NewMonitor (constant_net body) \<lparr>mc_LedgerURL = ''http://l'', mc_Alerter = Some (MemoryAlerter 0), mc_Interval = 0, mc_Threshold = Fin 5\<rparr>"

lemma receipts_body_decodes:
  assumes "receipt_ok r" and "marshal_receipt_value r = Inr v" and "hr_body resp = receipts_body v"
  shows "decode_response (dec_object receipts_fields []) resp = Inr [r]"
proof -
  obtain xs where xs: "marshal_members (receipt_members r) = Inr xs" "v = JObj xs"
    using assms(2) by (auto simp: marshal_receipt_value_def jobj_def split: sum.splits)
  note wf = marshal_members_wf [OF receipt_members_ok [OF assms(1)] xs(1)]
  have d: "jwf v" "jdepth v = 1"
    using wf foldr_max_zero [of "\<lambda>k v. raw_ok k \<and> jwf v" xs] by (auto simp: xs(2) list_all_iff)
  have k: "plain_key ''receipts''" by (simp add: plain_key_def plain_char_def)
  then have "jwf (JObj [(''receipts'', JArr [v])])" "jdepth (JObj [(''receipts'', JArr [v])]) \<le> 10000"
    using d by (simp_all add: plain_raw_ok)
  from decode_response_jtext [OF this, of resp] assms(3)
  have "decode_response (dec_object receipts_fields []) resp = dec_object receipts_fields [] (JObj [(''receipts'', JArr [v])])"
    by (simp add: receipts_body_def)
  moreover have "unmarshal_receipt (jtext v) = Inr r"
    using unmarshal_receipt_marshal [OF assms(1)] xs by (auto simp: marshal_receipt_def marshal_struct_def)
  then have "dec_object receipt_wire zero_receipt v = Inr r"
    using json_parse_jtext [of v] d by (simp add: unmarshal_wire [symmetric] unmarshal_with_def)
  then have "dec_object receipts_fields [] (JObj [(''receipts'', JArr [v])]) = Inr [r]"
    using k by (subst dec_object_def) (simp add: receipts_fields_def key_matches_plain slice_def slice_of_def)
  ultimately show ?thesis by simp
qed

theorem monitor_blind_witness:
  "\<exists>body r. fetchReceiptRange (constant_net body) (toy_monitor body) 1 1 (toy_os []) = Some (Inr [r], toy_os []) \<and>
     monitor_Run (constant_net body) (toy_monitor body) [Ticked, Cancelled] \<lparr>wd_os = toy_os [], wd_Alerts = (\<lambda>_. [])\<rparr> =
     monitor_Run (constant_net body) ((toy_monitor body)\<lparr>mo_alerter := MultiAlerter []\<rparr>) [Ticked, Cancelled]
       \<lparr>wd_os = toy_os [], wd_Alerts = (\<lambda>_. [])\<rparr>"
proof -
  obtain r where r: "buildReceipt toy_api toy_server 0 toy_request = Inr r" "receipt_ok r" using toy_receipt by blast
  obtain js where js: "marshal_receipt r = Inr js" "unmarshal_receipt js = Inr r" using unmarshal_receipt_marshal [OF r(2)] by blast
  then obtain v where v: "marshal_receipt_value r = Inr v"
    by (auto simp: marshal_receipt_def marshal_struct_def marshal_receipt_value_def jobj_def split: sum.splits)
  define body where "body = receipts_body v"
  have f: "fetchReceiptRange (constant_net body) (toy_monitor body) a b s = Some (Inr [r], s)" for a b s
    using receipts_body_decodes [OF r(2) v, of "\<lparr>hr_status = 200, hr_body = body, hr_body_err = None\<rparr>"]
    by (simp add: fetchReceiptRange_def fetch_def fetched_def constant_net_def toy_monitor_def NewMonitor_def on_net_def body_def)
  have "served_by toy_api toy_server r" using r js by (auto simp: served_by_def)
  with f have "monitor_Run (constant_net body) (toy_monitor body) es w =
      monitor_Run (constant_net body) ((toy_monitor body)\<lparr>mo_alerter := MultiAlerter []\<rparr>) es w" for es w
    by (intro monitor_blind [where al = toy_api and sv = toy_server]) auto
  with f show ?thesis by blast
qed

end
