(* ===== verification/Interleave.thy ===== *)
theory Interleave
  imports Ledger
begin

text \<open>
  \<^verbatim>\<open>BuildAndSign\<close> cut at its calls of the store, so that what the other goroutines of the service do can come
  between them. One builder is safe whatever comes between its steps; two at once, which the service allows
  (the batcher and \<^verbatim>\<open>POST /v1/checkpoints/build\<close>), commit to the same receipts twice.
\<close>

section \<open>The steps of a build\<close>

text \<open>What a build has computed: the keys of its rows, their number and the hex root, then the previous root, then
  the saved checkpoint.\<close>

datatype build_state =
    Ready
  | Hashed "int list" int bytes
  | Linked "int list" int bytes bytes
  | Saved "int list" store_checkpoint
  | Returned "store_checkpoint option res"

definition sign_with ::
  "'s store \<Rightarrow> ed25519 \<Rightarrow> bytes \<Rightarrow> gotime \<Rightarrow> int \<Rightarrow> int \<Rightarrow> int \<Rightarrow> bytes \<Rightarrow> bytes \<Rightarrow> ('s, store_checkpoint) op" where
  "sign_with S c key now batchStart batchEnd treeSize rootHex prevRootHex =
     (let cp = \<lparr>cp_ID = 0, cp_BatchStart = batchStart, cp_BatchEnd = batchEnd, cp_TreeSize = treeSize,
               cp_RootHex = rootHex, cp_PreviousRootHex = prevRootHex, cp_IssuedAt = truncate_second now,
               cp_OperatorSigHex = [], cp_RekorLogIndex = 0\<rparr>
      in bind_op (lift_op (payload_Bytes (payload_of cp))) (\<lambda>pb.
         let cp1 = cp\<lparr>cp_OperatorSigHex := hex_encode (ed_sign c key pb)\<rparr>
         in bind_op (wrap_op ''save checkpoint'' (S_SaveCheckpoint S cp1)) (\<lambda>n. ret_op (cp1\<lparr>cp_ID := n\<rparr>))))"

fun build_step ::
  "'s store \<Rightarrow> sha_fun \<Rightarrow> ed25519 \<Rightarrow> gotime \<Rightarrow> builder \<Rightarrow> build_state \<Rightarrow> 's \<Rightarrow> (build_state \<times> 's) option" where
  "build_step S sha c now b Ready s =
     (case wrap_op ''fetch unbatched'' (S_FetchUnbatched S (b_maxBatch b)) s of (r, s) \<Rightarrow>
      case r of
        Inl e \<Rightarrow> Some (Returned (Inl e), s)
      | Inr stored \<Rightarrow>
          if stored = [] then Some (Returned (Inr None), s)
          else case map_res (\<lambda>sr. receipt_leaf sha (sr_Receipt sr)) stored of
              Inl e \<Rightarrow> Some (Returned (Inl e), s)
            | Inr leaves \<Rightarrow>
                map_option (\<lambda>rt. (Hashed (map sr_RowID stored) (int (length leaves)) (FormatRoot rt), s)) (BuildRoot sha leaves))"
| "build_step S sha c now b (Hashed ids n rt) s =
     (case previous_root S s of (r, s) \<Rightarrow>
      case r of Inl e \<Rightarrow> Some (Returned (Inl e), s) | Inr prev \<Rightarrow> Some (Linked ids n rt prev, s))"
| "build_step S sha c now b (Linked ids n rt prev) s =
     (case sign_with S c (b_privateKey b) now (hd ids) (last ids) n rt prev s of (r, s) \<Rightarrow>
      case r of Inl e \<Rightarrow> Some (Returned (Inl e), s) | Inr cp \<Rightarrow> Some (Saved ids cp, s))"
| "build_step S sha c now b (Saved ids cp) s =
     (case wrap_op ''mark batched'' (S_MarkBatched S ids) s of (r, s) \<Rightarrow>
      case r of Inl e \<Rightarrow> Some (Returned (Inl e), s) | Inr _ \<Rightarrow> Some (Returned (Inr (Some cp)), s))"
| "build_step S sha c now b (Returned r) s = Some (Returned r, s)"

fun build_run ::
  "nat \<Rightarrow> 's store \<Rightarrow> sha_fun \<Rightarrow> ed25519 \<Rightarrow> gotime \<Rightarrow> builder \<Rightarrow> build_state \<Rightarrow> 's \<Rightarrow> (build_state \<times> 's) option" where
  "build_run 0 S sha c now b pc s = Some (pc, s)"
| "build_run (Suc n) S sha c now b pc s =
     Option.bind (build_step S sha c now b pc s) (\<lambda>(pc, s). build_run n S sha c now b pc s)"

text \<open>The four steps without anything between them are \<^verbatim>\<open>BuildAndSign\<close>.\<close>

lemma sign_with_previous:
  "sign_and_save S c key now i j n rt = bind_op (previous_root S) (sign_with S c key now i j n rt)"
  by (simp add: sign_and_save_def sign_with_def [abs_def])

lemma build_run_returned [simp]: "build_run n S sha c now b (Returned r) s = Some (Returned r, s)"
  by (induction n) auto

lemma build_run_serial:
  "build_run 4 S sha c now b Ready s = map_option (\<lambda>(r, s). (Returned r, s)) (BuildAndSign S sha c now b s)"
proof -
  have run: "build_run 4 S sha c now b pc s = Option.bind (build_step S sha c now b pc s) (\<lambda>(pc, s).
      Option.bind (build_step S sha c now b pc s) (\<lambda>(pc, s). Option.bind (build_step S sha c now b pc s) (\<lambda>(pc, s).
      build_step S sha c now b pc s)))" for pc s
    by (simp add: numeral_eq_Suc split_def)
  have tail: "Option.bind (build_step S sha c now b (Hashed (map sr_RowID stored) n rt) s) (\<lambda>(pc, s).
      Option.bind (build_step S sha c now b pc s) (\<lambda>(pc, s). build_step S sha c now b pc s)) =
    map_option (\<lambda>(r, s). (Returned r, s)) (Some (bind_op
      (sign_and_save S c (b_privateKey b) now (hd (map sr_RowID stored)) (last (map sr_RowID stored)) n rt) (\<lambda>cp.
       bind_op (wrap_op ''mark batched'' (S_MarkBatched S (map sr_RowID stored))) (\<lambda>_. ret_op (Some cp))) s))"
    for stored :: "stored_receipt list" and n rt s
    by (auto simp: sign_with_previous bind_op_def split: prod.split sum.split)
  show ?thesis unfolding run
    by (auto simp: BuildAndSign_def tail Let_def simp del: build_step.simps(2) split: prod.split sum.split option.split bind_splits)
qed

section \<open>One builder among the other operations\<close>

text \<open>The states of a builder and a database: the steps of the builder, a next call, and every other operation of the
  ledger at any point.\<close>

inductive fine_reach :: "sha_fun \<Rightarrow> ed25519 \<Rightarrow> builder \<Rightarrow> build_state \<Rightarrow> db \<Rightarrow> bool" for sha c b where
  start: "fine_reach sha c b Ready empty_db"
| build: "fine_reach sha c b pc st \<Longrightarrow> build_step sqlite_store sha c now b pc st = Some (pc', st') \<Longrightarrow> fine_reach sha c b pc' st'"
| again: "fine_reach sha c b (Returned r) st \<Longrightarrow> fine_reach sha c b Ready st"
| other: "fine_reach sha c b pc st \<Longrightarrow> ledger_step sha c b ev st st' \<Longrightarrow> (\<And>now. ev \<noteq> Build now) \<Longrightarrow> fine_reach sha c b pc st'"

text \<open>What another operation can do: append rows that are not batched, and change fields of the checkpoints that the
  invariant does not look at.\<close>

definition same_commitment :: "(checkpoint_row \<Rightarrow> checkpoint_row) \<Rightarrow> bool" where
  "same_commitment f =
     (\<forall>k. ck_batch_start (f k) = ck_batch_start k \<and> ck_batch_end (f k) = ck_batch_end k \<and>
          ck_tree_size (f k) = ck_tree_size k \<and> ck_root_hex (f k) = ck_root_hex k \<and>
          ck_previous_root_hex (f k) = ck_previous_root_hex k)"

definition env :: "db \<Rightarrow> db \<Rightarrow> bool" where
  "env st st' =
     (db_faults st' = [] \<and> db_inv st' \<and>
      (\<exists>extra f. receipts st' = receipts st @ extra \<and> list_all (\<lambda>rw. \<not> rr_batched rw) extra \<and>
         checkpoints st' = map f (checkpoints st) \<and> same_commitment f))"

lemma env_extends: "extends st st' \<Longrightarrow> db_inv st' \<Longrightarrow> env st st'"
  using list.map_id [of "checkpoints st"] by (auto simp: env_def extends_def intro!: exI [of _ id]) (simp add: same_commitment_def)

lemma env_rekor:
  assumes "UpdateCheckpointRekorIndex i j st = (u, st')" and "db_faults st = []" and "db_inv st"
  shows "env st st'"
proof -
  have "db_inv st'" using keepsD [OF keeps_UpdateRekor assms(3), of i j] assms(1) by simp
  moreover have "same_commitment (\<lambda>k. if ck_id k = i then k\<lparr>ck_rekor_log_index := j\<rparr> else k)"
    by (simp add: same_commitment_def)
  moreover have "st' = st\<lparr>checkpoints := map (\<lambda>k. if ck_id k = i then k\<lparr>ck_rekor_log_index := j\<rparr> else k) (checkpoints st)\<rparr>"
    using assms(1,2) by (simp add: UpdateCheckpointRekorIndex_def sql_healthy set_rekor_def)
  ultimately show ?thesis using assms(2) unfolding env_def
    by (intro conjI exI [of _ "[]"] exI [of _ "\<lambda>k. if ck_id k = i then k\<lparr>ck_rekor_log_index := j\<rparr> else k"]) auto
qed

lemma other_env:
  assumes "ledger_step sha c b ev st st'" and "\<And>now. ev \<noteq> Build now" and "db_faults st = []" and "db_inv st"
  shows "env st st'"
  using assms(1)
proof cases
  case (append r x)
  with keepsD [OF extends_AppendReceipt extends_refl [OF assms(3)], of r] keepsD [OF keeps_AppendReceipt assms(4), of r]
  show ?thesis by (simp add: env_extends)
next
  case (append_batch rs xs)
  with extends_AppendReceiptsBatch [OF extends_refl [OF assms(3)], of rs] keepsD [OF keeps_AppendReceiptsBatch assms(4), of rs]
  show ?thesis by (simp add: env_extends)
next
  case (build now y)
  then show ?thesis using assms(2) by blast
next
  case (witness i w s u)
  with keepsD [OF extends_AddWitnessSignature extends_refl [OF assms(3)], of i w s]
    keepsD [OF keeps_AddWitnessSignature assms(4), of i w s]
  show ?thesis by (simp add: env_extends)
next
  case (rekor i j u)
  with env_rekor assms(3,4) show ?thesis by blast
next
  case (cosig h t u)
  with keepsD [OF extends_StoreCosignature extends_refl [OF assms(3)], of h t]
    keepsD [OF keeps_StoreCosignature assms(4), of h t]
  show ?thesis by (simp add: env_extends)
qed

lemma env_inv:
  assumes "ledger_inv sha st" and "env st st'"
  shows "ledger_inv sha st'"
proof -
  obtain rows where r: "receipts st = rows @ unbatched st" "list_all rr_batched rows" "covered sha (checkpoints st) rows"
    using assms(1) by (auto simp: ledger_inv_def)
  obtain extra f where e: "receipts st' = receipts st @ extra" "list_all (\<lambda>rw. \<not> rr_batched rw) extra"
    "checkpoints st' = map f (checkpoints st)" "same_commitment f" "db_faults st' = []" "db_inv st'"
    using assms(2) by (auto simp: env_def)
  have "filter (\<lambda>rw. \<not> rr_batched rw) extra = extra" using e(2) by (simp add: list_all_iff)
  then have "unbatched st' = unbatched st @ extra" using e(1) by (simp add: unbatched_def)
  moreover have "covered sha (checkpoints st') rows"
    unfolding e(3) using r(3) e(4) by (intro covered_map) (simp_all add: same_commitment_def)
  ultimately show ?thesis using r e by (auto simp: ledger_inv_def)
qed

text \<open>The database once the rows of a saved checkpoint are marked, as \<^verbatim>\<open>MarkBatched\<close> is about to do.\<close>

definition marked :: "int list \<Rightarrow> db \<Rightarrow> db" where
  "marked ids st = st\<lparr>receipts := mark ids (receipts st)\<rparr>"

fun settle :: "build_state \<Rightarrow> db \<Rightarrow> db" where
  "settle (Saved ids cp) st = marked ids st"
| "settle pc st = st"

definition taken :: "sha_fun \<Rightarrow> int list \<Rightarrow> int \<Rightarrow> bytes \<Rightarrow> db \<Rightarrow> bool" where
  "taken sha ids n rt st =
     (\<exists>batch rest leaves root. unbatched st = batch @ rest \<and> ids = map rr_id batch \<and> batch \<noteq> [] \<and>
        map_res (row_leaf sha) batch = Inr leaves \<and> BuildRoot sha leaves = Some root \<and>
        rt = FormatRoot root \<and> n = int (length leaves))"

fun holds :: "sha_fun \<Rightarrow> build_state \<Rightarrow> db \<Rightarrow> bool" where
  "holds sha (Hashed ids n rt) st = taken sha ids n rt st"
| "holds sha (Linked ids n rt prev) st = (taken sha ids n rt st \<and> prev = last_root (checkpoints st))"
| "holds sha (Saved ids cp) st = (set ids \<subseteq> rr_id ` set (receipts st))"
| "holds sha pc st = True"

definition fine_inv :: "sha_fun \<Rightarrow> build_state \<Rightarrow> db \<Rightarrow> bool" where
  "fine_inv sha pc st = (db_faults st = [] \<and> db_inv st \<and> ledger_inv sha (settle pc st) \<and> holds sha pc st)"

lemma taken_env: "taken sha ids n rt st \<Longrightarrow> env st st' \<Longrightarrow> taken sha ids n rt st'"
proof -
  assume t: "taken sha ids n rt st" and e: "env st st'"
  obtain extra where "receipts st' = receipts st @ extra" using e by (auto simp: env_def)
  then have "\<exists>x. unbatched st' = unbatched st @ x" by (simp add: unbatched_def)
  with t show ?thesis by (fastforce simp: taken_def)
qed

lemma last_root_map: "same_commitment f \<Longrightarrow> last_root (map f cks) = last_root cks"
  by (simp add: last_root_def same_commitment_def last_map)

lemma marked_env:
  assumes "env st st'" and "set ids \<subseteq> rr_id ` set (receipts st)"
  shows "env (marked ids st) (marked ids st')"
proof -
  obtain extra f where e: "receipts st' = receipts st @ extra" "list_all (\<lambda>rw. \<not> rr_batched rw) extra"
    "checkpoints st' = map f (checkpoints st)" "same_commitment f" "db_faults st' = []" "db_inv st'"
    using assms(1) by (auto simp: env_def)
  have "distinct (map rr_id (receipts st'))" using e(6) ids_ok_distinct by (auto simp: db_inv_def)
  then have "set ids \<inter> rr_id ` set extra = {}" using assms(2) by (auto simp: e(1))
  then have "mark ids (receipts st') = mark ids (receipts st) @ extra" by (simp add: e(1) mark_disjoint)
  moreover have "db_inv (marked ids st')" using mark_rows_inv [OF e(6), of ids] by (simp add: marked_def mark_rows_def mark_def)
  ultimately show ?thesis using e by (auto simp: env_def marked_def)
qed

lemma fine_inv_env:
  assumes "fine_inv sha pc st" and "env st st'"
  shows "fine_inv sha pc st'"
proof -
  have "db_faults st' = []" "db_inv st'" using assms(2) by (simp_all add: env_def)
  moreover have "taken sha ids n rt st'" if "taken sha ids n rt st" for ids n rt using that assms(2) by (rule taken_env)
  then have "holds sha pc st'"
    using assms by (cases pc) (auto simp: fine_inv_def env_def last_root_map)
  moreover have "env (settle pc st) (settle pc st')"
    using assms marked_env by (cases pc) (auto simp: fine_inv_def)
  ultimately show ?thesis using assms(1) env_inv by (auto simp: fine_inv_def)
qed

text \<open>The steps of the builder.\<close>

lemma sign_with_healthy:
  assumes "db_faults st = []"
  shows "sign_with sqlite_store c key now i j n rt prev st =
     (let cp = issued c key now i j n rt prev; z = checkpoints_seq st + 1
      in (Inr (cp\<lparr>cp_ID := z\<rparr>), st\<lparr>checkpoints := checkpoints st @ [row_of z cp], checkpoints_seq := z\<rparr>))"
  using assms
  by (simp add: sign_with_def bind_op_def payload_Bytes_value Let_def wrap_op_def SaveCheckpoint_def sql_healthy
      insert_checkpoint_row issued_def)

lemma fetch_taken:
  assumes "db_faults st = []" and "build_step sqlite_store sha c now b Ready st = Some (pc', st')"
  shows "st' = st \<and> holds sha pc' st \<and> settle pc' st = st"
proof (cases "map_res stored_row (next_batch b st)")
  case (Inl e)
  with assms show ?thesis by (auto simp: wrap_op_def FetchUnbatched_healthy next_batch_def)
next
  case (Inr out)
  obtain rest where rest: "unbatched st = next_batch b st @ rest" using sql_limit_split by (auto simp: next_batch_def)
  have ids: "map sr_RowID out = map rr_id (next_batch b st)" using Inr by (rule map_res_ids)
  then have ne: "out = [] \<longleftrightarrow> next_batch b st = []" by (metis list.map_disc_iff)
  have l: "map_res (\<lambda>sr. receipt_leaf sha (sr_Receipt sr)) out = map_res (row_leaf sha) (next_batch b st)"
    using map_res_compose [OF Inr, of "\<lambda>sr. receipt_leaf sha (sr_Receipt sr)"] by (simp add: row_leaf_def [abs_def])
  have g: "FetchUnbatched (b_maxBatch b) st = (Inr out, st)"
    using Inr by (simp add: FetchUnbatched_healthy [OF assms(1)] next_batch_def)
  have t: "taken sha (map sr_RowID out) (int (length leaves)) (FormatRoot root) st"
    if "out \<noteq> []" "map_res (row_leaf sha) (next_batch b st) = Inr leaves" "BuildRoot sha leaves = Some root" for leaves root
    unfolding taken_def using rest ids ne that by blast
  show ?thesis
    using assms(2) t by (auto simp: wrap_op_def g l split: if_splits sum.splits)
qed

lemma fetch_ready:
  assumes "db_faults st = []" and "next_batch b st \<noteq> []" and "map_res (row_leaf sha) (next_batch b st) = Inr leaves"
    and "BuildRoot sha leaves = Some rt"
  shows "build_step sqlite_store sha c now b Ready st =
    Some (Hashed (map rr_id (next_batch b st)) (int (length leaves)) (FormatRoot rt), st)"
proof -
  obtain out where out: "map_res stored_row (next_batch b st) = Inr out"
    using map_res_Inl_compose [of stored_row "next_batch b st" _ "\<lambda>sr. receipt_leaf sha (sr_Receipt sr)"] assms(3)
    by (cases "map_res stored_row (next_batch b st)") (auto simp: row_leaf_def [abs_def])
  then have "map sr_RowID out = map rr_id (next_batch b st)" by (rule map_res_ids)
  moreover have "map_res (\<lambda>sr. receipt_leaf sha (sr_Receipt sr)) out = Inr leaves"
    using map_res_compose [OF out, of "\<lambda>sr. receipt_leaf sha (sr_Receipt sr)"] assms(3) by (simp add: row_leaf_def [abs_def])
  ultimately show ?thesis
    using assms(1,2,4) out by (auto simp: wrap_op_def FetchUnbatched_healthy next_batch_def [symmetric])
qed

lemma build_step_inv:
  assumes i: "fine_inv sha pc st" and s: "build_step sqlite_store sha c now b pc st = Some (pc', st')"
  shows "fine_inv sha pc' st'"
proof -
  have f: "db_faults st = []" "db_inv st" using i by (simp_all add: fine_inv_def)
  show ?thesis
  proof (cases pc)
    case Ready
    have "st' = st \<and> holds sha pc' st \<and> settle pc' st = st"
      by (rule fetch_taken [OF f(1)]) (use s Ready in simp)
    with i f Ready show ?thesis by (simp add: fine_inv_def)
  next
    case (Hashed ids n rt)
    with s i f show ?thesis by (auto simp: fine_inv_def previous_root_healthy)
  next
    case (Linked ids n rt prev)
    with i obtain batch rest leaves root where t: "unbatched st = batch @ rest" "ids = map rr_id batch" "batch \<noteq> []"
      "map_res (row_leaf sha) batch = Inr leaves" "BuildRoot sha leaves = Some root"
      "rt = FormatRoot root" "n = int (length leaves)" "prev = last_root (checkpoints st)" "ledger_inv sha st"
      by (auto simp: fine_inv_def taken_def)
    let ?k = "row_of (checkpoints_seq st + 1) (issued c (b_privateKey b) now (hd ids) (last ids) n rt prev)"
    have st': "st' = st\<lparr>checkpoints := checkpoints st @ [?k], checkpoints_seq := checkpoints_seq st + 1\<rparr>"
      and pc': "\<exists>cp. pc' = Saved ids cp"
      using s Linked by (auto simp: sign_with_healthy [OF f(1)] Let_def)
    have "ledger_inv sha (marked ids st')"
      by (rule commit_batch [OF t(9,1,3-5) refl]) (simp add: marked_def st' t(2,6-8))
    moreover have "db_inv st'"
      using insert_checkpoint_inv [OF f(2)] unfolding st' insert_checkpoint_row by simp
    moreover have "set ids \<subseteq> rr_id ` set (receipts st')"
      using t(1,2) by (auto simp: st' unbatched_def dest: filter_eq_ConsD) (metis UnCI filter_is_subset image_eqI set_append subsetD)
    ultimately show ?thesis using pc' f(1) by (auto simp: fine_inv_def st')
  next
    case (Saved ids cp)
    with s i f show ?thesis by (auto simp: fine_inv_def wrap_op_def MarkBatched_healthy marked_def ledger_inv_def)
  next
    case (Returned r)
    with s i show ?thesis by auto
  qed
qed

lemma fine_reach_inv: "fine_reach sha c b pc st \<Longrightarrow> fine_inv sha pc st"
proof (induction rule: fine_reach.induct)
  case start
  show ?case by (simp add: fine_inv_def ledger_inv_start empty_db_inv) (simp add: empty_db_def)
next
  case (build pc st now pc' st')
  then show ?case using build_step_inv by blast
next
  case (again r st)
  then show ?case by (simp add: fine_inv_def)
next
  case (other pc st ev st')
  have "db_faults st = []" "db_inv st" using other.IH by (simp_all add: fine_inv_def)
  with other.hyps other_env have "env st st'" by blast
  with other.IH show ?case by (rule fine_inv_env)
qed


section \<open>What the states satisfy\<close>

lemma commits_mark: "commits sha k (mark ids xs) = commits sha k xs"
proof -
  have "map_res (row_leaf sha) (mark ids xs) = map_res (row_leaf sha) xs"
    by (induction xs) (auto simp: mark_def split: sum.splits)
  then show ?thesis by (cases "xs = []") (auto simp: commits_def mark_def hd_map last_map)
qed

lemma in_range_marked: "in_range k (marked ids st) = mark ids (in_range k st)"
  by (induction "receipts st") (auto simp: in_range_def marked_def mark_def filter_map comp_def intro: filter_cong)

lemma settle_parts:
  "checkpoints (settle pc st) = checkpoints st" "commits sha k (in_range k (settle pc st)) = commits sha k (in_range k st)"
  by (cases pc; simp add: marked_def; simp add: marked_def [symmetric] in_range_marked commits_mark)+

text \<open>C38. A builder whose steps are interleaved with any other operations of the ledger, at the grain of single calls of
  the store, is safe: at every moment, also between its steps, each checkpoint names the root of the one before it
  and commits to exactly the receipts in its range.\<close>

theorem interleaved_build_safe:
  assumes "fine_reach sha c b pc st"
  shows "(\<forall>i. Suc i < length (checkpoints st) \<longrightarrow>
            VerifyChainConsistency (scanCheckpointRow (checkpoints st ! i)) (scanCheckpointRow (checkpoints st ! Suc i)) = Inr ()) \<and>
         (\<forall>k \<in> set (checkpoints st). commits sha k (in_range k st))"
proof -
  have inv: "ledger_inv sha (settle pc st)" using fine_reach_inv [OF assms] by (simp add: fine_inv_def)
  then obtain rows where cov: "covered sha (checkpoints st) rows" by (auto simp: ledger_inv_def settle_parts)
  show ?thesis
    using covered_link [OF cov] inv_range [OF inv]
    by (auto simp: settle_parts VerifyChainConsistency_def scanCheckpointRow_def)
qed

theorem interleaved_build_safe_witness:
  "\<exists>ids cp st k. fine_reach (\<lambda>x. x) toy_scheme (NewBuilder ''k'' 0) (Saved ids cp) st \<and> checkpoints st = [k] \<and>
     commits (\<lambda>x. x) k (in_range k st)"
proof -
  let ?b = "NewBuilder ''k'' 0" and ?reach = "fine_reach (\<lambda>x. x) toy_scheme (NewBuilder ''k'' 0)"
  obtain st rw where st: "AppendReceipt sample_receipt empty_db = (Inr 1, st)" "db_faults st = []" "db_inv st"
    "unbatched st = [rw]" "stored_row rw = Inr \<lparr>sr_RowID = 1, sr_Receipt = sample_receipt\<rparr>" by (rule sample_store)
  obtain cb where cb: "CanonicalBytes sample_receipt = Inr cb" using CanonicalBytes_Inr [OF sample_receipt_sane] by blast
  have n: "next_batch ?b st = [rw]" using st(4) by (simp add: next_batch_def NewBuilder_def sql_limit_def)
  have r: "BuildRoot (\<lambda>x. x) [HashLeaf (\<lambda>x. x) cb] = Some (mth (\<lambda>x. x) [HashLeaf (\<lambda>x. x) cb])" by (rule BuildRoot_mth) simp
  have "?reach Ready st" using fine_reach.other [OF fine_reach.start ledger_step.append [OF st(1)]] by simp
  from fine_reach.build [OF this fetch_ready [OF st(2) _ _ r, of ?b]] n st(5) cb obtain ids i rt where
    h: "?reach (Hashed ids i rt) st" by (auto simp: row_leaf_def receipt_leaf_def)
  obtain x st1 where a: "AppendReceipt sample_receipt st = (x, st1)" by fastforce
  have h1: "?reach (Hashed ids i rt) st1" using fine_reach.other [OF h ledger_step.append [OF a]] by simp
  have f: "db_faults st1 = []" using fine_reach_inv [OF h1] by (simp add: fine_inv_def)
  have "checkpoints st1 = checkpoints st"
    using other_env [OF ledger_step.append [OF a, of "\<lambda>x. x" toy_scheme ?b] _ st(2,3)] keepsD [OF extends_AppendReceipt extends_refl [OF st(2)], of sample_receipt] a
    by (simp add: extends_def)
  then have c: "checkpoints st1 = []" using AppendReceipt_frame [OF st(1)] by (simp add: empty_db_def)
  have "?reach (Linked ids i rt []) st1"
    by (rule fine_reach.build [OF h1, of "unix_time 100"]) (simp add: previous_root_healthy f c last_root_def)
  then obtain cp st2 k where "?reach (Saved ids cp) st2" "checkpoints st2 = [k]"
    using fine_reach.build [of _ _ ?b "Linked ids i rt []" st1 "unix_time 100"] c
    by (fastforce simp: sign_with_healthy [OF f] Let_def)
  with interleaved_build_safe [OF this(1)] show ?thesis by auto
qed

section \<open>Two builders at once\<close>

text \<open>A schedule of the steps of two builders with one store: \<open>True\<close> is a step of the first.\<close>

fun overlap ::
  "'s store \<Rightarrow> sha_fun \<Rightarrow> ed25519 \<Rightarrow> gotime \<Rightarrow> gotime \<Rightarrow> builder \<Rightarrow> bool list \<Rightarrow> build_state \<Rightarrow> build_state \<Rightarrow> 's \<Rightarrow>
   (build_state \<times> build_state \<times> 's) option" where
  "overlap S sha c t u b [] x y s = Some (x, y, s)"
| "overlap S sha c t u b (True # es) x y s =
     Option.bind (build_step S sha c t b x s) (\<lambda>(x, s). overlap S sha c t u b es x y s)"
| "overlap S sha c t u b (False # es) x y s =
     Option.bind (build_step S sha c u b y s) (\<lambda>(y, s). overlap S sha c t u b es x y s)"

text \<open>How far a build has come, what it has built and which previous root it names.\<close>

fun rank :: "build_state \<Rightarrow> nat" where
  "rank Ready = 0"
| "rank (Hashed _ _ _) = 1"
| "rank (Linked _ _ _ _) = 2"
| "rank (Saved _ _) = 3"
| "rank (Returned _) = 4"

fun built :: "build_state \<Rightarrow> store_checkpoint option" where
  "built (Saved _ cp) = Some cp"
| "built (Returned (Inr (Some cp))) = Some cp"
| "built _ = None"

fun link :: "build_state \<Rightarrow> bytes option" where
  "link (Linked _ _ _ prev) = Some prev"
| "link pc = map_option cp_PreviousRootHex (built pc)"

text \<open>A build over the rows \<open>ids\<close>, with \<open>n\<close> leaves under \<open>rt\<close>; what it built is in the table.\<close>

definition made :: "int list \<Rightarrow> int \<Rightarrow> bytes \<Rightarrow> store_checkpoint \<Rightarrow> db \<Rightarrow> bool" where
  "made ids n rt cp s =
     (cp_BatchStart cp = hd ids \<and> cp_BatchEnd cp = last ids \<and> cp_TreeSize cp = n \<and> cp_RootHex cp = rt \<and>
      cp_ID cp \<le> checkpoints_seq s \<and> (\<exists>k \<in> set (checkpoints s). scanCheckpointRow k = cp\<lparr>cp_RekorLogIndex := - 1\<rparr>))"

fun committed :: "int list \<Rightarrow> int \<Rightarrow> bytes \<Rightarrow> build_state \<Rightarrow> db \<Rightarrow> bool" where
  "committed ids n rt (Hashed i m r) s = (i = ids \<and> m = n \<and> r = rt)"
| "committed ids n rt (Linked i m r p) s = (i = ids \<and> m = n \<and> r = rt)"
| "committed ids n rt (Saved i cp) s = (i = ids \<and> made ids n rt cp s)"
| "committed ids n rt (Returned (Inr (Some cp))) s = made ids n rt cp s"
| "committed ids n rt _ s = False"

lemma committed_done: "committed ids n rt pc s \<Longrightarrow> rank pc = 4 \<Longrightarrow> \<exists>cp. pc = Returned (Inr (Some cp)) \<and> made ids n rt cp s"
  by (cases "(ids, n, rt, pc, s)" rule: committed.cases) auto

lemma made_mono:
  "made ids n rt cp s \<Longrightarrow> checkpoints_seq s \<le> checkpoints_seq s' \<Longrightarrow> set (checkpoints s) \<subseteq> set (checkpoints s') \<Longrightarrow>
     made ids n rt cp s'"
  by (auto simp: made_def)

lemma committed_mono:
  "committed ids n rt pc s \<Longrightarrow> checkpoints_seq s \<le> checkpoints_seq s' \<Longrightarrow> set (checkpoints s) \<subseteq> set (checkpoints s') \<Longrightarrow>
     committed ids n rt pc s'"
  by (cases "(ids, n, rt, pc, s)" rule: committed.cases) (auto intro: made_mono)

text \<open>What one step does: it always returns, only the third one adds a checkpoint and only the fourth one marks rows.\<close>

definition advanced :: "int list \<Rightarrow> int \<Rightarrow> bytes \<Rightarrow> build_state \<Rightarrow> db \<Rightarrow> build_state \<Rightarrow> db \<Rightarrow> bool" where
  "advanced ids n rt pc s pc' s' =
     (db_faults s' = [] \<and> committed ids n rt pc' s' \<and> rank pc' = min 4 (Suc (rank pc)) \<and>
      checkpoints_seq s \<le> checkpoints_seq s' \<and> set (checkpoints s) \<subseteq> set (checkpoints s') \<and>
      (rank pc \<le> 2 \<longrightarrow> receipts s' = receipts s) \<and> (rank pc \<le> 1 \<longrightarrow> checkpoints s' = checkpoints s) \<and>
      (\<forall>a. built pc' = Some a \<longrightarrow> built pc = Some a \<or> cp_ID a = checkpoints_seq s + 1) \<and>
      (\<forall>r. link pc = Some r \<longrightarrow> link pc' = Some r) \<and>
      (\<forall>r. link pc' = Some r \<longrightarrow> link pc = Some r \<or> r = last_root (checkpoints s)))"

lemma committed_step:
  assumes "db_faults s = []" and "committed ids n rt pc s"
  shows "\<exists>pc' s'. build_step sqlite_store sha c t b pc s = Some (pc', s') \<and> advanced ids n rt pc s pc' s'"
proof (cases pc)
  case Ready
  with assms show ?thesis by simp
next
  case (Hashed i m r)
  with assms show ?thesis by (simp add: advanced_def previous_root_healthy)
next
  case (Linked i m r p)
  let ?cp = "(issued c (b_privateKey b) t (hd ids) (last ids) n rt p)"
  have "scanCheckpointRow (row_of (checkpoints_seq s + 1) ?cp) = ?cp\<lparr>cp_ID := checkpoints_seq s + 1, cp_RekorLogIndex := - 1\<rparr>"
    by (simp add: scanCheckpointRow_def row_of_def truncate_second_def unix_time_def)
  then show ?thesis using assms Linked
    by (auto simp: advanced_def sign_with_healthy Let_def made_def)
next
  case (Saved i cp)
  with assms show ?thesis by (simp add: advanced_def wrap_op_def MarkBatched_healthy made_def)
next
  case (Returned r)
  with assms show ?thesis by (cases "(ids, n, rt, pc, s)" rule: committed.cases) (auto simp: advanced_def)
qed

lemma built_made: "committed ids n rt pc s \<Longrightarrow> built pc = Some a \<Longrightarrow> made ids n rt a s"
  by (cases "(ids, n, rt, pc, s)" rule: committed.cases) auto

definition apart :: "build_state \<Rightarrow> build_state \<Rightarrow> bool" where
  "apart x y = (\<forall>a a'. built x = Some a \<longrightarrow> built y = Some a' \<longrightarrow> cp_ID a \<noteq> cp_ID a')"

lemma apart_sym: "apart x y = apart y x"
  by (metis apart_def)

text \<open>A build that has fetched, or has not begun.\<close>

definition started :: "int list \<Rightarrow> int \<Rightarrow> bytes \<Rightarrow> build_state \<Rightarrow> db \<Rightarrow> bool" where
  "started ids n rt pc s = (pc = Ready \<or> committed ids n rt pc s)"

text \<open>A step of one build leaves the other as it was.\<close>

lemma step_apart:
  assumes "advanced ids n rt x s x' s'" and "started ids n rt y s" and "apart x y"
  shows "started ids n rt y s' \<and> apart x' y"
proof -
  have "started ids n rt y s'" using assms(1,2) committed_mono by (auto simp: started_def advanced_def)
  moreover have "cp_ID a \<noteq> cp_ID a'" if "built x' = Some a" "built y = Some a'" for a a'
  proof -
    have "committed ids n rt y s" using assms(2) that(2) by (auto simp: started_def)
    then have "cp_ID a' \<le> checkpoints_seq s" using built_made that(2) by (auto simp: made_def)
    with assms(1,3) that show ?thesis by (fastforce simp: advanced_def apart_def)
  qed
  ultimately show ?thesis by (auto simp: apart_def)
qed

lemma started_committed: "committed ids n rt x s \<Longrightarrow> started ids n rt x s" "started ids n rt x s \<Longrightarrow> rank x \<noteq> 0 \<Longrightarrow> committed ids n rt x s"
  by (auto simp: started_def)

text \<open>Once both have fetched, every schedule runs both to their end.\<close>

lemma overlap_finishes:
  assumes "db_faults s = []" and "committed ids n rt x s" and "committed ids n rt y s" and "apart x y"
  shows "\<exists>x' y' s'. overlap sqlite_store sha c t u b es x y s = Some (x', y', s') \<and>
     committed ids n rt x' s' \<and> committed ids n rt y' s' \<and> apart x' y' \<and>
     rank x' = min 4 (rank x + count_list es True) \<and> rank y' = min 4 (rank y + count_list es False) \<and>
     (\<forall>r. link x = Some r \<longrightarrow> link x' = Some r) \<and> (\<forall>r. link y = Some r \<longrightarrow> link y' = Some r)"
  using assms
proof (induction es arbitrary: x y s)
  case Nil
  have "rank pc \<le> 4" for pc by (cases pc) auto
  with Nil show ?case by (auto simp: min_absorb2)
next
  case (Cons e es)
  show ?case
  proof (cases e)
    case True
    obtain x1 s1 where a: "build_step sqlite_store sha c t b x s = Some (x1, s1)" "advanced ids n rt x s x1 s1"
      using committed_step [OF Cons.prems(1,2)] by blast
    from step_apart [OF a(2) started_committed(1) [OF Cons.prems(3)] Cons.prems(4)] Cons.prems(3) a(2)
    have "apart x1 y" "committed ids n rt y s1" using committed_mono by (auto simp: advanced_def)
    with Cons.IH [of s1 x1 y] a True show ?thesis by (auto simp: advanced_def)
  next
    case False
    obtain y1 s1 where a: "build_step sqlite_store sha c u b y s = Some (y1, s1)" "advanced ids n rt y s y1 s1"
      using committed_step [OF Cons.prems(1,3)] by blast
    from step_apart [OF a(2) started_committed(1) [OF Cons.prems(2)]] Cons.prems(2,4) a(2)
    have "apart x y1" "committed ids n rt x s1" using committed_mono by (auto simp: advanced_def apart_sym)
    with Cons.IH [of s1 x y1] a False show ?thesis by (auto simp: advanced_def)
  qed
qed

text \<open>Before either marks its rows, both fetch the same ones.\<close>

definition fetches :: "sha_fun \<Rightarrow> ed25519 \<Rightarrow> builder \<Rightarrow> db \<Rightarrow> int list \<Rightarrow> int \<Rightarrow> bytes \<Rightarrow> bool" where
  "fetches sha c b st ids n rt =
     (\<forall>s v. db_faults s = [] \<and> receipts s = receipts st \<longrightarrow>
        build_step sqlite_store sha c v b Ready s = Some (Hashed ids n rt, s))"

lemma started_step:
  assumes "fetches sha c b st ids n rt" and "db_faults s = []" and "receipts s = receipts st"
    and "started ids n rt pc s" and "rank pc \<le> 2"
  shows "\<exists>pc' s'. build_step sqlite_store sha c t b pc s = Some (pc', s') \<and> advanced ids n rt pc s pc' s' \<and>
    rank pc' = Suc (rank pc) \<and> receipts s' = receipts st"
proof (cases "pc = Ready")
  case True
  with assms have "build_step sqlite_store sha c t b pc s = Some (Hashed ids n rt, s)" by (simp add: fetches_def del: build_step.simps(1))
  with assms(2,3) True show ?thesis by (simp add: advanced_def del: build_step.simps(1))
next
  case False
  with assms(4) have "committed ids n rt pc s" by (simp add: started_def)
  from committed_step [OF assms(2) this, of sha c t b] obtain pc' s' where
    "build_step sqlite_store sha c t b pc s = Some (pc', s')" "advanced ids n rt pc s pc' s'" by blast
  with assms(3,5) show ?thesis by (intro exI [of _ pc'] exI [of _ s']) (simp add: advanced_def)
qed

lemma overlap_fetches:
  assumes "fetches sha c b st ids n rt"
    and "db_faults s = []" and "receipts s = receipts st" and "started ids n rt x s" and "started ids n rt y s" and "apart x y"
    and "rank x + count_list es True \<le> 3" and "rank y + count_list es False \<le> 3"
  shows "\<exists>x' y' s'. overlap sqlite_store sha c t u b es x y s = Some (x', y', s') \<and> db_faults s' = [] \<and>
     started ids n rt x' s' \<and> started ids n rt y' s' \<and> apart x' y' \<and>
     rank x' = rank x + count_list es True \<and> rank y' = rank y + count_list es False \<and>
     (rank x' \<le> 2 \<and> rank y' \<le> 2 \<longrightarrow>
        (\<forall>r. link x' = Some r \<longrightarrow> link x = Some r \<or> r = last_root (checkpoints s)) \<and>
        (\<forall>r. link y' = Some r \<longrightarrow> link y = Some r \<or> r = last_root (checkpoints s)))"
  using assms(2-)
proof (induction es arbitrary: x y s)
  case Nil
  then show ?case by simp
next
  case (Cons e es)
  show ?case
  proof (cases e)
    case True
    with Cons.prems(6) have "rank x \<le> 2" by simp
    from started_step [OF assms(1) Cons.prems(1-3) this] obtain x1 s1 where
      a: "build_step sqlite_store sha c t b x s = Some (x1, s1)" "advanced ids n rt x s x1 s1" "rank x1 = Suc (rank x)"
        "receipts s1 = receipts st" by blast
    from step_apart [OF a(2) Cons.prems(4,5)] have k: "started ids n rt y s1" "apart x1 y" by blast+
    have k2: "started ids n rt x1 s1" "db_faults s1 = []" using a(2) by (simp_all add: advanced_def started_def)
    have m: "rank x1 + count_list es True \<le> 3" "rank y + count_list es False \<le> 3" using a(3) Cons.prems(6,7) True by simp_all
    from Cons.IH [OF k2(2) a(4) k2(1) k m] obtain x' y' s' where o1: "overlap sqlite_store sha c t u b es x1 y s1 = Some (x', y', s')" "db_faults s' = []"
      "started ids n rt x' s'" "started ids n rt y' s'" "apart x' y'"
      "rank x' = rank x1 + count_list es True" "rank y' = rank y + count_list es False"
      "rank x' \<le> 2 \<and> rank y' \<le> 2 \<longrightarrow>
        (\<forall>r. link x' = Some r \<longrightarrow> link x1 = Some r \<or> r = last_root (checkpoints s1)) \<and>
        (\<forall>r. link y' = Some r \<longrightarrow> link y = Some r \<or> r = last_root (checkpoints s1))"
      by blast
    have "rank x' \<le> 2 \<Longrightarrow> checkpoints s1 = checkpoints s" using a(2,3) o1(6) by (simp add: advanced_def)
    moreover have "link x1 = Some r \<Longrightarrow> link x = Some r \<or> r = last_root (checkpoints s)" for r using a(2) by (simp add: advanced_def)
    ultimately show ?thesis using o1 a(1,3) True by (intro exI [of _ x'] exI [of _ y'] exI [of _ s']) auto
  next
    case False
    with Cons.prems(7) have "rank y \<le> 2" by simp
    from started_step [OF assms(1) Cons.prems(1,2,4) this] obtain y1 s1 where
      a: "build_step sqlite_store sha c u b y s = Some (y1, s1)" "advanced ids n rt y s y1 s1" "rank y1 = Suc (rank y)"
        "receipts s1 = receipts st" by blast
    from step_apart [OF a(2) Cons.prems(3)] Cons.prems(5) have k: "started ids n rt x s1" "apart x y1" by (simp_all add: apart_sym)
    have k2: "started ids n rt y1 s1" "db_faults s1 = []" using a(2) by (simp_all add: advanced_def started_def)
    have m: "rank x + count_list es True \<le> 3" "rank y1 + count_list es False \<le> 3" using a(3) Cons.prems(6,7) False by simp_all
    from Cons.IH [OF k2(2) a(4) k(1) k2(1) k(2) m] obtain x' y' s' where o1: "overlap sqlite_store sha c t u b es x y1 s1 = Some (x', y', s')" "db_faults s' = []"
      "started ids n rt x' s'" "started ids n rt y' s'" "apart x' y'"
      "rank x' = rank x + count_list es True" "rank y' = rank y1 + count_list es False"
      "rank x' \<le> 2 \<and> rank y' \<le> 2 \<longrightarrow>
        (\<forall>r. link x' = Some r \<longrightarrow> link x = Some r \<or> r = last_root (checkpoints s1)) \<and>
        (\<forall>r. link y' = Some r \<longrightarrow> link y1 = Some r \<or> r = last_root (checkpoints s1))"
      by blast
    have "rank y' \<le> 2 \<Longrightarrow> checkpoints s1 = checkpoints s" using a(2,3) o1(7) by (simp add: advanced_def)
    moreover have "link y1 = Some r \<Longrightarrow> link y = Some r \<or> r = last_root (checkpoints s)" for r using a(2) by (simp add: advanced_def)
    ultimately show ?thesis using o1 a(1,3) False by (intro exI [of _ x'] exI [of _ y'] exI [of _ s']) auto
  qed
qed

lemma overlap_append:
  "overlap S sha c t u b (xs @ ys) x y s =
     Option.bind (overlap S sha c t u b xs x y s) (\<lambda>(x, y, s). overlap S sha c t u b ys x y s)"
proof (induction xs arbitrary: x y s)
  case (Cons e xs)
  have "Option.bind (Option.bind m f) g = Option.bind m (\<lambda>z. Option.bind (f z) g)" for m :: "'z option" and f g
    by (cases m) auto
  with Cons show ?case by (cases e) (simp_all add: split_def)
qed simp

lemma build_fetches:
  assumes "db_faults st = []" and "BuildAndSign sqlite_store sha c t b st = Some (Inr (Some cp), st1)"
  shows "fetches sha c b st (map rr_id (next_batch b st)) (cp_TreeSize cp) (cp_RootHex cp) \<and>
    cp_BatchStart cp = hd (map rr_id (next_batch b st)) \<and> cp_BatchEnd cp = last (map rr_id (next_batch b st))"
proof -
  obtain leaves rt where l: "next_batch b st \<noteq> []" "map_res (row_leaf sha) (next_batch b st) = Inr leaves"
      "BuildRoot sha leaves = Some rt"
    and cp: "cp = (issued c (b_privateKey b) t (hd (map rr_id (next_batch b st))) (last (map rr_id (next_batch b st)))
      (int (length leaves)) (FormatRoot rt) (last_root (checkpoints st)))\<lparr>cp_ID := checkpoints_seq st + 1\<rparr>"
    using build_success [OF assms(2,1)] by (auto simp: Let_def)
  have "build_step sqlite_store sha c v b Ready s = Some (Hashed (map rr_id (next_batch b st)) (int (length leaves)) (FormatRoot rt), s)"
    if "db_faults s = []" "receipts s = receipts st" for s v
  proof -
    have "next_batch b s = next_batch b st" using that(2) by (simp add: next_batch_def unbatched_def)
    with fetch_ready [OF that(1), of b sha leaves rt] l show ?thesis by simp
  qed
  then show ?thesis by (simp add: fetches_def cp)
qed

text \<open>C39. Two builds that overlap commit to the same receipts twice. Take any schedule of the steps of two builds on one
  store in which both have fetched their rows before either marks its rows (at most three steps of each in the
  first part \<open>xs\<close>), and then run to their end: both succeed, with different keys and the same range, size and
  root, and both checkpoints are in the table. When both have also read the previous root before either saves
  (two steps of each in \<open>xs\<close>), they name the same previous root: the chain forks.\<close>

theorem overlapped_builds:
  assumes "db_faults st = []" and "BuildAndSign sqlite_store sha c t b st = Some (Inr (Some cp), st1)"
    and "True \<in> set xs" and "False \<in> set xs" and "count_list xs True \<le> 3" and "count_list xs False \<le> 3"
    and "4 \<le> count_list (xs @ ys) True" and "4 \<le> count_list (xs @ ys) False"
  shows "\<exists>a a' st2. overlap sqlite_store sha c t u b (xs @ ys) Ready Ready st =
             Some (Returned (Inr (Some a)), Returned (Inr (Some a')), st2) \<and> cp_ID a \<noteq> cp_ID a' \<and>
           (\<forall>z \<in> {a, a'}. cp_BatchStart z = cp_BatchStart cp \<and> cp_BatchEnd z = cp_BatchEnd cp \<and>
              cp_TreeSize z = cp_TreeSize cp \<and> cp_RootHex z = cp_RootHex cp \<and>
              (\<exists>k \<in> set (checkpoints st2). scanCheckpointRow k = z\<lparr>cp_RekorLogIndex := - 1\<rparr>)) \<and>
           (count_list xs True = 2 \<and> count_list xs False = 2 \<longrightarrow>
              cp_PreviousRootHex a = last_root (checkpoints st) \<and> cp_PreviousRootHex a' = last_root (checkpoints st))"
proof -
  let ?ids = "map rr_id (next_batch b st)" and ?run = "overlap sqlite_store sha c t u b"
  note f = build_fetches [OF assms(1,2)]
  let ?c = "committed ?ids (cp_TreeSize cp) (cp_RootHex cp)" and ?s = "started ?ids (cp_TreeSize cp) (cp_RootHex cp)"
  have start: "?s Ready st" "apart Ready Ready" "rank Ready + count_list xs True \<le> 3" "rank Ready + count_list xs False \<le> 3"
    using assms(5,6) by (simp_all add: started_def apart_def)
  from overlap_fetches [OF conjunct1 [OF f] assms(1) refl start(1,1,2,3,4), of t u] obtain x y s where
    x: "?run xs Ready Ready st = Some (x, y, s)" "db_faults s = []" "?s x s" "?s y s" "apart x y"
      "rank x = rank Ready + count_list xs True" "rank y = rank Ready + count_list xs False"
    and p: "rank x \<le> 2 \<and> rank y \<le> 2 \<longrightarrow>
      (\<forall>r. link x = Some r \<longrightarrow> link Ready = Some r \<or> r = last_root (checkpoints st)) \<and>
      (\<forall>r. link y = Some r \<longrightarrow> link Ready = Some r \<or> r = last_root (checkpoints st))"
    by blast
  have "count_list xs True \<noteq> 0" "count_list xs False \<noteq> 0" using assms(3,4) by (simp_all add: count_list_0_iff)
  with x(3,4,6,7) have xc: "?c x s" "?c y s" by (auto intro: started_committed(2))
  obtain x' y' s' where e: "?run ys x y s = Some (x', y', s')" "committed ?ids (cp_TreeSize cp) (cp_RootHex cp) x' s'"
    "committed ?ids (cp_TreeSize cp) (cp_RootHex cp) y' s'" "apart x' y'" "rank x' = 4" "rank y' = 4"
    and l: "\<forall>r. link x = Some r \<longrightarrow> link x' = Some r" "\<forall>r. link y = Some r \<longrightarrow> link y' = Some r"
    using overlap_finishes [OF x(2) xc x(5), of sha c t u b ys] x(6,7) assms(7,8) by auto
  obtain a a' where a: "x' = Returned (Inr (Some a))" "made ?ids (cp_TreeSize cp) (cp_RootHex cp) a s'"
    "y' = Returned (Inr (Some a'))" "made ?ids (cp_TreeSize cp) (cp_RootHex cp) a' s'"
    using committed_done e by metis
  have two: "rank pc = 2 \<Longrightarrow> \<exists>r. link pc = Some r" for pc by (cases pc) auto
  have "cp_PreviousRootHex a = last_root (checkpoints st) \<and> cp_PreviousRootHex a' = last_root (checkpoints st)"
    if "count_list xs True = 2 \<and> count_list xs False = 2"
    using that two [of x] two [of y] p l a(1,3) x(6,7) by auto
  with x(1) e(1,4) a f show ?thesis
    by (simp add: overlap_append made_def apart_def)
qed

theorem overlapped_builds_witness:
  "\<exists>st a a' st2. overlap sqlite_store (\<lambda>x. x) toy_scheme (unix_time 100) (unix_time 101) (NewBuilder ''k'' 0)
       [True, False, False, True, True, True, False, False] Ready Ready st =
     Some (Returned (Inr (Some a)), Returned (Inr (Some a')), st2) \<and> cp_ID a \<noteq> cp_ID a' \<and>
     cp_RootHex a = cp_RootHex a' \<and> cp_PreviousRootHex a = cp_PreviousRootHex a'"
proof -
  obtain st where st: "db_faults st = []" "leafable (\<lambda>x. x) st" "length (unbatched st) = 1" by (rule sample_pending)
  obtain cp st1 where b: "BuildAndSign sqlite_store (\<lambda>x. x) toy_scheme (unix_time 100) (NewBuilder ''k'' 0) st = Some (Inr (Some cp), st1)"
    by (rule pending_builds [OF st])
  from overlapped_builds [OF st(1) b, of "[True, False, False, True]" "[True, True, False, False]" "unix_time 101"] show ?thesis
    by (fastforce simp del: overlap.simps)
qed

end
