(* ===== verification/Service.thy ===== *)
theory Service
  imports CmdSiqlah Anchor Monitor ApiClaims Interleave
begin

text \<open>
  \<^verbatim>\<open>cmd/siqlah/main.go\<close> as one process: what it starts from its flags, and the events that its goroutines take
  one at a time: a request of the API, a tick of the batcher, of the anchoring scheduler and of the monitor. The
  process refines the ledger. The listener, the shutdown and the log lines of \<^verbatim>\<open>log/slog\<close> are not modelled.
\<close>

section \<open>Starting\<close>

record ('w, 'k, 's) service =
  sp_server :: "'s server"
  sp_batcher :: batcher
  sp_scheduler :: "('w, 'k, 's) anchor_scheduler option"
  sp_monitor :: "'w monitor option"

text \<open>The two operations of a store that the scheduler uses.\<close>

definition anchor_part :: "'s store \<Rightarrow> 's anchor_store" where
  "anchor_part S =
     \<lparr>as_LatestCheckpoint = S_LatestCheckpoint S, as_UpdateCheckpointRekorIndex = S_UpdateCheckpointRekorIndex S\<rparr>"

definition start_scheduler ::
  "('w, 'k) ecdsa_lib \<Rightarrow> siqlah_opts \<Rightarrow> 's store \<Rightarrow> ('w, ('w, 'k, 's) anchor_scheduler option) op" where
  "start_scheduler ec o1 S =
     (if so_rekor_anchor o1 then
        bind_op (wrap_op ''create rekor anchor'' (NewRekorAnchor ec (so_rekor_url o1))) (\<lambda>ra.
        ret_op (Some (NewAnchorScheduler ra (anchor_part S) (so_rekor_interval o1))))
      else ret_op None)"

definition start_monitor :: "'w net_lib \<Rightarrow> siqlah_opts \<Rightarrow> 'w monitor option" where
  "start_monitor nl o1 =
     (if so_monitor o1 then
        Some (NewMonitor nl
          \<lparr>mc_LedgerURL = ''http://localhost'' @ so_addr o1,
           mc_Alerter = Some (if so_alert_webhook o1 = [] then LogAlerter
                              else NewMultiAlerter [LogAlerter, NewWebhookAlerter nl (so_alert_webhook o1)]),
           mc_Interval = so_monitor_interval o1, mc_Threshold = so_discrepancy_threshold o1\<rparr>)
      else None)"

text \<open>\<^verbatim>\<open>main\<close> up to the listener; \<open>open_store\<close> opens the backend the flags name, and an exit is an error. The receipt
  signer and the witness keys that \<^verbatim>\<open>main\<close> makes from the flags are dropped there, so they are left out here.\<close>

definition open_backend :: "(siqlah_opts \<Rightarrow> bytes \<Rightarrow> 's res) \<Rightarrow> siqlah_opts \<Rightarrow> bytes \<Rightarrow> 's res" where
  "open_backend open_store o1 priv =
     wrap_err (if so_log_backend o1 = ''tessera'' then ''open tessera store'' else ''open store'') (open_store o1 priv)"

definition boot ::
  "('ct, 'rt, 'ky, 'sg, 'vf) api_lib \<Rightarrow> ('w, 'k) ecdsa_lib \<Rightarrow> 'w net_lib \<Rightarrow> (bytes \<Rightarrow> f64 option) \<Rightarrow>
   ('w, bytes \<times> bytes) op \<Rightarrow> bytes \<Rightarrow> 's store \<Rightarrow> (siqlah_opts \<Rightarrow> bytes \<Rightarrow> 's res) \<Rightarrow> bytes list \<Rightarrow>
   ('w, ('w, 'k, 's) service \<times> 's) op" where
  "boot al ec nl parse generate version S open_store args =
     bind_op (lift_op (parse_flags (siqlah_flags parse) args siqlah_defaults)) (\<lambda>o1.
     bind_op (operator_key (al_ed al) generate (so_operator_key o1)) (\<lambda>(pub, priv).
     bind_op (lift_op (open_backend open_store o1 priv)) (\<lambda>st.
     bind_op (start_scheduler ec o1 S) (\<lambda>sched.
     let b = choose_batcher o1 priv
     in ret_op (\<lparr>sp_server = wire_server o1 version S b pub priv, sp_batcher = b, sp_scheduler = sched,
                 sp_monitor = start_monitor nl o1\<rparr>, st)))))"

section \<open>Running\<close>

record ('s, 'w) process =
  ps_api :: "'s api"
  ps_world :: "'w world"

definition batcher_build ::
  "'s store \<Rightarrow> sha_fun \<Rightarrow> ed25519 \<Rightarrow> gotime \<Rightarrow> batcher \<Rightarrow> 's \<Rightarrow> (store_checkpoint option res \<times> 's) option" where
  "batcher_build S sha c now b s =
     (case b of
        SqliteBatcher x \<Rightarrow> BuildAndSign S sha c now x s
      | TesseraBatcher x \<Rightarrow> Some (tessera_BuildAndSign S c now x s))"

text \<open>A tick of the batcher: an error is only logged.\<close>

definition batch_round :: "('ct, 'rt, 'ky, 'sg, 'vf) api_lib \<Rightarrow> 's store \<Rightarrow> batcher \<Rightarrow> 's api \<Rightarrow> 's api option" where
  "batch_round al S b a =
     map_option (\<lambda>(_, s). a\<lparr>ap_store := s, ap_calls := ap_calls a + 1\<rparr>)
       (batcher_build S (al_sha al) (al_ed al) (al_now al (ap_calls a)) b (ap_store a))"

datatype service_event = Request http_request | BatchTick | AnchorTick | MonitorTick

text \<open>\<open>None\<close> is a panic, a build that does not return, or a goroutine that was not started.\<close>

fun service_step ::
  "('ct, 'rt, 'ky, 'sg, 'vf) api_lib \<Rightarrow> ('w, 'k) ecdsa_lib \<Rightarrow> 'w net_lib \<Rightarrow> ('w, 'k, 's) service \<Rightarrow> service_event \<Rightarrow>
   ('s, 'w) process \<Rightarrow> ('s, 'w) process option" where
  "service_step al ec nl sv (Request r) p =
     map_option (\<lambda>(_, a). p\<lparr>ps_api := a\<rparr>) (Handler al (sp_server sv) r new_writer (ps_api p))"
| "service_step al ec nl sv BatchTick p =
     map_option (\<lambda>a. p\<lparr>ps_api := a\<rparr>) (batch_round al (sv_store (sp_server sv)) (sp_batcher sv) (ps_api p))"
| "service_step al ec nl sv AnchorTick p =
     map_option (\<lambda>sc. case anchor_loop ec sc [True] (ap_store (ps_api p), wd_os (ps_world p)) of (s, os) \<Rightarrow>
        p\<lparr>ps_api := (ps_api p)\<lparr>ap_store := s\<rparr>, ps_world := (ps_world p)\<lparr>wd_os := os\<rparr>\<rparr>) (sp_scheduler sv)"
| "service_step al ec nl sv MonitorTick p =
     Option.bind (sp_monitor sv) (\<lambda>m. map_option (\<lambda>w. p\<lparr>ps_world := w\<rparr>) (tick nl m (ps_world p)))"

inductive service_reach ::
  "('ct, 'rt, 'ky, 'sg, 'vf) api_lib \<Rightarrow> ('w, 'k) ecdsa_lib \<Rightarrow> 'w net_lib \<Rightarrow> ('w, 'k, 's) service \<Rightarrow> 's \<Rightarrow>
   ('s, 'w) process \<Rightarrow> bool" for al ec nl sv st0 where
  started: "ap_store (ps_api p) = st0 \<Longrightarrow> service_reach al ec nl sv st0 p"
| event: "service_reach al ec nl sv st0 p \<Longrightarrow> service_step al ec nl sv ev p = Some p' \<Longrightarrow> service_reach al ec nl sv st0 p'"

section \<open>The service refines the ledger\<close>

text \<open>A booted service: its parts share the store and the builder.\<close>

lemma boot_parts:
  assumes "boot al ec nl parse generate version S open_store args n = (Inr (sv, st), n')"
  shows "sv_store (sp_server sv) = S" and "sv_builder (sp_server sv) = api_builder (sp_batcher sv)"
    and "\<forall>sc. sp_scheduler sv = Some sc \<longrightarrow> sc_store sc = anchor_part S"
proof -
  have w: "sv_store (wire_server o1 version S b pub priv) = S"
    "sv_builder (wire_server o1 version S b pub priv) = api_builder b" for o1 b pub priv
    by (simp_all add: wire_server_def Let_def WithBackendInfo_def WithRekorURL_def WithX402Recipient_def
        NewWithOptions_def NewWithOrigin_def)
  have s: "\<forall>sc. x = Some sc \<longrightarrow> sc_store sc = anchor_part S" if "start_scheduler ec o1 S m = (Inr x, m')" for o1 x m m'
    using that by (auto simp: start_scheduler_def bind_op_Inr NewAnchorScheduler_def split: if_splits)
  obtain o1 pub priv sched m1 m2 where "start_scheduler ec o1 S m1 = (Inr sched, m2)"
    and "sv = \<lparr>sp_server = wire_server o1 version S (choose_batcher o1 priv) pub priv,
      sp_batcher = choose_batcher o1 priv, sp_scheduler = sched, sp_monitor = start_monitor nl o1\<rparr>"
    using assms by (auto simp: boot_def bind_op_Inr Let_def)
  with w s show "sv_store (sp_server sv) = S" "sv_builder (sp_server sv) = api_builder (sp_batcher sv)"
    "\<forall>sc. sp_scheduler sv = Some sc \<longrightarrow> sc_store sc = anchor_part S" by auto
qed

text \<open>The scheduler keeps whatever its two store operations keep.\<close>

lemma on_first_keeps: "keeps P m \<Longrightarrow> keeps (\<lambda>x. P (fst x)) (on_first m)"
  by (rule keepsI) (auto simp: on_first_def split: prod.split dest: keepsD)

lemma on_second_keeps: "keeps (\<lambda>x. P (fst x)) (on_second m)"
  by (rule keepsI) (auto simp: on_second_def split: prod.split)

lemma AnchorOnce_keeps:
  assumes "keeps P (as_LatestCheckpoint (sc_store sc))" and "\<And>i j. keeps P (as_UpdateCheckpointRekorIndex (sc_store sc) i j)"
  shows "keeps (\<lambda>x. P (fst x)) (AnchorOnce ec sc)"
proof -
  have l: "keeps (\<lambda>x. P (fst x)) (\<lambda>x. (Inr (), fst x, log_line t (snd x)))" for t by (rule keepsI) simp
  have a: "keeps (\<lambda>x. P (fst x)) (anchor_latest ec sc cp)" for cp
    unfolding anchor_latest_def by (intro keeps_bind keeps_wrap on_first_keeps on_second_keeps assms l)
  show ?thesis unfolding AnchorOnce_def
    by (intro keeps_bind keeps_wrap on_first_keeps assms) (auto simp: a keeps_ret split: option.split)
qed

lemma anchor_pass_keeps:
  assumes "keeps P (as_LatestCheckpoint (sc_store sc))" and "\<And>i j. keeps P (as_UpdateCheckpointRekorIndex (sc_store sc) i j)"
    and "P s"
  shows "P (fst (anchor_loop ec sc [True] (s, p)))"
  using keepsD [OF AnchorOnce_keeps [OF assms(1,2), of ec], of "(s, p)"] assms(3) by (auto split: sum.split prod.split)

text \<open>Every event keeps what the server's requests, the builder and the two operations keep.\<close>

lemma event_keeps_ledger:
  assumes "boot al ec nl parse generate version sqlite_store open_store args n = (Inr (sv, st0), n')"
    and "sp_batcher sv = SqliteBatcher b" and "service_step al ec nl sv ev p = Some p'"
    and "ledger_reach (al_sha al) (al_ed al) b (ap_store (ps_api p))"
  shows "ledger_reach (al_sha al) (al_ed al) b (ap_store (ps_api p'))"
proof -
  note parts = boot_parts [OF assms(1)]
  have b: "sv_builder (sp_server sv) = Some b" using parts(2) assms(2) by (simp add: api_builder_def)
  have u: "keeps (ledger_reach (al_sha al) (al_ed al) b) (UpdateCheckpointRekorIndex i j)" for i j
    by (rule keepsI, erule ledger_reach.step, rule ledger_step.rekor) (rule prod.collapse [symmetric])
  show ?thesis
  proof (cases ev)
    case (Request r)
    with assms(3) obtain w a where "Handler al (sp_server sv) r new_writer (ps_api p) = Some (w, a)" "p' = p\<lparr>ps_api := a\<rparr>"
      by auto
    with ledger_run.server_keeps [OF parts(1) b refl refl assms(4), of r new_writer] show ?thesis
      by (simp add: reply_keeps_def)
  next
    case BatchTick
    with assms(2,3) parts(1) show ?thesis
      using ledger_run.build_keeps [OF assms(4)] by (auto simp: batch_round_def batcher_build_def)
  next
    case AnchorTick
    with assms(3) obtain sc where sc: "sp_scheduler sv = Some sc" by auto
    with parts(3) have s: "sc_store sc = anchor_part sqlite_store" by simp
    have "ledger_reach (al_sha al) (al_ed al) b
        (fst (anchor_loop ec sc [True] (ap_store (ps_api p), wd_os (ps_world p))))"
      by (rule anchor_pass_keeps) (simp_all add: s anchor_part_def ledger_run.get_keeps u assms(4))
    with AnchorTick assms(3) sc show ?thesis by (auto split: prod.splits simp del: anchor_loop.simps)
  next
    case MonitorTick
    with assms(3,4) show ?thesis by (auto simp: bind_eq_Some_conv)
  qed
qed

text \<open>C37. The whole service refines the ledger: from a database the ledger reaches, whatever the requests, the ticks of
  the batcher, of the anchoring scheduler and of the monitor, and in whatever order they are taken, the database
  of a service started on the SQLite backend is one the ledger state machine reaches with its builder.\<close>

theorem service_refines_ledger:
  assumes "boot al ec nl parse generate version sqlite_store open_store args n = (Inr (sv, st0), n')"
    and "sp_batcher sv = SqliteBatcher b" and "ledger_reach (al_sha al) (al_ed al) b st0"
    and "service_reach al ec nl sv st0 p"
  shows "ledger_reach (al_sha al) (al_ed al) b (ap_store (ps_api p))"
  using assms(4)
proof (induction rule: service_reach.induct)
  case (started p)
  with assms(3) show ?case by simp
next
  case (event p ev p')
  from event_keeps_ledger [OF assms(1,2) event.hyps(2) event.IH] show ?case .
qed


text \<open>A service booted with its anchoring scheduler on a database with one receipt in the queue: the batcher builds a
  checkpoint, then the scheduler anchors it.\<close>

definition quiet_net :: "nat net_lib" where
  "quiet_net = \<lparr>net_url = (\<lambda>_. None), net_now = (\<lambda>n. (unix_time 0, n)), net_client = ec_client toy_rekor\<rparr>"

definition toy_boot :: "db \<Rightarrow> (nat, (nat, unit, db) service \<times> db) op" where
  "toy_boot st =
     boot toy_api toy_rekor quiet_net (\<lambda>_. None) (\<lambda>n. (Inr (''k'', ''k''), n)) ''v1'' sqlite_store (\<lambda>_ _. Inr st) [''-rekor-anchor'']"

definition toy_process :: "db \<Rightarrow> (db, nat) process" where
  "toy_process st = \<lparr>ps_api = fresh_api st, ps_world = \<lparr>wd_os = quiet_os, wd_Alerts = (\<lambda>_. [])\<rparr>\<rparr>"

lemma toy_boots:
  obtains sv sc where "toy_boot st n = (Inr (sv, st), n)" "sp_batcher sv = SqliteBatcher (NewBuilder ''k'' 0)"
    "sp_scheduler sv = Some sc"
proof -
  have flags: "parse_flags (siqlah_flags (\<lambda>_. None)) [''-rekor-anchor''] siqlah_defaults =
      Inr (siqlah_defaults\<lparr>so_rekor_anchor := True\<rparr>)"
    by (simp add: siqlah_flags_def str_flag_def int_flag_def bool_flag_def duration_flag_def float_flag_def
        flag_parts_def parse_bool_def)
  define o1 where "o1 = siqlah_defaults\<lparr>so_rekor_anchor := True\<rparr>"
  have o1: "so_operator_key o1 = []" "so_log_backend o1 \<noteq> ''tessera''" "so_max_batch o1 = 1000" "so_rekor_anchor o1"
    by (simp_all add: o1_def siqlah_defaults_def)
  have k: "ec_GenerateKey toy_rekor n = (Inr (), n)" "newAnchor toy_rekor u () = Inr
      \<lparr>ra_rekorURL = u, ra_priv = (), ra_pubPEM = [], ra_client = ec_client toy_rekor rekorTimeout\<rparr>" for u
    by (simp_all add: newAnchor_def toy_rekor_def)
  have "\<exists>sv sc. toy_boot st n = (Inr (sv, st), n) \<and> sp_batcher sv = SqliteBatcher (NewBuilder ''k'' 0) \<and>
      sp_scheduler sv = Some sc"
    using flags [folded o1_def]
    by (simp add: toy_boot_def boot_def bind_op_def operator_key_def open_backend_def start_scheduler_def
        NewRekorAnchor_def wrap_op_def choose_batcher_def NewBuilder_def Let_def o1 k del: parse_flags.simps)
  with that show ?thesis by blast
qed

theorem service_refines_ledger_witness:
  "\<exists>st sv p p'. service_step toy_api toy_rekor quiet_net sv BatchTick (toy_process st) = Some p \<and>
     service_step toy_api toy_rekor quiet_net sv AnchorTick p = Some p' \<and> length (checkpoints (ap_store (ps_api p'))) = 1 \<and>
     ledger_reach (\<lambda>x. x) toy_scheme (NewBuilder ''k'' 0) (ap_store (ps_api p'))"
proof -
  let ?b = "NewBuilder ''k'' 0" and ?step = "service_step toy_api toy_rekor quiet_net"
  obtain st where st: "ledger_reach (\<lambda>x. x) toy_scheme ?b st" "db_faults st = []" "db_inv st" "leafable (\<lambda>x. x) st"
    "length (unbatched st) = 1" "checkpoints st = []" by (rule sample_pending)
  obtain sv sc where sv: "toy_boot st 0 = (Inr (sv, st), 0)" "sp_batcher sv = SqliteBatcher ?b" "sp_scheduler sv = Some sc"
    by (rule toy_boots)
  note boot = sv(1) [unfolded toy_boot_def]
  obtain cp st1 where b: "BuildAndSign sqlite_store (\<lambda>x. x) toy_scheme (unix_time 1768473000) ?b st = Some (Inr (Some cp), st1)"
    by (rule pending_builds [OF st(2,4,5)])
  have "sv_store (sp_server sv) = sqlite_store" by (rule boot_parts [OF boot])
  then obtain p where p: "?step sv BatchTick (toy_process st) = Some p" "ap_store (ps_api p) = st1"
    using b sv(2) by (simp add: batch_round_def batcher_build_def toy_process_def fresh_api_def)
  obtain p' where p': "?step sv AnchorTick p = Some p'" using sv(3) by simp
  have "service_reach toy_api toy_rekor quiet_net sv st (toy_process st)"
    by (rule service_reach.started) (simp add: toy_process_def fresh_api_def)
  from service_reach.event [OF service_reach.event [OF this p(1)] p'] st(1)
  have "ledger_reach (\<lambda>x. x) toy_scheme ?b (ap_store (ps_api p'))"
    using service_refines_ledger [OF boot sv(2)] by simp
  moreover have "length (checkpoints (ap_store (ps_api p'))) = 1"
  proof -
    have "length (checkpoints st1) = 1" using build_success [OF b st(2)] st(6) by (auto simp: Let_def)
    moreover have "keeps (\<lambda>s. length (checkpoints s) = 1) LatestCheckpoint"
      "keeps (\<lambda>s. length (checkpoints s) = 1) (UpdateCheckpointRekorIndex i j)" for i j
      by (auto simp: keeps_def LatestCheckpoint_def UpdateCheckpointRekorIndex_def query_def sql_def set_rekor_def
          split: list.split option.split)
    ultimately have "length (checkpoints (fst (anchor_loop toy_rekor sc [True] (st1, wd_os (ps_world p))))) = 1"
      using boot_parts(3) [OF boot] sv(3)
      by (intro anchor_pass_keeps [where P = "\<lambda>s. length (checkpoints s) = 1"]) (simp_all add: anchor_part_def del: anchor_loop.simps One_nat_def)
    then show ?thesis using p' p(2) sv(3) by (auto split: prod.splits simp del: anchor_loop.simps)
  qed
  ultimately show ?thesis using p(1) p' by blast
qed

end
