(* ===== verification/Spec2Isabelle.thy ===== *)
theory Spec2Isabelle
  imports MerkleSpec StoreSpec Ledger ApiClaims Tokenizer Anchor CmdSiqlah CmdVerifier CmdWitness Config MigrateProofs ModelProofs EndToEnd Service
begin

text \<open>
  Verification development for siqlah, a transparency log for signed usage receipts of language-model calls (Go,
  under \<^verbatim>\<open>src/\<close>).

  \<^bold>\<open>The program.\<close> A client posts the response of a model provider to the service (\<^verbatim>\<open>cmd/siqlah\<close>,
  \<^verbatim>\<open>internal/api\<close>). An adapter (\<^verbatim>\<open>internal/provider\<close>) reads the token counts out of it; the server fills in a receipt
  (\<^verbatim>\<open>pkg/vur\<close>) with the identity of the model (\<^verbatim>\<open>internal/model\<close>) and energy figures (\<^verbatim>\<open>internal/energy\<close>), signs its canonical
  JSON and stores it (\<^verbatim>\<open>internal/store\<close>, with \<^verbatim>\<open>internal/tessera\<close> as a second log). A batcher builds checkpoints
  (\<^verbatim>\<open>internal/checkpoint\<close>): the root of a Merkle tree (\<^verbatim>\<open>internal/merkle\<close>) over the queued receipts, signed by the operator and
  linked to the checkpoint before. Witnesses cosign checkpoints as signed notes (\<^verbatim>\<open>internal/witness\<close>, \<^verbatim>\<open>cmd/witness\<close>), a scheduler
  anchors them in Rekor (\<^verbatim>\<open>internal/anchor\<close>), a monitor compares token counts (\<^verbatim>\<open>internal/monitor\<close>), and clients check receipts
  and inclusion proofs (\<^verbatim>\<open>cmd/verifier\<close>). \<^verbatim>\<open>internal/attestation\<close> and \<^verbatim>\<open>internal/x402\<close> serve statements and payments;
  \<^verbatim>\<open>internal/tokenizer\<close> counts tokens; \<^verbatim>\<open>internal/config\<close> loads a configuration file.

  \<^bold>\<open>Conventions.\<close> A Go string or byte slice is a \<^typ>\<open>string\<close>; a Go \<^verbatim>\<open>int\<close> or \<^verbatim>\<open>int64\<close> is an \<^typ>\<open>int\<close>
  with \<open>wrap64\<close> written where the code can overflow; an \<^verbatim>\<open>error\<close> is a value of \<open>goerr\<close>, and a fallible call returns
  \<open>goerr + 'a\<close>. A call on a state is an \<open>('s, 'a) op\<close>, a function from the state to a result and the next state.
  A panic, or a call that does not return, is \<open>None\<close>; loops that may run for ever are \<open>partial_function (option)\<close>.

  \<^bold>\<open>Go's library\<close>, as far as the repository uses it:
  \<^item> \<open>Prelude\<close>: errors, results, operations, 64-bit wrap-around, what operations keep.
  \<^item> \<open>GoStrings\<close>, \<open>GoText\<close>: \<^verbatim>\<open>strings\<close>, \<^verbatim>\<open>strconv\<close>, hex and base64 (locale \<open>codec\<close>), UTF-8 and JSON strings.
  \<^item> \<open>GoJson\<close>, \<open>GoHttp\<close>: \<^verbatim>\<open>encoding/json\<close> (parser, struct decoding with case folding, \<^verbatim>\<open>null\<close>, raw messages, the stream
    decoder), requests and responses.
  \<^item> \<open>GoFloat\<close>, \<open>GoTime\<close>: binary64 with rounding, shortest decimal text, Go's comparisons (class \<open>ord\<close>); instants, the calendar
    and RFC 3339.
  \<^item> \<open>GoOs\<close>: \<^verbatim>\<open>%.nf\<close>, \<^verbatim>\<open>time.Duration\<close>, the process (files, output, log, network) and \<^verbatim>\<open>flag\<close>.

  \<^bold>\<open>The components.\<close>
  \<^item> \<open>Merkle\<close>, \<open>MerkleProofs\<close>, \<open>MerkleSpec\<close> (\<^verbatim>\<open>internal/merkle\<close>): the code refines the RFC 6962 tree; locales \<open>commitment\<close> and
    \<open>append_only\<close> state what proofs promise, completeness and soundness of both kinds of proof are proved.
  \<^item> \<open>Receipt\<close>, \<open>ReceiptProofs\<close>, \<open>Signing\<close> (\<^verbatim>\<open>pkg/vur\<close>, \<^verbatim>\<open>internal/signing\<close>): JSON round trip, what a signature binds, which
    signed receipts verify.
  \<^item> \<open>Store\<close>, \<open>StoreProofs\<close>, \<open>StoreSpec\<close> (\<^verbatim>\<open>internal/store/sqlite.go\<close>): the tables as row lists with their counters, every
    SQL statement a step that a list of faults can make fail; the invariant of the tables and the behaviour of each operation
    (locale \<open>receipt_store\<close>); the specification by keys (\<open>store_view\<close>) that the store refines, write by write.
  \<^item> \<open>Tessera\<close>, \<open>TesseraProofs\<close> (\<^verbatim>\<open>internal/tessera\<close>, \<^verbatim>\<open>tessera_store.go\<close>): the interface \<open>store\<close> and the second backend:
    what it accepts is in its log and in its tables.
  \<^item> \<open>Note\<close>, \<open>NoteProofs\<close>, \<open>WitnessClient\<close>, \<open>CmdWitness\<close> (\<^verbatim>\<open>internal/witness\<close>, \<^verbatim>\<open>cmd/witness\<close>): checkpoints as signed
    notes, merging, thresholds, the client, the feeder and the command.
  \<^item> \<open>Checkpoint\<close>, \<open>CheckpointProofs\<close>, \<open>Ledger\<close>, \<open>Interleave\<close> (\<^verbatim>\<open>internal/checkpoint\<close>): the builders; the ledger as a state
    machine with its reachable states and invariant; the build cut at its store calls, interleaved with the other
    operations, and with a second build in every schedule that overlaps.
  \<^item> \<open>Provider\<close>, \<open>ModelId\<close>, \<open>ModelProofs\<close>, \<open>Energy\<close>, \<open>Attestation\<close>, \<open>X402\<close>, \<open>Tokenizer\<close>, \<open>Config\<close>: the packages of those
    names; which member of a provider's response becomes which count; a model identity is only accepted for a digest its
    certificate signed.
  \<^item> \<open>ApiServer\<close>, \<open>ApiHandlers\<close>, \<open>ApiProofs\<close>, \<open>ApiClaims\<close> (\<^verbatim>\<open>internal/api\<close>): every handler, the routes and the middleware;
    locales \<open>db_reads\<close> and \<open>ledger_writes\<close> carry a property of the database through all handlers.
  \<^item> \<open>Anchor\<close> (\<^verbatim>\<open>internal/anchor\<close>), \<open>Monitor\<close> (\<^verbatim>\<open>internal/monitor\<close>): the Rekor client and its scheduler (locale
    \<open>anchored_store\<close>), the monitor and its alerters.
  \<^item> \<open>CmdSiqlah\<close>, \<open>MigrateProofs\<close>, \<open>Service\<close> (\<^verbatim>\<open>cmd/siqlah\<close>): flags, wiring, the migration, and the whole service as one
    process whose events are requests and ticks; it refines the ledger.
  \<^item> \<open>CmdVerifier\<close>, \<open>EndToEnd\<close> (\<^verbatim>\<open>cmd/verifier\<close>): the client commands; the server against its own clients: the proof command
    accepts what the proof endpoint serves, the monitor never alerts on what the server records.

  \<^bold>\<open>Bounds and fuel.\<close> Trees have at most \<open>2 ^ 62\<close> leaves (\<open>fits\<close>): above, \<^verbatim>\<open>splitPoint\<close> does not return, which is proved.
  \<open>json_parse\<close> has fuel \<open>2 * length s + 2\<close>, enough because each call on a value, element or member consumes a byte or
  opens one level (lemma \<open>parses_all\<close> for all printed values), and the depth limit 10000 of Go. The scanners of raw members
  and elements and \<^verbatim>\<open>ParseDuration\<close> have the length of their input as fuel, since each round takes at least a byte. The
  shortest text of a float is searched among 1 to 17 digits, with the exact decimal value behind it. \<^verbatim>\<open>watch\<close> and the loops of the daemons are driven by a number of rounds or the list of what their \<^verbatim>\<open>select\<close>
  takes, so every statement about them holds for every prefix of a run.

  \<^bold>\<open>Parameters.\<close> Code that is not in the repository is an argument: SHA-256 (\<open>sha_fun\<close>), Ed25519 (\<open>ed25519\<close>; a scheme that is
  correct verifies what it signs), ECDSA and PEM (\<open>ecdsa_lib\<close>), X.509 (\<open>x509_lib\<close>), Sigstore (\<open>sigstore\<close>), signed notes
  (\<open>note_lib\<close>), Tessera (\<open>tessera\<close>), the tlog-witness client, HTTP clients and servers (\<open>http_client\<close>, \<open>net_lib\<close>), the C
  function of the Rust tokenizer, UUIDs, the clock, random bytes, \<^verbatim>\<open>Time.String\<close>, \<^verbatim>\<open>strconv.ParseFloat\<close> and the
  order in which a loop takes the keys of a map. Soundness of proofs and signatures is stated under the absence of
  collisions among the hashed inputs, or of a signature valid for two messages.

  \<^bold>\<open>Not modelled.\<close> The HTTP listener, shutdown and signals, the lines of \<^verbatim>\<open>log/slog\<close>, the banner; the SQL text and the
  upgrade of old schemas in \<^verbatim>\<open>Migrate\<close> (the tables it leaves are \<open>db\<close>); \<^verbatim>\<open>Close\<close> methods; mutexes of the registry
  and the bridge (their operations are atomic, and so is a request outside \<open>Interleave\<close>); allocation in the C interface;
  the Rust code of \<^verbatim>\<open>tokenizer-rs\<close>; \<^verbatim>\<open>strconv64\<close> and the two Tessera response types of \<^verbatim>\<open>proof.go\<close>, which nothing uses; tests,
  documents and deployment files.
\<close>

end
